(* ===== verification/Prelude.thy ===== *)
theory Prelude
  imports Complex_Main
begin

text \<open>
  What every theory of the development shares: the collections of simplification facts, the
  type names of the model (addresses of objects, byte arrays, identifiers) and a few lemmas on
  lists, maps and options.

  \<^item> \<open>js_arith\<close> collects the evaluation rules of the number model (theory JsNumber): how the
    operators behave on finite numbers, infinities and NaN.
  \<^item> \<open>heap_simps\<close> collects the rules that read and write objects through their addresses
    (theory LinkedList).
\<close>

named_theorems js_arith
named_theorems heap_simps

type_synonym addr = nat
type_synonym ident = string

subsection \<open>Lists\<close>

lemma length_3_conv: "length xs = 3 \<longleftrightarrow> (\<exists>a b c. xs = [a, b, c])"
  by (auto simp: length_Suc_conv eval_nat_numeral)

lemma length_3_E:
  assumes "length xs = 3"
  obtains a b c where "xs = [a, b, c]"
  using assms by (auto simp: length_3_conv)

lemma last_in_butlast_snoc: "xs \<noteq> [] \<Longrightarrow> \<exists>ys y. xs = ys @ [y]"
  by (rule exI [of _ "butlast xs"], rule exI [of _ "last xs"]) simp

lemma distinct_map_fst_filter:
  "distinct (map fst xs) \<Longrightarrow> distinct (map fst (filter P xs))"
  by (induction xs) auto

lemma distinct_map_fst_butlast:
  "distinct (map fst xs) \<Longrightarrow> distinct (map fst (butlast xs))"
  by (simp add: map_butlast distinct_butlast)

lemma map_of_filter_key:
  "map_of (filter (\<lambda>p. fst p \<noteq> k) xs) = (map_of xs)(k := None)"
  by (induction xs) (auto simp: fun_eq_iff)

lemma filter_key_absent:
  "k \<notin> fst ` set xs \<Longrightarrow> filter (\<lambda>p. fst p \<noteq> k) xs = xs"
  by (rule filter_True) auto

lemma length_filter_key:
  assumes "distinct (map fst xs)" and "k \<in> fst ` set xs"
  shows "Suc (length (filter (\<lambda>p. fst p \<noteq> k) xs)) = length xs"
  using assms
proof (induction xs)
  case Nil
  then show ?case by simp
next
  case (Cons x xs)
  show ?case
  proof (cases "fst x = k")
    case True
    with Cons.prems have "filter (\<lambda>p. fst p \<noteq> k) xs = xs"
      by (intro filter_key_absent) simp
    with True show ?thesis by simp
  next
    case False
    with Cons show ?thesis by auto
  qed
qed

lemma map_of_butlast_last:
  assumes "distinct (map fst xs)" and "xs \<noteq> []"
  shows "map_of (butlast xs) = (map_of xs)(fst (last xs) := None)"
proof -
  obtain ys y where xs: "xs = ys @ [y]"
    using last_in_butlast_snoc [OF assms(2)] by blast
  with assms(1) have "map_of ys (fst y) = None"
    by (simp add: map_of_eq_None_iff)
  with xs show ?thesis
    by (auto simp: fun_eq_iff map_of_append map_add_def split: option.splits)
qed

end
