(* ===== verification/LinkedList.thy ===== *)
theory LinkedList
  imports Prelude "HOL-Library.Monad_Syntax"
begin

text \<open>
  The doubly linked list of \<open>js/lru_cache.js\<close> (\<open>List\<close>). Its nodes are objects that the list and
  the cache both point to and that every operation changes in place, so they live in an explicit
  heap: an address stands for an object reference and \<open>None\<close> for \<open>null\<close>. An operation is a
  state-passing function in the option monad, whose \<open>None\<close> is the \<open>TypeError\<close> of a property
  access on \<open>null\<close>. \<open>new Object()\<close> takes the next unused address.

  \<open>dll l as\<close> says that the list object \<open>l\<close> is well formed and consists of the nodes \<open>as\<close> from
  front to back; every operation is shown to return on every well-formed list and to do to \<open>as\<close>
  what its name says.
\<close>

record 'a lnode =
  item :: 'a
  prev :: "addr option"
  nextp :: "addr option"

type_synonym 'a heap = "addr \<rightharpoonup> 'a lnode"

record 'a dlist =
  heap :: "'a heap"
  fresh :: addr
  frontp :: "addr option"
  backp :: "addr option"

section \<open>Reading and writing objects\<close>

text \<open>\<open>p.next = q\<close> and \<open>p.prev = q\<close>; a \<open>null\<close> (or dangling) \<open>p\<close> is a TypeError.\<close>

definition deref :: "'a heap \<Rightarrow> addr option \<Rightarrow> 'a lnode option" where
  "deref h p = Option.bind p h"

definition set_next :: "'a heap \<Rightarrow> addr option \<Rightarrow> addr option \<Rightarrow> 'a heap option" where
  "set_next h p q =
     (case p of None \<Rightarrow> None
      | Some a \<Rightarrow> (case h a of None \<Rightarrow> None | Some n \<Rightarrow> Some (h(a \<mapsto> n\<lparr>nextp := q\<rparr>))))"

definition set_prev :: "'a heap \<Rightarrow> addr option \<Rightarrow> addr option \<Rightarrow> 'a heap option" where
  "set_prev h p q =
     (case p of None \<Rightarrow> None
      | Some a \<Rightarrow> (case h a of None \<Rightarrow> None | Some n \<Rightarrow> Some (h(a \<mapsto> n\<lparr>prev := q\<rparr>))))"

section \<open>The operations of List\<close>

definition List_new :: "'a dlist" where
  "List_new = \<lparr>heap = Map.empty, fresh = 0, frontp = None, backp = None\<rparr>"

definition List_push_front :: "'a \<Rightarrow> 'a dlist \<Rightarrow> (addr \<times> 'a dlist) option" where
  "List_push_front x l = do {
     let iter = fresh l;
     let h = (heap l)(iter \<mapsto> \<lparr>item = x, prev = None, nextp = frontp l\<rparr>);
     h \<leftarrow> (if frontp l \<noteq> None then set_prev h (frontp l) (Some iter) else Some h);
     let b = (if backp l = None then Some iter else backp l);
     Some (iter, \<lparr>heap = h, fresh = Suc iter, frontp = Some iter, backp = b\<rparr>)
   }"

definition List_push_back :: "'a \<Rightarrow> 'a dlist \<Rightarrow> (addr \<times> 'a dlist) option" where
  "List_push_back x l = do {
     let iter = fresh l;
     let h = (heap l)(iter \<mapsto> \<lparr>item = x, prev = backp l, nextp = None\<rparr>);
     h \<leftarrow> (if backp l \<noteq> None then set_next h (backp l) (Some iter) else Some h);
     let f = (if frontp l = None then Some iter else frontp l);
     Some (iter, \<lparr>heap = h, fresh = Suc iter, frontp = f, backp = Some iter\<rparr>)
   }"

text \<open>\<open>pop_front\<close> and \<open>pop_back\<close> return \<open>null\<close> (here \<open>None\<close> in the pair) on an empty list.\<close>

definition List_pop_front :: "'a dlist \<Rightarrow> ('a option \<times> 'a dlist) option" where
  "List_pop_front l =
     (if frontp l = None then Some (None, l)
      else do {
        old_front \<leftarrow> deref (heap l) (frontp l);
        let new_front = nextp old_front;
        h \<leftarrow> (if new_front \<noteq> None then set_prev (heap l) new_front None else Some (heap l));
        let b = (if frontp l = backp l then None else backp l);
        Some (Some (item old_front), l\<lparr>heap := h, frontp := new_front, backp := b\<rparr>)
      })"

definition List_pop_back :: "'a dlist \<Rightarrow> ('a option \<times> 'a dlist) option" where
  "List_pop_back l =
     (if backp l = None then Some (None, l)
      else do {
        old_back \<leftarrow> deref (heap l) (backp l);
        let new_back = prev old_back;
        let f = (if frontp l = backp l then None else frontp l);
        h \<leftarrow> (if new_back \<noteq> None then set_next (heap l) new_back None else Some (heap l));
        Some (Some (item old_back), l\<lparr>heap := h, frontp := f, backp := new_back\<rparr>)
      })"

definition List_remove :: "addr \<Rightarrow> 'a dlist \<Rightarrow> 'a dlist option" where
  "List_remove iter l = do {
     n \<leftarrow> heap l iter;
     l \<leftarrow> (if Some iter = frontp l \<and> Some iter = backp l then
             Some (l\<lparr>frontp := None, backp := None\<rparr>)
           else if Some iter = frontp l then do {
             h \<leftarrow> set_prev (heap l) (nextp n) None;
             Some (l\<lparr>frontp := nextp n, heap := h\<rparr>) }
           else if Some iter = backp l then do {
             h \<leftarrow> set_next (heap l) (prev n) None;
             Some (l\<lparr>backp := prev n, heap := h\<rparr>) }
           else do {
             h \<leftarrow> set_next (heap l) (prev n) (nextp n);
             n \<leftarrow> h iter;
             h \<leftarrow> set_prev h (nextp n) (prev n);
             Some (l\<lparr>heap := h\<rparr>) });
     h \<leftarrow> set_prev (heap l) (Some iter) None;
     h \<leftarrow> set_next h (Some iter) None;
     Some (l\<lparr>heap := h\<rparr>)
   }"

definition List_move_to_front :: "addr \<Rightarrow> 'a dlist \<Rightarrow> 'a dlist option" where
  "List_move_to_front iter l =
     (if Some iter = frontp l then Some l
      else do {
        n \<leftarrow> heap l iter;
        h \<leftarrow> set_next (heap l) (prev n) (nextp n);
        n \<leftarrow> h iter;
        (h, b) \<leftarrow> (if Some iter = backp l then Some (h, prev n)
                  else do { h \<leftarrow> set_prev h (nextp n) (prev n); Some (h, backp l) });
        h \<leftarrow> set_prev h (Some iter) None;
        h \<leftarrow> set_next h (Some iter) (frontp l);
        h \<leftarrow> set_prev h (frontp l) (Some iter);
        Some (l\<lparr>heap := h, backp := b, frontp := Some iter\<rparr>)
      })"

definition List_clear :: "'a dlist \<Rightarrow> 'a dlist" where
  "List_clear l = l\<lparr>frontp := None, backp := None\<rparr>"

section \<open>Well-formed lists\<close>

definition head_ptr :: "addr list \<Rightarrow> addr option" where
  "head_ptr as = (case as of [] \<Rightarrow> None | a # _ \<Rightarrow> Some a)"

definition last_ptr :: "addr list \<Rightarrow> addr option \<Rightarrow> addr option" where
  "last_ptr as p = (if as = [] then p else Some (last as))"

text \<open>
  \<open>segment h p as q\<close>: the nodes \<open>as\<close> are linked both ways, the first has predecessor \<open>p\<close> and the
  last has successor \<open>q\<close>.
\<close>

fun segment :: "'a heap \<Rightarrow> addr option \<Rightarrow> addr list \<Rightarrow> addr option \<Rightarrow> bool" where
  "segment h p [] q \<longleftrightarrow> True"
| "segment h p (a # as) q \<longleftrightarrow>
     (\<exists>n. h a = Some n \<and> prev n = p \<and> nextp n = (if as = [] then q else Some (hd as)))
     \<and> segment h (Some a) as q"

definition dll :: "'a dlist \<Rightarrow> addr list \<Rightarrow> bool" where
  "dll l as \<longleftrightarrow>
     distinct as \<and> segment (heap l) None as None \<and> frontp l = head_ptr as \<and>
     backp l = last_ptr as None \<and> (\<forall>a \<in> set as. a < fresh l)"

text \<open>The nodes of a list with their items, from front to back.\<close>

definition nodes :: "'a heap \<Rightarrow> addr list \<Rightarrow> (addr \<times> 'a) list" where
  "nodes h as = map (\<lambda>a. (a, item (the (h a)))) as"

subsection \<open>Segments\<close>

lemma head_ptr_simps [simp]: "head_ptr [] = None" "head_ptr (a # as) = Some a"
  by (simp_all add: head_ptr_def)

lemma head_ptr_None_iff [simp]: "head_ptr as = None \<longleftrightarrow> as = []"
  by (cases as) simp_all

lemma last_ptr_simps [simp]:
  "last_ptr [] p = p" "last_ptr (as @ [a]) p = Some a" "last_ptr (a # as) p = last_ptr as (Some a)"
  by (simp_all add: last_ptr_def)

lemma last_ptr_None_iff [simp]: "last_ptr as None = None \<longleftrightarrow> as = []"
  by (simp add: last_ptr_def)

lemma last_ptr_Some_ex [simp]: "\<exists>y. last_ptr as (Some b) = Some y" "last_ptr as (Some b) \<noteq> None"
  by (simp_all add: last_ptr_def)

lemma last_ptr_append [simp]: "last_ptr (as @ bs) p = last_ptr bs (last_ptr as p)"
  by (simp add: last_ptr_def)

lemma segment_append:
  "segment h p (as @ bs) q \<longleftrightarrow>
     segment h p as (if bs = [] then q else Some (hd bs)) \<and> segment h (last_ptr as p) bs q"
  by (induction as arbitrary: p) auto

lemma segment_upd [simp]:
  "a \<notin> set as \<Longrightarrow> segment (h(a \<mapsto> n)) p as q \<longleftrightarrow> segment h p as q"
  by (induction as arbitrary: p) auto

lemma segment_in_heap: "segment h p as q \<Longrightarrow> a \<in> set as \<Longrightarrow> \<exists>n. h a = Some n"
  by (induction as arbitrary: p) auto

lemma segment_cong:
  "(\<And>a. a \<in> set as \<Longrightarrow> h a = h' a) \<Longrightarrow> segment h p as q \<longleftrightarrow> segment h' p as q"
  by (induction as arbitrary: p) auto

lemma segment_frame:
  "segment h p as q \<Longrightarrow> \<forall>a \<in> set as. h' a = h a \<Longrightarrow> segment h' p as q"
  by (induction as arbitrary: p) auto

lemma segment_snoc:
  "segment h p (as @ [a]) q \<longleftrightarrow>
     segment h p as (Some a) \<and> (\<exists>n. h a = Some n \<and> prev n = last_ptr as p \<and> nextp n = q)"
  by (simp add: segment_append)

lemma segment_Cons:
  "segment h p (a # as) q \<longleftrightarrow>
     (\<exists>n. h a = Some n \<and> prev n = p \<and> nextp n = (if as = [] then q else head_ptr as))
     \<and> segment h (Some a) as q"
  by (cases as) simp_all

text \<open>Two heaps that give every object the same item; the pointers may differ.\<close>

definition same_items :: "'a heap \<Rightarrow> 'a heap \<Rightarrow> bool" where
  "same_items h h' \<longleftrightarrow> (\<forall>a. map_option item (h' a) = map_option item (h a))"

lemma same_items_refl [simp]: "same_items h h"
  by (simp add: same_items_def)

lemma same_items_trans: "same_items h h' \<Longrightarrow> same_items h' h'' \<Longrightarrow> same_items h h''"
  by (simp add: same_items_def)

lemma same_itemsD: "same_items h h' \<Longrightarrow> h a = Some n \<Longrightarrow> \<exists>n'. h' a = Some n' \<and> item n' = item n"
  unfolding same_items_def by (metis (mono_tags) map_option_eq_Some option.simps(9))

lemma set_prev_Some [heap_simps, simp]:
  "h a = Some n \<Longrightarrow> set_prev h (Some a) q = Some (h(a \<mapsto> n\<lparr>prev := q\<rparr>))"
  by (simp add: set_prev_def)

lemma set_next_Some [heap_simps, simp]:
  "h a = Some n \<Longrightarrow> set_next h (Some a) q = Some (h(a \<mapsto> n\<lparr>nextp := q\<rparr>))"
  by (simp add: set_next_def)

lemma set_ptr_None [heap_simps, simp]: "set_prev h None q = None" "set_next h None q = None"
  by (simp_all add: set_prev_def set_next_def)

lemma deref_Some [heap_simps, simp]: "deref h (Some a) = h a" "deref h None = None"
  by (simp_all add: deref_def)

lemma set_next_same_items: "set_next h p q = Some h' \<Longrightarrow> same_items h h'"
  by (auto simp: set_next_def same_items_def split: option.splits)

lemma set_prev_same_items: "set_prev h p q = Some h' \<Longrightarrow> same_items h h'"
  by (auto simp: set_prev_def same_items_def split: option.splits)

text \<open>Relinking the first node of a segment, and the last.\<close>

lemma set_prev_segment:
  assumes "segment h p (a # as) q" "distinct (a # as)"
  obtains h' where "set_prev h (Some a) p' = Some h'" "segment h' p' (a # as) q"
    "same_items h h'" "\<And>b. b \<noteq> a \<Longrightarrow> h' b = h b"
proof -
  from assms obtain n where n: "h a = Some n" "nextp n = (if as = [] then q else Some (hd as))"
      "segment h (Some a) as q" by auto
  let ?h = "h(a \<mapsto> n\<lparr>prev := p'\<rparr>)"
  have "set_prev h (Some a) p' = Some ?h" using n by simp
  moreover have "segment ?h p' (a # as) q" using n assms(2) by simp
  moreover have "same_items h ?h" using n by (simp add: same_items_def)
  ultimately show thesis using that by simp
qed

lemma set_next_segment:
  assumes "segment h p (as @ [a]) q" "distinct (as @ [a])"
  obtains h' where "set_next h (Some a) q' = Some h'" "segment h' p (as @ [a]) q'"
    "same_items h h'" "\<And>b. b \<noteq> a \<Longrightarrow> h' b = h b"
proof -
  from assms obtain n where n: "h a = Some n" "prev n = last_ptr as p" "segment h p as (Some a)"
    by (auto simp: segment_snoc)
  let ?h = "h(a \<mapsto> n\<lparr>nextp := q'\<rparr>)"
  have "set_next h (Some a) q' = Some ?h" using n by simp
  moreover have "segment ?h p (as @ [a]) q'" using n assms(2) by (simp add: segment_snoc)
  moreover have "same_items h ?h" using n by (simp add: same_items_def)
  ultimately show thesis using that by simp
qed

subsection \<open>Nodes\<close>

lemma nodes_simps [simp]:
  "nodes h [] = []" "nodes h (a # as) = (a, item (the (h a))) # nodes h as"
  "nodes h (as @ bs) = nodes h as @ nodes h bs"
  by (simp_all add: nodes_def)

lemma map_fst_nodes [simp]: "map fst (nodes h as) = as"
  by (simp add: nodes_def comp_def)

lemma length_nodes [simp]: "length (nodes h as) = length as"
  by (simp add: nodes_def)

lemma nodes_cong: "(\<And>a. a \<in> set as \<Longrightarrow> h a = h' a) \<Longrightarrow> nodes h as = nodes h' as"
  by (simp add: nodes_def)

lemma nodes_upd [simp]: "a \<notin> set as \<Longrightarrow> nodes (h(a \<mapsto> n)) as = nodes h as"
  by (rule nodes_cong) auto

lemma nodes_same_items:
  assumes "same_items h h'" "segment h p as q"
  shows "nodes h' as = nodes h as"
proof -
  have "item (the (h' a)) = item (the (h a))" if "a \<in> set as" for a
    using segment_in_heap [OF assms(2) that] same_itemsD [OF assms(1), of a] by auto
  then show ?thesis by (simp add: nodes_def)
qed

lemma nodes_filter: "filter (\<lambda>p. fst p \<noteq> a) (nodes h as) = nodes h (filter (\<lambda>b. b \<noteq> a) as)"
  by (simp add: nodes_def filter_map comp_def)

lemma map_of_nodes: "map_of (nodes h as) a = (if a \<in> set as then Some (item (the (h a))) else None)"
  by (induction as) auto

section \<open>What the operations do\<close>

lemma dllD:
  assumes "dll l as"
  shows "distinct as" "segment (heap l) None as None" "frontp l = head_ptr as"
    "backp l = last_ptr as None" "a \<in> set as \<Longrightarrow> a < fresh l" "fresh l \<notin> set as"
  using assms by (auto simp: dll_def)

lemma List_new_dll: "dll List_new []"
  by (simp add: dll_def List_new_def)

lemma List_push_front_dll:
  assumes "dll l as"
  obtains l' where "List_push_front x l = Some (fresh l, l')" "dll l' (fresh l # as)"
    "nodes (heap l') (fresh l # as) = (fresh l, x) # nodes (heap l) as"
proof (cases as)
  case Nil
  with dllD [OF assms] that show thesis
    by (simp add: List_push_front_def dll_def Let_def)
next
  case (Cons b bs)
  note D = dllD [OF assms]
  let ?a = "fresh l"
  let ?h = "(heap l)(?a \<mapsto> \<lparr>item = x, prev = None, nextp = frontp l\<rparr>)"
  have "segment ?h None (b # bs) None" "distinct (b # bs)" using D Cons by auto
  then obtain h' where h': "set_prev ?h (Some b) (Some ?a) = Some h'"
      "segment h' (Some ?a) (b # bs) None" "same_items ?h h'" "\<And>c. c \<noteq> b \<Longrightarrow> h' c = ?h c"
    by (rule set_prev_segment [where p' = "Some ?a"]) blast
  let ?l = "\<lparr>heap = h', fresh = Suc ?a, frontp = Some ?a, backp = backp l\<rparr>"
  have "b \<noteq> ?a" using D(6) Cons by auto
  then have ha: "h' ?a = Some \<lparr>item = x, prev = None, nextp = Some b\<rparr>"
    using h'(4) [of ?a] D(3) Cons by simp
  have "List_push_front x l = Some (?a, ?l)"
    using D(3,4) Cons h'(1) by (simp add: List_push_front_def Let_def)
  moreover have "dll ?l (?a # as)"
    using D Cons h'(2) ha by (auto simp: dll_def less_Suc_eq)
  moreover have "nodes h' as = nodes (heap l) as"
    using nodes_same_items [OF h'(3), of None as None] D(2,6) by simp
  ultimately show thesis using that ha by simp
qed

lemma List_push_back_dll:
  assumes "dll l as"
  obtains l' where "List_push_back x l = Some (fresh l, l')" "dll l' (as @ [fresh l])"
    "nodes (heap l') (as @ [fresh l]) = nodes (heap l) as @ [(fresh l, x)]"
proof (cases as rule: rev_cases)
  case Nil
  with dllD [OF assms] that show thesis
    by (simp add: List_push_back_def dll_def Let_def)
next
  case (snoc bs b)
  note D = dllD [OF assms]
  let ?a = "fresh l"
  let ?h = "(heap l)(?a \<mapsto> \<lparr>item = x, prev = backp l, nextp = None\<rparr>)"
  have "segment ?h None (bs @ [b]) None" "distinct (bs @ [b])" using D snoc by auto
  then obtain h' where h': "set_next ?h (Some b) (Some ?a) = Some h'"
      "segment h' None (bs @ [b]) (Some ?a)" "same_items ?h h'" "\<And>c. c \<noteq> b \<Longrightarrow> h' c = ?h c"
    by (rule set_next_segment [where q' = "Some ?a"]) blast
  let ?l = "\<lparr>heap = h', fresh = Suc ?a, frontp = frontp l, backp = Some ?a\<rparr>"
  have "b \<noteq> ?a" using D(6) snoc by auto
  then have ha: "h' ?a = Some \<lparr>item = x, prev = Some b, nextp = None\<rparr>"
    using h'(4) [of ?a] D(4) snoc by simp
  have front: "head_ptr (as @ [?a]) = head_ptr as" using snoc by (cases bs) simp_all
  have "List_push_back x l = Some (?a, ?l)"
    using D(3,4) snoc h'(1) by (simp add: List_push_back_def Let_def)
  moreover have "dll ?l (as @ [?a])"
    using D snoc h'(2) ha front by (auto simp: dll_def less_Suc_eq segment_append)
  moreover have "nodes h' as = nodes (heap l) as"
    using nodes_same_items [OF h'(3), of None as None] D(2,6) by simp
  ultimately show thesis using that ha by simp
qed

lemma List_pop_front_dll:
  assumes "dll l (a # as)"
  obtains l' where "List_pop_front l = Some (Some (item (the (heap l a))), l')" "dll l' as"
    "nodes (heap l') as = nodes (heap l) as" "fresh l' = fresh l"
proof -
  note D = dllD [OF assms]
  from D(2) obtain n where n: "heap l a = Some n" "nextp n = head_ptr as"
      "segment (heap l) (Some a) as None" by (cases as) auto
  show thesis
  proof (cases as)
    case Nil
    with D n that show thesis by (simp add: List_pop_front_def dll_def)
  next
    case (Cons b bs)
    with n(3) D(1) have "segment (heap l) (Some a) (b # bs) None" "distinct (b # bs)" by simp_all
    then obtain h' where h': "set_prev (heap l) (Some b) None = Some h'"
        "segment h' None (b # bs) None" "same_items (heap l) h'"
      by (rule set_prev_segment [where p' = None])
    let ?l = "l\<lparr>heap := h', frontp := Some b, backp := backp l\<rparr>"
    have "last_ptr bs (Some b) \<noteq> Some a" using D(1) Cons by (auto simp: last_ptr_def split: if_splits)
    then have "List_pop_front l = Some (Some (item (the (heap l a))), ?l)"
      using D n h'(1) Cons by (auto simp: List_pop_front_def Let_def)
    moreover have "dll ?l as" using D h'(2) Cons by (auto simp: dll_def)
    moreover have "nodes h' as = nodes (heap l) as" by (rule nodes_same_items [OF h'(3) n(3)])
    ultimately show thesis using that by simp
  qed
qed

lemma List_pop_back_dll:
  assumes "dll l (as @ [a])"
  obtains l' where "List_pop_back l = Some (Some (item (the (heap l a))), l')" "dll l' as"
    "nodes (heap l') as = nodes (heap l) as" "fresh l' = fresh l"
proof -
  note D = dllD [OF assms]
  from D(2) obtain n where n: "heap l a = Some n" "prev n = last_ptr as None"
      "segment (heap l) None as (Some a)" by (auto simp: segment_snoc)
  show thesis
  proof (cases as rule: rev_cases)
    case Nil
    with D n that show thesis by (simp add: List_pop_back_def dll_def)
  next
    case (snoc bs b)
    with n(3) D(1) have "segment (heap l) None (bs @ [b]) (Some a)" "distinct (bs @ [b])" by simp_all
    then obtain h' where h': "set_next (heap l) (Some b) None = Some h'"
        "segment h' None (bs @ [b]) None" "same_items (heap l) h'"
      by (rule set_next_segment [where q' = None])
    have front: "head_ptr (as @ [a]) = head_ptr as" using snoc by (cases bs) simp_all
    let ?l = "l\<lparr>heap := h', frontp := frontp l, backp := Some b\<rparr>"
    have "head_ptr as \<noteq> Some a" using D(1) by (cases as) auto
    then have "List_pop_back l = Some (Some (item (the (heap l a))), ?l)"
      using D n h'(1) snoc front by (auto simp: List_pop_back_def Let_def)
    moreover have "dll ?l as" using D h'(2) snoc front by (auto simp: dll_def)
    moreover have "nodes h' as = nodes (heap l) as" by (rule nodes_same_items [OF h'(3) n(3)])
    ultimately show thesis using that by simp
  qed
qed

text \<open>
  Both \<open>remove\<close> and \<open>move_to_front\<close> first take a node out of the chain by relinking its
  neighbours.
\<close>

lemma unlink_segment:
  assumes seg: "segment h None (xs @ b # a # ys) None" and dist: "distinct (xs @ b # a # ys)"
  obtains n h1 where "h a = Some n" "prev n = Some b" "nextp n = head_ptr ys"
    "set_next h (Some b) (head_ptr ys) = Some h1" "h1 a = Some n"
    "segment h1 None (xs @ [b]) (head_ptr ys)" "segment h1 (Some a) ys None" "same_items h h1"
proof -
  have nb: "(if ys = [] then None else Some (hd ys)) = head_ptr ys" by (cases ys) simp_all
  from seg have xs: "segment h None (xs @ [b]) (Some a)" and a: "segment h (Some b) (a # ys) None"
    by (auto simp: segment_append)
  from a obtain n where n: "h a = Some n" "prev n = Some b" "nextp n = head_ptr ys"
      "segment h (Some a) ys None" by (auto simp: nb)
  have "distinct (xs @ [b])" using dist by simp
  from set_next_segment [OF xs this, of "head_ptr ys"]
  obtain h1 where h1: "set_next h (Some b) (head_ptr ys) = Some h1"
      "segment h1 None (xs @ [b]) (head_ptr ys)" "same_items h h1" "\<And>c. c \<noteq> b \<Longrightarrow> h1 c = h c"
    by blast
  moreover have "h1 a = Some n" using h1(4) [of a] n(1) dist by auto
  moreover have "b \<notin> set ys" using dist by simp
  then have "\<forall>c \<in> set ys. h1 c = h c" using h1(4) by metis
  with n(4) have "segment h1 (Some a) ys None" by (rule segment_frame)
  ultimately show thesis using that n by blast
qed

lemma relink_next:
  assumes "segment h None (xs @ [b]) (head_ptr ys)" "segment h (Some a) ys None"
    "distinct (xs @ b # a # ys)" "ys \<noteq> []"
  obtains h' where "set_prev h (head_ptr ys) (Some b) = Some h'" "h' a = h a"
    "segment h' None (xs @ b # ys) None" "same_items h h'"
proof -
  from assms(4) obtain c cs where ys: "ys = c # cs" by (cases ys) auto
  from assms(2,3) ys have "segment h (Some a) (c # cs) None" "distinct (c # cs)" by auto
  then obtain h' where h': "set_prev h (Some c) (Some b) = Some h'"
      "segment h' (Some b) (c # cs) None" "same_items h h'" "\<And>d. d \<noteq> c \<Longrightarrow> h' d = h d"
    by (rule set_prev_segment [where p' = "Some b"]) auto
  moreover have "c \<notin> set (xs @ [b])" using assms(3) ys by auto
  then have "\<forall>d \<in> set (xs @ [b]). h' d = h d" using h'(4) by metis
  with assms(1) have "segment h' None (xs @ [b]) (head_ptr ys)" by (rule segment_frame)
  then have "segment h' None ((xs @ [b]) @ ys) None"
    unfolding segment_append using h'(2) ys by simp
  moreover have "h' a = h a" using h'(4) [of a] assms(3) ys by auto
  ultimately show thesis using that ys by simp
qed

lemma List_move_to_front_dll:
  assumes "dll l (xs @ a # ys)"
  obtains l' where "List_move_to_front a l = Some l'" "dll l' (a # xs @ ys)"
    "nodes (heap l') (xs @ a # ys) = nodes (heap l) (xs @ a # ys)" "fresh l' = fresh l"
proof (cases xs rule: rev_cases)
  case Nil
  with assms dllD(3) [OF assms] that show thesis by (simp add: List_move_to_front_def)
next
  case (snoc zs b)
  note D = dllD [OF assms]
  let ?as = "xs @ a # ys"
  from D(1,2) snoc have S: "segment (heap l) None (zs @ b # a # ys) None"
      "distinct (zs @ b # a # ys)" by simp_all
  obtain n h1 where h1: "heap l a = Some n" "prev n = Some b" "nextp n = head_ptr ys"
      "set_next (heap l) (Some b) (head_ptr ys) = Some h1" "h1 a = Some n"
      "segment h1 None (zs @ [b]) (head_ptr ys)" "segment h1 (Some a) ys None"
      "same_items (heap l) h1"
    by (rule unlink_segment [OF S])
  obtain h2 where h2: "ys \<noteq> [] \<Longrightarrow> set_prev h1 (head_ptr ys) (Some b) = Some h2"
      "ys = [] \<Longrightarrow> h2 = h1" "h2 a = Some n" "segment h2 None (xs @ ys) None" "same_items h1 h2"
  proof (cases "ys = []")
    case True
    with h1 snoc show thesis by (intro that [of h1]) auto
  next
    case False
    from relink_next [OF h1(6,7) S(2) False] h1(5) snoc show thesis
      by (metis that False append.assoc append_Cons append_Nil)
  qed
  let ?n = "n\<lparr>prev := None, nextp := frontp l\<rparr>"
  let ?h3 = "h2(a \<mapsto> ?n)"
  have h3: "segment ?h3 None (xs @ ys) None" "same_items h2 ?h3"
    using h2(3,4) S(2) snoc by (simp_all add: same_items_def)
  obtain c cs where c: "xs @ ys = c # cs" "frontp l = Some c" "c \<noteq> a"
    using D(1,3) snoc by (cases zs) auto
  have "segment ?h3 None (c # cs) None" using h3(1) c(1) by simp
  moreover have "distinct (xs @ ys)" using D(1) by simp
  then have "distinct (c # cs)" using c(1) by simp
  ultimately obtain h4 where h4: "set_prev ?h3 (Some c) (Some a) = Some h4"
      "segment h4 (Some a) (c # cs) None" "same_items ?h3 h4" "\<And>d. d \<noteq> c \<Longrightarrow> h4 d = ?h3 d"
    using set_prev_segment [of ?h3 None c cs None "Some a"] by metis
  let ?b = "if ys = [] then Some b else backp l"
  let ?l = "l\<lparr>heap := h4, backp := ?b, frontp := Some a\<rparr>"
  have at_back: "ys = [] \<Longrightarrow> backp l = Some a" "ys \<noteq> [] \<Longrightarrow> backp l \<noteq> Some a"
    using D(1,4) by (cases ys rule: rev_cases; auto)+
  have "List_move_to_front a l = Some ?l"
    using h1(1-5) h2(1-3) h4(1) c(2,3) at_back unfolding List_move_to_front_def
    by (cases "ys = []") (auto simp: Let_def)
  moreover have "dll ?l (a # xs @ ys)"
  proof -
    have "h4 a = Some ?n" using h4(4) [of a] c(3) by auto
    then have "segment h4 None (a # xs @ ys) None" using h4(2) c by (simp add: segment_Cons)
    moreover have "?b = last_ptr (a # xs @ ys) None" using D(4) snoc by (auto simp: last_ptr_def)
    ultimately show ?thesis using D(1,5) by (auto simp: dll_def)
  qed
  moreover have "same_items (heap l) h4"
    using h1(8) h2(5) h3(2) h4(3) by (blast intro: same_items_trans)
  then have "nodes h4 ?as = nodes (heap l) ?as" using D(2) by (rule nodes_same_items)
  ultimately show thesis using that by simp
qed

text \<open>
  \<open>remove\<close> takes the node out and clears its two pointers. The four branches of the code are the
  four shapes of the list around the node.
\<close>

lemma clear_node:
  assumes "h a = Some n"
  shows "Option.bind (set_prev h (Some a) None) (\<lambda>h. set_next h (Some a) None) =
           Some (h(a \<mapsto> n\<lparr>prev := None, nextp := None\<rparr>))"
    and "same_items h (h(a \<mapsto> n\<lparr>prev := None, nextp := None\<rparr>))"
  using assms by (simp_all add: same_items_def)

lemma List_remove_frame:
  assumes l: "distinct (xs @ ys)" "\<forall>b \<in> set (xs @ ys). b < fresh l" "a \<notin> set (xs @ ys)"
    and h: "h a = Some n" "segment h None (xs @ ys) None" "same_items (heap l) h"
    and old: "segment (heap l) None (xs @ a # ys) None"
  defines "l' \<equiv> \<lparr>heap = h(a \<mapsto> n\<lparr>prev := None, nextp := None\<rparr>), fresh = fresh l,
                frontp = head_ptr (xs @ ys), backp = last_ptr (xs @ ys) None\<rparr>"
  shows "dll l' (xs @ ys) \<and> nodes (heap l') (xs @ a # ys) = nodes (heap l) (xs @ a # ys)"
proof
  show "dll l' (xs @ ys)" using l h(2) by (simp add: dll_def l'_def)
  have "same_items (heap l) (heap l')"
    using clear_node(2) [of h a n] h(1,3) by (auto simp: l'_def intro: same_items_trans)
  then show "nodes (heap l') (xs @ a # ys) = nodes (heap l) (xs @ a # ys)"
    using old by (rule nodes_same_items)
qed

lemma List_remove_dll:
  assumes "dll l (xs @ a # ys)"
  obtains l' where "List_remove a l = Some l'" "dll l' (xs @ ys)"
    "nodes (heap l') (xs @ a # ys) = nodes (heap l) (xs @ a # ys)"
proof -
  note D = dllD [OF assms]
  have dist: "distinct (xs @ ys)" "\<forall>b \<in> set (xs @ ys). b < fresh l" "a \<notin> set (xs @ ys)"
    using D(1,5) by auto
  let ?new = "\<lambda>h n. \<lparr>heap = h(a \<mapsto> n\<lparr>prev := None, nextp := None\<rparr>), fresh = fresh l,
                frontp = head_ptr (xs @ ys), backp = last_ptr (xs @ ys) None\<rparr>"
  note frame = List_remove_frame [OF dist _ _ _ D(2)]
  have fr: "frontp l = Some a \<longleftrightarrow> xs = []" using D(1,3) by (cases xs) auto
  have bk: "backp l = Some a \<longleftrightarrow> ys = []" using D(1,4) by (cases ys rule: rev_cases) auto
  show thesis
  proof (cases xs rule: rev_cases)
    case Nil
    with D(2) obtain n where n: "heap l a = Some n" "nextp n = head_ptr ys"
        "segment (heap l) (Some a) ys None" by (cases ys) auto
    show thesis
    proof (cases ys)
      case Nil
      with n \<open>xs = []\<close> D fr bk have "List_remove a l = Some (?new (heap l) n)"
        by (simp add: List_remove_def)
      with frame [of "heap l" n] n(1,3) Nil \<open>xs = []\<close> that show thesis by simp
    next
      case (Cons c cs)
      with n(3) D(1) \<open>xs = []\<close> obtain h where h: "set_prev (heap l) (Some c) None = Some h"
          "segment h None (c # cs) None" "same_items (heap l) h" "\<And>d. d \<noteq> c \<Longrightarrow> h d = heap l d"
        using set_prev_segment [of "heap l" "Some a" c cs None None] by auto
      have ha: "h a = Some n" using h(4) [of a] n(1) dist(3) Cons by auto
      have "List_remove a l = Some (?new h n)"
        using n h(1) ha D(4) fr bk Cons \<open>xs = []\<close> by (simp add: List_remove_def)
      with frame [of h n] ha h(2,3) Cons \<open>xs = []\<close> that show thesis by simp
    qed
  next
    case (snoc zs b)
    from D(1,2) snoc have S: "segment (heap l) None (zs @ b # a # ys) None"
        "distinct (zs @ b # a # ys)" by simp_all
    obtain n h1 where h1: "heap l a = Some n" "prev n = Some b" "nextp n = head_ptr ys"
        "set_next (heap l) (Some b) (head_ptr ys) = Some h1" "h1 a = Some n"
        "segment h1 None (zs @ [b]) (head_ptr ys)" "segment h1 (Some a) ys None"
        "same_items (heap l) h1"
      by (rule unlink_segment [OF S])
    have front: "head_ptr (xs @ ys) = frontp l" using D(3) snoc by (cases zs) simp_all
    show thesis
    proof (cases "ys = []")
      case True
      have "List_remove a l = Some (?new h1 n)"
        using h1(1-5) True snoc fr bk front by (simp add: List_remove_def)
      with frame [of h1 n] h1(5,6,8) True snoc that show thesis by simp
    next
      case False
      obtain h2 where h2: "set_prev h1 (head_ptr ys) (Some b) = Some h2" "h2 a = h1 a"
          "segment h2 None (zs @ b # ys) None" "same_items h1 h2"
        by (rule relink_next [OF h1(6,7) S(2) False])
      have "backp l = last_ptr (xs @ ys) None" using D(4) False by (simp add: last_ptr_def)
      then have "List_remove a l = Some (?new h2 n)"
        using h1(1-5) h2(1,2) False snoc fr bk front by (simp add: List_remove_def)
      with frame [of h2 n] h1(5) h2(2,3) same_items_trans [OF h1(8) h2(4)] snoc that
      show thesis by simp
    qed
  qed
qed

lemma List_clear_dll: "dll l as \<Longrightarrow> dll (List_clear l) []"
  by (simp add: dll_def List_clear_def)

section \<open>Properties\<close>

text \<open>Moving a node to the front: on a well-formed list with the nodes \<open>xs @ a # ys\<close>,
  \<open>move_to_front\<close> succeeds, the result is a well-formed list with the nodes \<open>a # xs @ ys\<close>, every
  node keeps its item, and no node is allocated.\<close>

theorem move_to_front_correct:
  assumes "dll l (xs @ a # ys)"
  shows "\<exists>l'. List_move_to_front a l = Some l' \<and> dll l' (a # xs @ ys) \<and>
           nodes (heap l') (xs @ a # ys) = nodes (heap l) (xs @ a # ys) \<and> fresh l' = fresh l"
  using List_move_to_front_dll [OF assms] by metis

text \<open>Removing a node: on a well-formed list with the nodes \<open>xs @ a # ys\<close>, \<open>remove\<close> succeeds in
  each of its four cases and leaves a well-formed list with the nodes \<open>xs @ ys\<close> and every item.\<close>

theorem remove_correct:
  assumes "dll l (xs @ a # ys)"
  shows "\<exists>l'. List_remove a l = Some l' \<and> dll l' (xs @ ys) \<and>
           nodes (heap l') (xs @ a # ys) = nodes (heap l) (xs @ a # ys)"
  using List_remove_dll [OF assms] by metis

text \<open>The list that \<open>push_back\<close> builds from 10, 20 and 30.\<close>

definition three_nodes :: "nat dlist" where
  "three_nodes = \<lparr>heap = [0 \<mapsto> \<lparr>item = 10, prev = None, nextp = Some 1\<rparr>,
                          Suc 0 \<mapsto> \<lparr>item = 20, prev = Some 0, nextp = Some 2\<rparr>,
                          2 \<mapsto> \<lparr>item = 30, prev = Some 1, nextp = None\<rparr>],
                  fresh = 3, frontp = Some 0, backp = Some 2\<rparr>"

lemma three_nodes_built:
  "do { (_, l) \<leftarrow> List_push_back 10 List_new; (_, l) \<leftarrow> List_push_back 20 l;
        (_, l) \<leftarrow> List_push_back 30 l; Some l } = Some three_nodes"
  by (simp add: List_push_back_def List_new_def three_nodes_def fun_eq_iff)

lemma three_nodes_dll: "dll three_nodes [0, 1, 2]"
  by (simp add: dll_def three_nodes_def)

lemma move_to_front_witness:
  "\<exists>l'. List_move_to_front 2 three_nodes = Some l' \<and> dll l' [2, 0, 1] \<and>
     nodes (heap l') [0, 1, 2] = [(0, 10), (1, 20), (2, 30)] \<and> fresh l' = 3"
  using move_to_front_correct [of three_nodes "[0, 1]" 2 "[]"] three_nodes_dll
  by (simp add: nodes_def three_nodes_def)

lemma remove_witness:
  "\<exists>l'. List_remove 1 three_nodes = Some l' \<and> dll l' [0, 2] \<and>
     nodes (heap l') [0, 1, 2] = [(0, 10), (1, 20), (2, 30)]"
  using remove_correct [of three_nodes "[0]" 1 "[2]"] three_nodes_dll
  by (simp add: nodes_def three_nodes_def)

end
