(* ===== verification/LruCache.thy ===== *)
theory LruCache
  imports LinkedList
begin

text \<open>
  The least-recently-used cache of \<open>js/lru_cache.js\<close> (\<open>LRUCache\<close>) on top of the heap model of
  \<open>List\<close>. The cache object is the record \<open>lru\<close>; its \<open>lookup\<close> object is a map from ids to the
  addresses of list nodes, and the node's item \<open>{id, item}\<close> is a pair that the node owns. A result
  \<open>None\<close> is an uncaught TypeError.

  The abstract cache is the list of its entries, most recent first (\<open>lru_touch\<close>, \<open>lru_insert\<close>);
  \<open>lru_rel\<close> relates the two and \<open>put\<close> and \<open>get\<close> are shown to refine the abstract operations.
  The locale \<open>recency_cache\<close> states the contract on which the users of a cache rely; it is
  interpreted on the operations of the model.
\<close>

section \<open>The operations of LRUCache\<close>

record 'v lru =
  max_size :: int
  csize :: int
  lookup :: "ident \<rightharpoonup> addr"
  clist :: "(ident \<times> 'v) dlist"

text \<open>
  \<open>this.lookup\<close> is an ordinary object, so reading a property that it does not have itself finds
  the one of \<open>Object.prototype\<close>, and that is never a list node.
\<close>

definition Object_prototype_names :: "string list" where
  "Object_prototype_names =
     [''constructor'', ''__defineGetter__'', ''__defineSetter__'', ''hasOwnProperty'',
      ''__lookupGetter__'', ''__lookupSetter__'', ''isPrototypeOf'', ''propertyIsEnumerable'',
      ''toString'', ''valueOf'', ''__proto__'', ''toLocaleString'']"

datatype js_prop = Undefined | Inherited | Own addr

definition get_prop :: "(ident \<rightharpoonup> addr) \<Rightarrow> ident \<Rightarrow> js_prop" where
  "get_prop m k =
     (case m k of Some a \<Rightarrow> Own a
      | None \<Rightarrow> if k \<in> set Object_prototype_names then Inherited else Undefined)"

definition LRUCache_new :: "int \<Rightarrow> 'v lru" where
  "LRUCache_new m = \<lparr>max_size = m, csize = 0, lookup = Map.empty, clist = List_new\<rparr>"

text \<open>
  The loop of \<open>_enforceOverflow\<close>; \<open>removed.id\<close> fails when the list is already empty.
\<close>

function LRUCache_enforceOverflow :: "'v lru \<Rightarrow> 'v lru option" where
  "LRUCache_enforceOverflow c =
     (if csize c > max_size c then
        (case List_pop_back (clist c) of
           Some (Some removed, l) \<Rightarrow>
             LRUCache_enforceOverflow
               (c\<lparr>clist := l, lookup := (lookup c)(fst removed := None), csize := csize c - 1\<rparr>)
         | _ \<Rightarrow> None)
      else Some c)"
  by pat_completeness auto
termination
  by (relation "measure (\<lambda>c. nat (csize c - max_size c))") auto

declare LRUCache_enforceOverflow.simps [simp del]

definition set_item :: "addr \<Rightarrow> 'v \<Rightarrow> (ident \<times> 'v) dlist \<Rightarrow> (ident \<times> 'v) dlist option" where
  "set_item a v l =
     (case heap l a of None \<Rightarrow> None
      | Some n \<Rightarrow> Some (l\<lparr>heap := (heap l)(a \<mapsto> n\<lparr>item := (fst (item n), v)\<rparr>)\<rparr>))"

definition LRUCache_put :: "ident \<Rightarrow> 'v \<Rightarrow> 'v lru \<Rightarrow> 'v lru option" where
  "LRUCache_put k v c =
     (case get_prop (lookup c) k of
        Inherited \<Rightarrow> None
      | Own existing \<Rightarrow> do {
          l \<leftarrow> set_item existing v (clist c);
          l \<leftarrow> List_move_to_front existing l;
          Some (c\<lparr>clist := l\<rparr>) }
      | Undefined \<Rightarrow> do {
          (iter, l) \<leftarrow> List_push_front (k, v) (clist c);
          LRUCache_enforceOverflow
            (c\<lparr>clist := l, csize := csize c + 1, lookup := (lookup c)(k \<mapsto> iter)\<rparr>) })"

definition LRUCache_get :: "ident \<Rightarrow> 'v lru \<Rightarrow> ('v option \<times> 'v lru) option" where
  "LRUCache_get k c =
     (case get_prop (lookup c) k of
        Inherited \<Rightarrow> None
      | Own existing \<Rightarrow> do {
          l \<leftarrow> List_move_to_front existing (clist c);
          n \<leftarrow> heap l existing;
          Some (Some (snd (item n)), c\<lparr>clist := l\<rparr>) }
      | Undefined \<Rightarrow> Some (None, c))"

definition LRUCache_clear :: "'v lru \<Rightarrow> 'v lru" where
  "LRUCache_clear c = c\<lparr>csize := 0, lookup := Map.empty, clist := List_clear (clist c)\<rparr>"

section \<open>The abstract cache\<close>

type_synonym 'v entries = "(ident \<times> 'v) list"

definition lru_touch :: "ident \<Rightarrow> 'v entries \<Rightarrow> 'v entries" where
  "lru_touch k xs =
     (case map_of xs k of None \<Rightarrow> xs | Some v \<Rightarrow> (k, v) # filter (\<lambda>p. fst p \<noteq> k) xs)"

definition lru_insert :: "nat \<Rightarrow> ident \<Rightarrow> 'v \<Rightarrow> 'v entries \<Rightarrow> 'v entries" where
  "lru_insert cap k v xs =
     (if k \<in> fst ` set xs then (k, v) # filter (\<lambda>p. fst p \<noteq> k) xs else take cap ((k, v) # xs))"

text \<open>
  The nodes \<open>as\<close> implement the entries \<open>xs\<close>: the ids are distinct, \<open>lookup\<close> maps exactly the ids
  of the entries to their nodes, and \<open>size\<close> counts them.
\<close>

definition lru_nodes :: "'v lru \<Rightarrow> addr list \<Rightarrow> 'v entries \<Rightarrow> bool" where
  "lru_nodes c as xs \<longleftrightarrow>
     dll (clist c) as \<and> nodes (heap (clist c)) as = zip as xs \<and> length as = length xs \<and>
     distinct (map fst xs) \<and> lookup c = map_of (zip (map fst xs) as) \<and>
     csize c = int (length xs) \<and> fst ` set xs \<inter> set Object_prototype_names = {}"

definition lru_rel :: "'v lru \<Rightarrow> 'v entries \<Rightarrow> bool" where
  "lru_rel c xs \<longleftrightarrow> (\<exists>as. lru_nodes c as xs)"

subsection \<open>Splitting the representation at an entry\<close>

lemma lru_nodesD:
  assumes "lru_nodes c as xs"
  shows "dll (clist c) as" "nodes (heap (clist c)) as = zip as xs" "length as = length xs"
    "distinct (map fst xs)" "lookup c = map_of (zip (map fst xs) as)" "csize c = int (length xs)"
    "fst ` set xs \<inter> set Object_prototype_names = {}" "distinct as"
  using assms dllD(1) [of "clist c" as] by (auto simp: lru_nodes_def)

lemma lru_nodes_split:
  assumes "lru_nodes c as (ys @ (k, v) # zs)"
  obtains as1 a as2 where "as = as1 @ a # as2" "length as1 = length ys" "length as2 = length zs"
    "lookup c k = Some a" "heap (clist c) a \<noteq> None" "item (the (heap (clist c) a)) = (k, v)"
    "nodes (heap (clist c)) as1 = zip as1 ys" "nodes (heap (clist c)) as2 = zip as2 zs"
proof -
  note D = lru_nodesD [OF assms]
  define as1 where "as1 = take (length ys) as"
  from D(3) obtain a as2 where d: "drop (length ys) as = a # as2"
    by (cases "drop (length ys) as") auto
  then have as: "as = as1 @ a # as2" unfolding as1_def by (metis append_take_drop_id)
  have len: "length as1 = length ys" using D(3) by (simp add: as1_def)
  with D(3) as have len2: "length as2 = length zs" by simp
  have "lookup c k = Some a"
    using D(4,5) len by (auto simp: as map_add_def split: option.splits dest!: map_of_SomeD set_zip_leftD)
  moreover have "heap (clist c) a \<noteq> None"
    using segment_in_heap [OF dllD(2) [OF D(1)], of a] as by auto
  moreover have "nodes (heap (clist c)) as1 @ (a, item (the (heap (clist c) a))) # nodes (heap (clist c)) as2
      = zip as1 ys @ (a, (k, v)) # zip as2 zs"
    using D(2) len len2 by (simp add: as)
  then have "nodes (heap (clist c)) as1 = zip as1 ys" "item (the (heap (clist c) a)) = (k, v)"
      "nodes (heap (clist c)) as2 = zip as2 zs"
    using len by (simp_all add: append_eq_append_conv)
  ultimately show thesis using that as len len2 by blast
qed

lemma filter_key_split:
  assumes "distinct (map fst (ys @ (k, v) # zs))"
  shows "filter (\<lambda>p. fst p \<noteq> k) (ys @ (k, v) # zs) = ys @ zs"
  using assms by (simp add: filter_key_absent)

lemma map_of_split: "distinct (map fst (ys @ (k, v) # zs)) \<Longrightarrow> map_of (ys @ (k, v) # zs) k = Some v"
  by (simp add: map_of_eq_Some_iff del: map_of_append)

lemma map_of_zip_move:
  assumes "length as1 = length ys" "length as2 = length zs" "distinct (ys @ k # zs)"
  shows "map_of (zip (k # ys @ zs) (a # as1 @ as2)) = map_of (zip (ys @ k # zs) (as1 @ a # as2))"
  using assms by (intro map_of_inject_set [THEN iffD2]) auto

lemma get_prop_simps [simp]:
  "lookup c k = Some a \<Longrightarrow> get_prop (lookup c) k = Own a"
  "lookup c k = None \<Longrightarrow> k \<in> set Object_prototype_names \<Longrightarrow> get_prop (lookup c) k = Inherited"
  "lookup c k = None \<Longrightarrow> k \<notin> set Object_prototype_names \<Longrightarrow> get_prop (lookup c) k = Undefined"
  by (simp_all add: get_prop_def)

lemma lru_nodes_lookup_None:
  assumes "lru_nodes c as xs" "k \<notin> fst ` set xs"
  shows "lookup c k = None"
  using lru_nodesD(5) [OF assms(1)] assms(2)
  by (auto simp: map_of_eq_None_iff dest!: set_zip_leftD)

lemma entries_split:
  assumes "k \<in> fst ` set xs"
  obtains ys v zs where "xs = ys @ (k, v) # zs"
  using assms by (metis imageE prod.collapse split_list)

text \<open>A hit moves the entry's node to the front and changes nothing else.\<close>

lemma lru_nodes_move:
  assumes c: "lru_nodes c (as1 @ a # as2) (ys @ (k, v) # zs)" "length as1 = length ys"
    and l: "dll l (as1 @ a # as2)" "nodes (heap l) (as1 @ a # as2) = zip (as1 @ a # as2) (ys @ (k, v') # zs)"
  obtains l' where "List_move_to_front a l = Some l'" "heap l' a \<noteq> None"
    "item (the (heap l' a)) = (k, v')"
    "lru_nodes (c\<lparr>clist := l'\<rparr>) (a # as1 @ as2) ((k, v') # ys @ zs)"
proof -
  note D = lru_nodesD [OF c(1)]
  obtain l' where l': "List_move_to_front a l = Some l'" "dll l' (a # as1 @ as2)"
      "nodes (heap l') (as1 @ a # as2) = nodes (heap l) (as1 @ a # as2)"
    by (rule List_move_to_front_dll [OF l(1)])
  have len: "length as2 = length zs" using D(3) c(2) by simp
  from l'(3) l(2) have "nodes (heap l') as1 @ (a, item (the (heap l' a))) # nodes (heap l') as2
      = zip as1 ys @ (a, (k, v')) # zip as2 zs"
    using c(2) len by simp
  then have n: "nodes (heap l') as1 = zip as1 ys" "item (the (heap l' a)) = (k, v')"
      "nodes (heap l') as2 = zip as2 zs"
    using c(2) by (simp_all add: append_eq_append_conv)
  have "lookup c = map_of (zip (k # map fst ys @ map fst zs) (a # as1 @ as2))"
    using D(4,5) c(2) len by (subst map_of_zip_move) auto
  then have "lru_nodes (c\<lparr>clist := l'\<rparr>) (a # as1 @ as2) ((k, v') # ys @ zs)"
    using D l'(2) n c(2) len by (auto simp: lru_nodes_def)
  moreover have "heap l' a \<noteq> None"
    using segment_in_heap [OF dllD(2) [OF l'(2)], of a] by auto
  ultimately show thesis using that l'(1) n(2) by blast
qed

section \<open>Refinement\<close>

lemma lru_touch_split:
  "distinct (map fst (ys @ (k, v) # zs)) \<Longrightarrow> lru_touch k (ys @ (k, v) # zs) = (k, v) # ys @ zs"
  unfolding lru_touch_def by (simp only: map_of_split filter_key_split option.simps)

lemma lru_touch_absent: "k \<notin> fst ` set xs \<Longrightarrow> lru_touch k xs = xs"
  by (simp add: lru_touch_def map_of_eq_None_iff [THEN iffD2])

lemma lru_insert_split:
  "distinct (map fst (ys @ (k, v) # zs)) \<Longrightarrow>
   lru_insert cap k v' (ys @ (k, v) # zs) = (k, v') # ys @ zs"
  unfolding lru_insert_def by (simp only: filter_key_split) simp

lemma LRUCache_get_rel:
  assumes "lru_rel c xs" "k \<notin> set Object_prototype_names"
  shows "\<exists>c'. LRUCache_get k c = Some (map_of xs k, c') \<and> lru_rel c' (lru_touch k xs) \<and>
           max_size c' = max_size c"
proof -
  from assms(1) obtain as where c: "lru_nodes c as xs" by (auto simp: lru_rel_def)
  note D = lru_nodesD [OF c]
  show ?thesis
  proof (cases "k \<in> fst ` set xs")
    case False
    then show ?thesis
      using lru_nodes_lookup_None [OF c False] assms
      by (simp add: LRUCache_get_def lru_touch_absent map_of_eq_None_iff [THEN iffD2])
  next
    case True
    then obtain ys v zs where xs: "xs = ys @ (k, v) # zs" by (rule entries_split)
    obtain as1 a as2 where as: "as = as1 @ a # as2" "length as1 = length ys"
        "lookup c k = Some a"
      using lru_nodes_split [OF c [unfolded xs]] by metis
    obtain l' where l': "List_move_to_front a (clist c) = Some l'" "heap l' a \<noteq> None"
        "item (the (heap l' a)) = (k, v)" "lru_nodes (c\<lparr>clist := l'\<rparr>) (a # as1 @ as2) ((k, v) # ys @ zs)"
      by (rule lru_nodes_move [OF c [unfolded xs as(1)] as(2)]) (use D(1,2) xs as in auto)
    then have "LRUCache_get k c = Some (Some v, c\<lparr>clist := l'\<rparr>)"
      using as(3) by (auto simp: LRUCache_get_def)
    moreover have "map_of xs k = Some v" "lru_touch k xs = (k, v) # ys @ zs"
      using D(4) unfolding xs by (rule map_of_split, rule lru_touch_split)
    moreover have "lru_rel (c\<lparr>clist := l'\<rparr>) ((k, v) # ys @ zs)"
      using l'(4) unfolding lru_rel_def by blast
    ultimately show ?thesis by auto
  qed
qed

lemma set_item_dll:
  assumes l: "dll l (as1 @ a # as2)"
  obtains l' where "set_item a v l = Some l'" "dll l' (as1 @ a # as2)"
    "nodes (heap l') as1 = nodes (heap l) as1" "nodes (heap l') as2 = nodes (heap l) as2"
    "item (the (heap l' a)) = (fst (item (the (heap l a))), v)"
proof -
  note D = dllD [OF l]
  obtain n where n: "heap l a = Some n" using segment_in_heap [OF D(2), of a] by auto
  let ?n = "n\<lparr>item := (fst (item n), v)\<rparr>"
  let ?l = "l\<lparr>heap := (heap l)(a \<mapsto> ?n)\<rparr>"
  have "segment ((heap l)(a \<mapsto> ?n)) None (as1 @ a # as2) None"
    using D(1,2) n by (auto simp: segment_append)
  then have "dll ?l (as1 @ a # as2)" using D by (simp add: dll_def)
  moreover have "set_item a v l = Some ?l" using n by (simp add: set_item_def)
  ultimately show thesis using that D(1) n by simp
qed

lemma LRUCache_put_hit:
  assumes c: "lru_nodes c as (ys @ (k, v) # zs)"
  shows "\<exists>c'. LRUCache_put k v' c = Some c' \<and> lru_rel c' ((k, v') # ys @ zs) \<and>
           max_size c' = max_size c"
proof -
  note D = lru_nodesD [OF c]
  obtain as1 a as2 where as: "as = as1 @ a # as2" "length as1 = length ys"
      "lookup c k = Some a" "length as2 = length zs" "item (the (heap (clist c) a)) = (k, v)"
      "nodes (heap (clist c)) as1 = zip as1 ys" "nodes (heap (clist c)) as2 = zip as2 zs"
    using lru_nodes_split [OF c] by metis
  obtain l1 where l1: "set_item a v' (clist c) = Some l1" "dll l1 (as1 @ a # as2)"
      "nodes (heap l1) as1 = nodes (heap (clist c)) as1"
      "nodes (heap l1) as2 = nodes (heap (clist c)) as2"
      "item (the (heap l1 a)) = (fst (item (the (heap (clist c) a))), v')"
    by (rule set_item_dll [OF D(1) [unfolded as(1)]])
  have "nodes (heap l1) (as1 @ a # as2) = zip (as1 @ a # as2) (ys @ (k, v') # zs)"
    using l1 as by simp
  then obtain l' where l': "List_move_to_front a l1 = Some l'"
      "lru_nodes (c\<lparr>clist := l'\<rparr>) (a # as1 @ as2) ((k, v') # ys @ zs)"
    using lru_nodes_move [OF c [unfolded as(1)] as(2) l1(2)] by metis
  then have "LRUCache_put k v' c = Some (c\<lparr>clist := l'\<rparr>)"
    using as(3) l1(1) by (simp add: LRUCache_put_def)
  with l'(2) show ?thesis unfolding lru_rel_def by (intro exI) auto
qed

lemma lru_nodes_push:
  assumes c: "lru_nodes c as xs" "k \<notin> fst ` set xs" "k \<notin> set Object_prototype_names"
  obtains iter l where "List_push_front (k, v) (clist c) = Some (iter, l)"
    "lru_nodes (c\<lparr>clist := l, csize := csize c + 1, lookup := (lookup c)(k \<mapsto> iter)\<rparr>)
       (iter # as) ((k, v) # xs)"
proof -
  note D = lru_nodesD [OF c(1)]
  obtain l' where l': "List_push_front (k, v) (clist c) = Some (fresh (clist c), l')"
      "dll l' (fresh (clist c) # as)"
      "nodes (heap l') (fresh (clist c) # as) = (fresh (clist c), (k, v)) # nodes (heap (clist c)) as"
    by (rule List_push_front_dll [OF D(1)])
  then show thesis using D c(2,3) by (intro that [of _ l']) (auto simp: lru_nodes_def)
qed

lemma lru_nodes_pop:
  assumes c: "lru_nodes c as (xs @ [(k, v)])"
  obtains l where "List_pop_back (clist c) = Some (Some (k, v), l)"
    "lru_nodes (c\<lparr>clist := l, lookup := (lookup c)(k := None), csize := csize c - 1\<rparr>)
       (butlast as) xs"
proof -
  note D = lru_nodesD [OF c]
  obtain as1 a where as: "as = as1 @ [a]" "length as1 = length xs" "lookup c k = Some a"
      "item (the (heap (clist c) a)) = (k, v)" "nodes (heap (clist c)) as1 = zip as1 xs"
    using lru_nodes_split [OF c] by (metis length_0_conv)
  obtain l' where l': "List_pop_back (clist c) = Some (Some (k, v), l')" "dll l' as1"
      "nodes (heap l') as1 = nodes (heap (clist c)) as1"
    using List_pop_back_dll [OF D(1) [unfolded as(1)]] as(4) by metis
  let ?zs = "zip (map fst xs) as1 @ [(k, a)]"
  have "lookup c = map_of ?zs" "distinct (map fst ?zs)" using D(4,5) as(1,2) by simp_all
  with map_of_butlast_last [of ?zs] have "(lookup c)(k := None) = map_of (zip (map fst xs) as1)"
    by simp
  then show thesis using that [OF l'(1)] D as l' by (auto simp: lru_nodes_def)
qed

lemma enforceOverflow_done:
  "csize c \<le> max_size c \<Longrightarrow> LRUCache_enforceOverflow c = Some c"
  by (subst LRUCache_enforceOverflow.simps) simp

lemma enforceOverflow_pop:
  assumes "max_size c < csize c" "List_pop_back (clist c) = Some (Some (k, v), l)"
  shows "LRUCache_enforceOverflow c = LRUCache_enforceOverflow
           (c\<lparr>clist := l, lookup := (lookup c)(k := None), csize := csize c - 1\<rparr>)"
  using assms by (subst LRUCache_enforceOverflow.simps) simp

lemma enforceOverflow_empty:
  assumes "max_size c < csize c" "dll (clist c) []"
  shows "LRUCache_enforceOverflow c = None"
  using assms dllD(4) [OF assms(2)]
  by (subst LRUCache_enforceOverflow.simps) (simp add: List_pop_back_def)

text \<open>The loop drops entries from the back until \<open>max_size\<close> are left.\<close>

lemma enforceOverflow_nodes:
  assumes "lru_nodes c as xs" "0 \<le> max_size c"
  shows "\<exists>c' as'. LRUCache_enforceOverflow c = Some c' \<and>
           lru_nodes c' as' (take (nat (max_size c)) xs) \<and> max_size c' = max_size c"
  using assms
proof (induction xs arbitrary: c as rule: rev_induct)
  case Nil
  with lru_nodesD(6) [OF Nil.prems(1)] show ?case by (auto simp: enforceOverflow_done)
next
  case (snoc x xs)
  obtain k v where x: "x = (k, v)" by (cases x)
  note size = lru_nodesD(6) [OF snoc.prems(1)]
  show ?case
  proof (cases "max_size c < csize c")
    case False
    with size snoc.prems show ?thesis
      by (intro exI [of _ c] exI [of _ as]) (auto simp: enforceOverflow_done)
  next
    case True
    obtain l where l: "List_pop_back (clist c) = Some (Some (k, v), l)"
        "lru_nodes (c\<lparr>clist := l, lookup := (lookup c)(k := None), csize := csize c - 1\<rparr>)
           (butlast as) xs"
      by (rule lru_nodes_pop [OF snoc.prems(1) [unfolded x]])
    from snoc.IH [OF l(2)] snoc.prems(2) True size enforceOverflow_pop [OF True l(1)]
    show ?thesis by auto
  qed
qed

lemma enforceOverflow_negative:
  assumes "lru_nodes c as xs" "max_size c < 0"
  shows "LRUCache_enforceOverflow c = None"
  using assms
proof (induction xs arbitrary: c as rule: rev_induct)
  case Nil
  with lru_nodesD(1,3,6) [OF Nil.prems(1)] show ?case by (auto intro: enforceOverflow_empty)
next
  case (snoc x xs)
  obtain k v where x: "x = (k, v)" by (cases x)
  have lt: "max_size c < csize c" using lru_nodesD(6) [OF snoc.prems(1)] snoc.prems(2) by simp
  obtain l where l: "List_pop_back (clist c) = Some (Some (k, v), l)"
      "lru_nodes (c\<lparr>clist := l, lookup := (lookup c)(k := None), csize := csize c - 1\<rparr>)
         (butlast as) xs"
    by (rule lru_nodes_pop [OF snoc.prems(1) [unfolded x]])
  from snoc.IH [OF l(2)] snoc.prems(2) enforceOverflow_pop [OF lt l(1)] show ?case by simp
qed

lemma LRUCache_put_miss:
  assumes c: "lru_nodes c as xs" "k \<notin> fst ` set xs" "k \<notin> set Object_prototype_names"
    and m: "0 \<le> max_size c"
  shows "\<exists>c'. LRUCache_put k v c = Some c' \<and> lru_rel c' (take (nat (max_size c)) ((k, v) # xs)) \<and>
           max_size c' = max_size c"
proof -
  obtain iter l where l: "List_push_front (k, v) (clist c) = Some (iter, l)"
      "lru_nodes (c\<lparr>clist := l, csize := csize c + 1, lookup := (lookup c)(k \<mapsto> iter)\<rparr>)
         (iter # as) ((k, v) # xs)"
    by (rule lru_nodes_push [OF c])
  from enforceOverflow_nodes [OF l(2)] m lru_nodes_lookup_None [OF c(1,2)] c(3) l(1)
  show ?thesis by (fastforce simp: LRUCache_put_def lru_rel_def)
qed

lemma LRUCache_put_rel:
  assumes "lru_rel c xs" "k \<notin> set Object_prototype_names" "0 \<le> max_size c"
  shows "\<exists>c'. LRUCache_put k v c = Some c' \<and>
           lru_rel c' (lru_insert (nat (max_size c)) k v xs) \<and> max_size c' = max_size c"
proof -
  from assms(1) obtain as where c: "lru_nodes c as xs" by (auto simp: lru_rel_def)
  show ?thesis
  proof (cases "k \<in> fst ` set xs")
    case True
    then obtain ys v' zs where xs: "xs = ys @ (k, v') # zs" by (rule entries_split)
    then have "lru_insert (nat (max_size c)) k v xs = (k, v) # ys @ zs"
      using lru_nodesD(4) [OF c] by (simp only: lru_insert_split)
    with LRUCache_put_hit [OF c [unfolded xs]] show ?thesis by simp
  next
    case False
    with LRUCache_put_miss [OF c False assms(2,3)] show ?thesis by (simp add: lru_insert_def)
  qed
qed

lemma LRUCache_new_rel: "lru_rel (LRUCache_new m) []"
  using List_new_dll by (auto simp: lru_rel_def lru_nodes_def LRUCache_new_def)

lemma LRUCache_clear_rel: "lru_rel c xs \<Longrightarrow> lru_rel (LRUCache_clear c) []"
  using List_clear_dll by (auto simp: lru_rel_def lru_nodes_def LRUCache_clear_def)

lemma LRUCache_inherited:
  assumes "lru_rel c xs" "k \<in> set Object_prototype_names"
  shows "LRUCache_get k c = None" "LRUCache_put k v c = None"
proof -
  from assms obtain as where c: "lru_nodes c as xs" by (auto simp: lru_rel_def)
  have "lookup c k = None"
    using lru_nodes_lookup_None [OF c] lru_nodesD(7) [OF c] assms(2) by blast
  with assms(2) show "LRUCache_get k c = None" "LRUCache_put k v c = None"
    by (simp_all add: LRUCache_get_def LRUCache_put_def)
qed

section \<open>Sequences of operations\<close>

datatype 'v cache_op = Put ident 'v | Get ident

fun op_key :: "'v cache_op \<Rightarrow> ident" where
  "op_key (Put k _) = k"
| "op_key (Get k) = k"

fun lru_step :: "nat \<Rightarrow> 'v entries \<Rightarrow> 'v cache_op \<Rightarrow> 'v entries" where
  "lru_step cap xs (Put k v) = lru_insert cap k v xs"
| "lru_step cap xs (Get k) = lru_touch k xs"

definition lru_run :: "nat \<Rightarrow> 'v cache_op list \<Rightarrow> 'v entries \<Rightarrow> 'v entries" where
  "lru_run cap ops xs = foldl (lru_step cap) xs ops"

fun run_ops :: "(ident \<Rightarrow> 'v \<Rightarrow> 'c \<Rightarrow> 'c option) \<Rightarrow> (ident \<Rightarrow> 'c \<Rightarrow> ('v option \<times> 'c) option) \<Rightarrow>
    'v cache_op list \<Rightarrow> 'c \<Rightarrow> 'c option" where
  "run_ops put get [] c = Some c"
| "run_ops put get (Put k v # ops) c = Option.bind (put k v c) (run_ops put get ops)"
| "run_ops put get (Get k # ops) c = Option.bind (get k c) (\<lambda>(_, c). run_ops put get ops c)"

lemma lru_run_simps [simp]:
  "lru_run cap [] xs = xs" "lru_run cap (op # ops) xs = lru_run cap ops (lru_step cap xs op)"
  by (simp_all add: lru_run_def)

lemma set_filter_key: "fst ` set (filter (\<lambda>p. fst p \<noteq> k) xs) = fst ` set xs - {k}"
  by auto

lemma lru_step_distinct:
  "distinct (map fst xs) \<Longrightarrow> distinct (map fst (lru_step cap xs op))"
  by (cases op)
    (auto simp: lru_touch_def lru_insert_def set_filter_key distinct_map_fst_filter take_map [symmetric]
      intro!: distinct_take split: option.split)

lemma lru_step_length:
  "distinct (map fst xs) \<Longrightarrow> length xs \<le> cap \<Longrightarrow> length (lru_step cap xs op) \<le> cap"
proof (cases op)
  case (Put k v)
  assume xs: "distinct (map fst xs)" "length xs \<le> cap"
  then show ?thesis
    using Put length_filter_key [OF xs(1), of k] by (auto simp: lru_insert_def)
next
  case (Get k)
  assume xs: "distinct (map fst xs)" "length xs \<le> cap"
  then show ?thesis
    using Get length_filter_key [OF xs(1), of k]
    by (auto simp: lru_touch_def dest!: map_of_SomeD split: option.split)
      (metis fst_conv image_eqI)
qed

lemma lru_run_bounded:
  assumes "distinct (map fst xs)" "length xs \<le> cap"
  shows "length (lru_run cap ops xs) \<le> cap"
  using assms by (induction ops arbitrary: xs) (simp_all add: lru_step_distinct lru_step_length)

text \<open>
  \<open>recent k v S xs\<close>: the entry of \<open>k\<close> is \<open>v\<close>, and the entries in front of it have ids in \<open>S\<close>.
  Operations on ids in \<open>S\<close> keep it as long as \<open>S\<close> is smaller than the capacity.
\<close>

definition recent :: "ident \<Rightarrow> 'v \<Rightarrow> ident set \<Rightarrow> 'v entries \<Rightarrow> bool" where
  "recent k v S xs \<longleftrightarrow>
     distinct (map fst xs) \<and> (\<exists>ys zs. xs = ys @ (k, v) # zs \<and> fst ` set ys \<subseteq> S)"

lemma recent_map_of: "recent k v S xs \<Longrightarrow> map_of xs k = Some v"
  by (auto simp: recent_def map_of_eq_Some_iff simp del: map_of_append)

lemma recent_step:
  assumes r: "recent k v S xs" and j: "op_key op \<in> S" "k \<notin> S" and S: "finite S" "card S < cap"
  shows "recent k v S (lru_step cap xs op)"
proof -
  from r obtain ys zs where xs: "distinct (map fst xs)" "xs = ys @ (k, v) # zs" "fst ` set ys \<subseteq> S"
    by (auto simp: recent_def)
  have kj: "op_key op \<noteq> k" using j by auto
  have front: "\<exists>ys' zs'. (op_key op, w) # filter (\<lambda>p. fst p \<noteq> op_key op) xs = ys' @ (k, v) # zs' \<and>
      fst ` set ys' \<subseteq> S" for w
    using xs(2,3) j kj
    by - (rule exI [of _ "(op_key op, w) # filter (\<lambda>p. fst p \<noteq> op_key op) ys"],
        rule exI [of _ "filter (\<lambda>p. fst p \<noteq> op_key op) zs"], auto)
  have new: "\<exists>ys' zs'. take cap ((op_key op, w) # xs) = ys' @ (k, v) # zs' \<and> fst ` set ys' \<subseteq> S"
    if fresh: "op_key op \<notin> fst ` set xs" for w
  proof -
    have "fst ` set ((op_key op, w) # ys) \<subseteq> S" using xs(3) j by auto
    moreover have "distinct (map fst ((op_key op, w) # ys))" using xs(1,2) fresh by auto
    ultimately have "length ((op_key op, w) # ys) \<le> card S"
      using S(1) by (metis card_mono distinct_card length_map set_map)
    with S(2) have "length ((op_key op, w) # ys) < cap" by simp
    then obtain m where "cap = Suc (length ((op_key op, w) # ys) + m)"
      using less_imp_Suc_add by blast
    then have "take cap ((op_key op, w) # xs) = ((op_key op, w) # ys) @ (k, v) # take m zs"
      using xs(2) by simp
    then show ?thesis using \<open>fst ` set ((op_key op, w) # ys) \<subseteq> S\<close> by metis
  qed
  have "\<exists>ys' zs'. lru_step cap xs op = ys' @ (k, v) # zs' \<and> fst ` set ys' \<subseteq> S"
  proof (cases op)
    case (Put i w)
    with front [of w] new [of w] show ?thesis by (simp add: lru_insert_def)
  next
    case (Get i)
    with xs(2,3) front show ?thesis by (auto simp: lru_touch_def split: option.split)
  qed
  with lru_step_distinct [OF xs(1)] show ?thesis unfolding recent_def by blast
qed

lemma recent_run:
  assumes "recent k v S xs" "op_key ` set ops \<subseteq> S" "k \<notin> S" "finite S" "card S < cap"
  shows "recent k v S (lru_run cap ops xs)"
  using assms by (induction ops arbitrary: xs) (simp_all add: recent_step)

lemma recent_put: "distinct (map fst xs) \<Longrightarrow> 0 < cap \<Longrightarrow> recent k v {} (lru_insert cap k v xs)"
  using lru_step_distinct [of xs cap "Put k v"]
  unfolding recent_def
  by (auto simp: lru_insert_def take_Cons' intro!: exI [of _ "[]"])

lemma recent_mono: "recent k v S xs \<Longrightarrow> S \<subseteq> T \<Longrightarrow> recent k v T xs"
  unfolding recent_def by blast

section \<open>The contract of a cache\<close>

locale recency_cache =
  fixes rel :: "'c \<Rightarrow> 'v entries \<Rightarrow> bool"
    and ok :: "ident \<Rightarrow> bool"
    and cap :: nat
    and put :: "ident \<Rightarrow> 'v \<Rightarrow> 'c \<Rightarrow> 'c option"
    and get :: "ident \<Rightarrow> 'c \<Rightarrow> ('v option \<times> 'c) option"
  assumes rel_distinct: "rel c xs \<Longrightarrow> distinct (map fst xs)"
    and put_rel: "rel c xs \<Longrightarrow> ok k \<Longrightarrow> \<exists>c'. put k v c = Some c' \<and> rel c' (lru_insert cap k v xs)"
    and get_rel: "rel c xs \<Longrightarrow> ok k \<Longrightarrow>
      \<exists>c'. get k c = Some (map_of xs k, c') \<and> rel c' (lru_touch k xs)"
begin

lemma run_rel:
  assumes "rel c xs" "\<forall>op \<in> set ops. ok (op_key op)"
  shows "\<exists>c'. run_ops put get ops c = Some c' \<and> rel c' (lru_run cap ops xs)"
  using assms
proof (induction ops arbitrary: c xs)
  case Nil
  then show ?case by simp
next
  case (Cons op ops)
  show ?case
  proof (cases op)
    case (Put k v)
    with Cons.prems put_rel [of c xs k v] obtain c' where
      "put k v c = Some c'" "rel c' (lru_insert cap k v xs)" by auto
    with Cons.IH [OF this(2)] Cons.prems(2) Put show ?thesis by simp
  next
    case (Get k)
    with Cons.prems get_rel [of c xs k] obtain c' where
      "get k c = Some (map_of xs k, c')" "rel c' (lru_touch k xs)" by auto
    with Cons.IH [OF this(2)] Cons.prems(2) Get show ?thesis by simp
  qed
qed

text \<open>An entry survives operations on fewer than \<open>cap\<close> other ids.\<close>

lemma put_then_get:
  assumes "rel c xs" "ok k" "\<forall>op \<in> set ops. ok (op_key op)" "k \<notin> op_key ` set ops"
    "card (op_key ` set ops) < cap"
  shows "\<exists>c' c''. run_ops put get (Put k v # ops) c = Some c' \<and> get k c' = Some (Some v, c'')"
proof -
  let ?S = "op_key ` set ops"
  let ?xs = "lru_run cap ops (lru_insert cap k v xs)"
  obtain c' where c': "run_ops put get (Put k v # ops) c = Some c'" "rel c' ?xs"
    using run_rel [OF assms(1), of "Put k v # ops"] assms(2,3) by auto
  have "recent k v ?S (lru_insert cap k v xs)"
    using rel_distinct [OF assms(1)] assms(5) recent_put [of xs cap k v] recent_mono [of k v "{}"]
    by auto
  then have "recent k v ?S ?xs" using assms(4,5) by (intro recent_run) auto
  then have "map_of ?xs k = Some v" by (rule recent_map_of)
  with get_rel [OF c'(2) assms(2)] c'(1) show ?thesis by auto
qed

end

definition ordinary_id :: "ident \<Rightarrow> bool" where
  "ordinary_id k \<longleftrightarrow> k \<notin> set Object_prototype_names"

definition cache_rel :: "nat \<Rightarrow> 'v lru \<Rightarrow> 'v entries \<Rightarrow> bool" where
  "cache_rel cap c xs \<longleftrightarrow> lru_rel c xs \<and> max_size c = int cap"

lemma lru_rel_distinct: "lru_rel c xs \<Longrightarrow> distinct (map fst xs)"
  by (auto simp: lru_rel_def lru_nodes_def)

interpretation cache: recency_cache "cache_rel cap" ordinary_id cap LRUCache_put LRUCache_get for cap
proof unfold_locales
  fix c :: "'a lru" and xs k v
  show "cache_rel cap c xs \<Longrightarrow> distinct (map fst xs)"
    by (auto simp: cache_rel_def intro: lru_rel_distinct)
  show "cache_rel cap c xs \<Longrightarrow> ordinary_id k \<Longrightarrow>
      \<exists>c'. LRUCache_put k v c = Some c' \<and> cache_rel cap c' (lru_insert cap k v xs)"
    using LRUCache_put_rel [of c xs k v] by (auto simp: cache_rel_def ordinary_id_def)
  show "cache_rel cap c xs \<Longrightarrow> ordinary_id k \<Longrightarrow>
      \<exists>c'. LRUCache_get k c = Some (map_of xs k, c') \<and> cache_rel cap c' (lru_touch k xs)"
    using LRUCache_get_rel [of c xs k] by (auto simp: cache_rel_def ordinary_id_def)
qed

lemma cache_rel_new: "cache_rel cap (LRUCache_new (int cap)) []"
  by (simp add: cache_rel_def LRUCache_new_rel) (simp add: LRUCache_new_def)

lemma LRUCache_put_negative:
  fixes v :: 'v
  assumes "m < 0"
  shows "LRUCache_put k v (LRUCache_new m) = None"
proof (cases "k \<in> set Object_prototype_names")
  case True
  then show ?thesis by (rule LRUCache_inherited(2) [OF LRUCache_new_rel])
next
  case False
  let ?c = "LRUCache_new m :: 'v lru"
  obtain as where c: "lru_nodes ?c as []"
    using LRUCache_new_rel lru_rel_def by blast
  have "k \<notin> fst ` set ([] :: 'v entries)" by simp
  then obtain iter l where l: "List_push_front (k, v) (clist ?c) = Some (iter, l)"
      "lru_nodes (?c\<lparr>clist := l, csize := csize ?c + 1, lookup := (lookup ?c)(k \<mapsto> iter)\<rparr>)
         (iter # as) [(k, v)]"
    using False by (rule lru_nodes_push [OF c])
  from enforceOverflow_negative [OF l(2)] l(1) False assms show ?thesis
    by (simp add: LRUCache_put_def LRUCache_new_def get_prop_def)
qed

section \<open>Properties\<close>

text \<open>C1. A cache that starts empty behaves as the abstract most-recently-used list: after any
  sequence of \<open>put\<close> and \<open>get\<close> calls, \<open>get\<close> of any id returns the value that the abstract list
  holds for it, or \<open>null\<close> when the list does not hold it.\<close>

theorem lru_cache_refines:
  assumes "\<forall>op \<in> set ops. ordinary_id (op_key op)" "ordinary_id k"
  shows "\<exists>c c'. run_ops LRUCache_put LRUCache_get ops (LRUCache_new (int cap)) = Some c \<and>
           LRUCache_get k c = Some (map_of (lru_run cap ops []) k, c')"
proof -
  obtain c where c: "run_ops LRUCache_put LRUCache_get ops (LRUCache_new (int cap)) = Some c"
      "cache_rel cap c (lru_run cap ops [])"
    using cache.run_rel [OF cache_rel_new assms(1), of cap] by blast
  with cache.get_rel [OF c(2) assms(2)] show ?thesis by blast
qed

lemma lru_cache_refines_witness:
  "\<exists>c c'. run_ops LRUCache_put LRUCache_get
       [Put ''a'' (1 :: nat), Put ''b'' 2, Get ''a'', Put ''c'' 3] (LRUCache_new (int 2)) = Some c \<and>
     LRUCache_get ''b'' c = Some (None, c')"
  using lru_cache_refines
    [of "[Put ''a'' (1 :: nat), Put ''b'' 2, Get ''a'', Put ''c'' 3]" "''b''" 2]
  by (simp add: ordinary_id_def Object_prototype_names_def lru_insert_def lru_touch_def)

text \<open>An entry stays in the cache while fewer than \<open>max_size\<close> other ids are used: \<open>put(k, v)\<close>
  followed by any calls on such ids, then \<open>get(k)\<close>, returns \<open>v\<close>, whatever the cache held before.\<close>

theorem lru_put_then_get:
  assumes "cache_rel cap c xs" "ordinary_id k" "\<forall>op \<in> set ops. ordinary_id (op_key op)"
    "k \<notin> op_key ` set ops" "card (op_key ` set ops) < cap"
  shows "\<exists>c' c''. run_ops LRUCache_put LRUCache_get (Put k v # ops) c = Some c' \<and>
           LRUCache_get k c' = Some (Some v, c'')"
  using assms by (rule cache.put_then_get)

lemma lru_put_then_get_witness:
  "\<exists>c' c''. run_ops LRUCache_put LRUCache_get
       (Put ''a'' (7 :: nat) # [Put ''b'' 1, Get ''b'', Put ''b'' 2]) (LRUCache_new (int 2)) = Some c' \<and>
     LRUCache_get ''a'' c' = Some (Some 7, c'')"
  by (rule lru_put_then_get [OF cache_rel_new])
    (simp_all add: ordinary_id_def Object_prototype_names_def)

text \<open>The size bound: after any sequence of calls on a new cache, \<open>size\<close> is the number of ids in
  \<open>lookup\<close> and at most \<open>max_size\<close>, and the list object is well formed with exactly that many
  nodes.\<close>

theorem lru_size_bound:
  assumes "\<forall>op \<in> set ops. ordinary_id (op_key op)"
  shows "\<exists>c as. run_ops LRUCache_put LRUCache_get ops (LRUCache_new (int cap)) = Some c \<and>
           csize c = int (card (dom (lookup c))) \<and> csize c \<le> max_size c \<and>
           max_size c = int cap \<and> dll (clist c) as \<and> csize c = int (length as)"
proof -
  obtain c where c: "run_ops LRUCache_put LRUCache_get ops (LRUCache_new (int cap)) = Some c"
      "cache_rel cap c (lru_run cap ops [])"
    using cache.run_rel [OF cache_rel_new assms, of cap] by blast
  then obtain as where n: "lru_nodes c as (lru_run cap ops [])" and m: "max_size c = int cap"
    by (auto simp: cache_rel_def lru_rel_def)
  note D = lru_nodesD [OF n]
  have "dom (lookup c) = fst ` set (lru_run cap ops [])"
    using D(3) by (simp add: D(5) dom_map_of_zip)
  then have "card (dom (lookup c)) = length (lru_run cap ops [])"
    using D(4) by (metis distinct_card length_map set_map)
  moreover have "length (lru_run cap ops []) \<le> cap" by (rule lru_run_bounded) simp_all
  ultimately show ?thesis using c(1) D(1,3,6) m by fastforce
qed

lemma lru_size_bound_witness:
  "\<exists>c as. run_ops LRUCache_put LRUCache_get [Put ''a'' (1 :: nat), Put ''b'' 2]
       (LRUCache_new (int 1)) = Some c \<and>
     csize c = int (card (dom (lookup c))) \<and> csize c \<le> max_size c \<and>
     max_size c = int 1 \<and> dll (clist c) as \<and> csize c = int (length as)"
  by (rule lru_size_bound) (simp add: ordinary_id_def Object_prototype_names_def)

text \<open>Where the cache fails: an id that names a property of \<open>Object.prototype\<close> makes both \<open>put\<close>
  and \<open>get\<close> throw on every cache, and on a new cache with a negative capacity the first \<open>put\<close> of any
  id throws, since \<open>_enforceOverflow\<close> pops from the empty list.\<close>

theorem lru_cache_errors:
  assumes "cache_rel cap c xs" "k \<in> set Object_prototype_names"
  shows "LRUCache_get k c = None \<and> LRUCache_put k v c = None \<and>
           LRUCache_put j w (LRUCache_new (- 1 - int n)) = None"
proof -
  have "lru_rel c xs" using assms(1) by (simp add: cache_rel_def)
  then show ?thesis using LRUCache_inherited [OF _ assms(2)] LRUCache_put_negative [of "- 1 - int n" j w] by auto
qed

lemma lru_cache_errors_witness:
  "LRUCache_get ''constructor'' (LRUCache_new (int 5) :: nat lru) = None \<and>
   LRUCache_put ''constructor'' 1 (LRUCache_new (int 5) :: nat lru) = None \<and>
   LRUCache_put ''r0'' (1 :: nat) (LRUCache_new (- 1 - int 0)) = None"
  by (rule lru_cache_errors [OF cache_rel_new]) (simp add: Object_prototype_names_def)

end
