(* ===== verification/JsNumber.thy ===== *)
theory JsNumber
  imports Prelude
begin

text \<open>
  The numbers of the program. A JavaScript number is a finite value, one of the two infinities
  or NaN; the operators follow IEEE 754 on the special values (so division by zero, NaN
  comparisons and overflowing array stores are values of the model) and are exact on finite
  values: the rounding of a double operation and the sign of a zero are not modelled.
  What is modelled exactly is the conversion to single precision that an assignment to an
  element of a \<open>Float32Array\<close> performs (\<open>f32\<close>): round to nearest, ties to even, with subnormal
  numbers and overflow to an infinity.

  The locale \<open>float_store\<close> is the contract of that conversion for any array type the vector
  library can be configured with; \<open>f32\<close> (\<open>Float32Array\<close>) and \<open>f64\<close> (\<open>Float64Array\<close> and
  \<open>Array\<close>) are its two interpretations.
\<close>

section \<open>Values and operators\<close>

datatype jsnum = Fin real | PInf | NInf | NaN

text \<open>The infinity with the sign of a real number; NaN for zero (\<open>0 * Infinity\<close>, \<open>0 / 0\<close>).\<close>

definition inf_of :: "real \<Rightarrow> jsnum" where
  "inf_of s = (if s > 0 then PInf else if s < 0 then NInf else NaN)"

instantiation jsnum :: "{plus, minus, uminus, times, inverse, zero, one, ord}"
begin

definition zero_jsnum :: jsnum where "zero_jsnum = Fin 0"

definition one_jsnum :: jsnum where "one_jsnum = Fin 1"

fun plus_jsnum :: "jsnum \<Rightarrow> jsnum \<Rightarrow> jsnum" where
  "plus_jsnum (Fin a) (Fin b) = Fin (a + b)"
| "plus_jsnum NaN _ = NaN"
| "plus_jsnum _ NaN = NaN"
| "plus_jsnum PInf NInf = NaN"
| "plus_jsnum NInf PInf = NaN"
| "plus_jsnum PInf _ = PInf"
| "plus_jsnum _ PInf = PInf"
| "plus_jsnum NInf _ = NInf"
| "plus_jsnum _ NInf = NInf"

fun uminus_jsnum :: "jsnum \<Rightarrow> jsnum" where
  "uminus_jsnum (Fin a) = Fin (- a)"
| "uminus_jsnum PInf = NInf"
| "uminus_jsnum NInf = PInf"
| "uminus_jsnum NaN = NaN"

definition minus_jsnum :: "jsnum \<Rightarrow> jsnum \<Rightarrow> jsnum" where
  "minus_jsnum a b = a + (- b)"

fun times_jsnum :: "jsnum \<Rightarrow> jsnum \<Rightarrow> jsnum" where
  "times_jsnum (Fin a) (Fin b) = Fin (a * b)"
| "times_jsnum NaN _ = NaN"
| "times_jsnum _ NaN = NaN"
| "times_jsnum (Fin a) PInf = inf_of a"
| "times_jsnum PInf (Fin a) = inf_of a"
| "times_jsnum (Fin a) NInf = inf_of (- a)"
| "times_jsnum NInf (Fin a) = inf_of (- a)"
| "times_jsnum PInf PInf = PInf"
| "times_jsnum NInf NInf = PInf"
| "times_jsnum PInf NInf = NInf"
| "times_jsnum NInf PInf = NInf"

fun divide_jsnum :: "jsnum \<Rightarrow> jsnum \<Rightarrow> jsnum" where
  "divide_jsnum (Fin a) (Fin b) = (if b = 0 then inf_of a else Fin (a / b))"
| "divide_jsnum NaN _ = NaN"
| "divide_jsnum _ NaN = NaN"
| "divide_jsnum (Fin a) _ = Fin 0"
| "divide_jsnum PInf (Fin b) = (if b < 0 then NInf else PInf)"
| "divide_jsnum NInf (Fin b) = (if b < 0 then PInf else NInf)"
| "divide_jsnum _ _ = NaN"

definition inverse_jsnum :: "jsnum \<Rightarrow> jsnum" where
  "inverse_jsnum a = Fin 1 div a"

fun less_jsnum :: "jsnum \<Rightarrow> jsnum \<Rightarrow> bool" where
  "less_jsnum (Fin a) (Fin b) = (a < b)"
| "less_jsnum (Fin _) PInf = True"
| "less_jsnum NInf (Fin _) = True"
| "less_jsnum NInf PInf = True"
| "less_jsnum _ _ = False"

fun less_eq_jsnum :: "jsnum \<Rightarrow> jsnum \<Rightarrow> bool" where
  "less_eq_jsnum (Fin a) (Fin b) = (a \<le> b)"
| "less_eq_jsnum (Fin _) PInf = True"
| "less_eq_jsnum NInf (Fin _) = True"
| "less_eq_jsnum NInf PInf = True"
| "less_eq_jsnum PInf PInf = True"
| "less_eq_jsnum NInf NInf = True"
| "less_eq_jsnum _ _ = False"

instance ..

end

lemma inf_of_NaN_iff [simp]: "inf_of a = NaN \<longleftrightarrow> a = 0"
  by (simp add: inf_of_def)

lemma inf_of_not_Fin [simp]: "inf_of a \<noteq> Fin b" "Fin b \<noteq> inf_of a"
  by (simp_all add: inf_of_def)

text \<open>
  Addition and multiplication are commutative monoids even with the special values, so numerals
  and the library's rules for sums and products apply. They are not a ring: \<open>Infinity - Infinity\<close>
  is NaN.
\<close>

lemma jsnum_times_commute: "x * y = y * (x :: jsnum)"
  by (cases x; cases y) (simp_all add: mult.commute)

lemma jsnum_times_assoc: "x * y * z = x * (y * (z :: jsnum))"
  by (cases x; cases y; cases z) (auto simp: inf_of_def zero_less_mult_iff mult_less_0_iff)

lemma jsnum_plus_commute: "x + y = y + (x :: jsnum)"
  by (cases x; cases y) simp_all

lemma jsnum_plus_assoc: "x + y + z = x + (y + (z :: jsnum))"
  by (cases x; cases y; cases z) simp_all

lemma jsnum_units: "0 + x = (x :: jsnum)" "1 * x = (x :: jsnum)"
  by (cases x; simp add: zero_jsnum_def one_jsnum_def inf_of_def)+

instance jsnum :: comm_monoid_add
  by standard (rule jsnum_plus_assoc jsnum_plus_commute jsnum_units)+

instance jsnum :: comm_monoid_mult
  by standard (rule jsnum_times_assoc jsnum_times_commute jsnum_units)+

instance jsnum :: numeral ..

text \<open>Literals are finite numbers, and finite arithmetic is real arithmetic.\<close>

lemma zero_Fin [js_arith, simp]: "(0 :: jsnum) = Fin 0"
  by (rule zero_jsnum_def)

lemma one_Fin [js_arith, simp]: "(1 :: jsnum) = Fin 1"
  by (rule one_jsnum_def)

lemma numeral_Fin [js_arith, simp]: "(numeral n :: jsnum) = Fin (numeral n)"
proof (induction n)
  case One
  show ?case by simp
next
  case (Bit0 n)
  then show ?case by (simp only: numeral.simps plus_jsnum.simps)
next
  case (Bit1 n)
  then show ?case by (simp only: numeral.simps plus_jsnum.simps one_jsnum_def)
qed

lemma minus_Fin [js_arith, simp]: "Fin a - Fin b = Fin (a - b)"
  by (simp add: minus_jsnum_def)

lemma minus_special [js_arith, simp]:
  "NaN - x = NaN" "x - NaN = NaN" "Fin a - PInf = NInf" "Fin a - NInf = PInf"
  "PInf - Fin a = PInf" "NInf - Fin a = NInf" "PInf - PInf = NaN" "NInf - NInf = NaN"
  "PInf - NInf = PInf" "NInf - PInf = NInf"
  by (cases x; simp add: minus_jsnum_def)+

lemma NaN_right [js_arith, simp]:
  fixes x :: jsnum
  shows "x + NaN = NaN" "x * NaN = NaN" "x / NaN = NaN" "\<not> x < NaN" "\<not> x \<le> NaN"
  by (cases x; simp)+

lemma divide_Fin_nonzero [js_arith]: "b \<noteq> 0 \<Longrightarrow> Fin a / Fin b = Fin (a / b)"
  by simp

lemma divide_Fin_numeral [js_arith, simp]:
  "Fin a / Fin (numeral n) = Fin (a / numeral n)" "Fin a / Fin 1 = Fin a"
  by simp_all

text \<open>JavaScript's \<open>==\<close> on numbers: NaN equals nothing.\<close>

definition js_eq :: "jsnum \<Rightarrow> jsnum \<Rightarrow> bool" where
  "js_eq a b \<longleftrightarrow> a = b \<and> a \<noteq> NaN"

lemma js_eq_Fin [js_arith, simp]: "js_eq (Fin a) (Fin b) \<longleftrightarrow> a = b"
  by (simp add: js_eq_def)

lemma js_eq_NaN [js_arith, simp]: "\<not> js_eq NaN a" "\<not> js_eq a NaN"
  by (auto simp: js_eq_def)

text \<open>A number as a condition: zero and NaN are false.\<close>

definition truthy :: "jsnum \<Rightarrow> bool" where
  "truthy a \<longleftrightarrow> a \<noteq> Fin 0 \<and> a \<noteq> NaN"

lemma truthy_simps [js_arith, simp]:
  "truthy (Fin a) \<longleftrightarrow> a \<noteq> 0" "truthy PInf" "truthy NInf" "\<not> truthy NaN"
  by (simp_all add: truthy_def)

text \<open>\<open>Number.MAX_VALUE\<close>, the largest double.\<close>

definition Number_MAX_VALUE :: jsnum where
  "Number_MAX_VALUE = Fin ((2 - 2 powi (-52)) * 2 ^ 1023)"

section \<open>The Math object\<close>

fun Math_sqrt :: "jsnum \<Rightarrow> jsnum" where
  "Math_sqrt (Fin a) = (if a < 0 then NaN else Fin (sqrt a))"
| "Math_sqrt PInf = PInf"
| "Math_sqrt _ = NaN"

fun Math_abs :: "jsnum \<Rightarrow> jsnum" where
  "Math_abs (Fin a) = Fin \<bar>a\<bar>"
| "Math_abs NaN = NaN"
| "Math_abs _ = PInf"

definition Math_max :: "jsnum \<Rightarrow> jsnum \<Rightarrow> jsnum" where
  "Math_max a b = (if a = NaN \<or> b = NaN then NaN else if a < b then b else a)"

definition Math_min :: "jsnum \<Rightarrow> jsnum \<Rightarrow> jsnum" where
  "Math_min a b = (if a = NaN \<or> b = NaN then NaN else if b < a then b else a)"

fun Math_cos :: "jsnum \<Rightarrow> jsnum" where
  "Math_cos (Fin a) = Fin (cos a)"
| "Math_cos _ = NaN"

fun Math_sin :: "jsnum \<Rightarrow> jsnum" where
  "Math_sin (Fin a) = Fin (sin a)"
| "Math_sin _ = NaN"

fun Math_tan :: "jsnum \<Rightarrow> jsnum" where
  "Math_tan (Fin a) = Fin (tan a)"
| "Math_tan _ = NaN"

text \<open>\<open>Math.acos\<close> is NaN outside \<open>[-1, 1]\<close>.\<close>

fun Math_acos :: "jsnum \<Rightarrow> jsnum" where
  "Math_acos (Fin a) = (if -1 \<le> a \<and> a \<le> 1 then Fin (arccos a) else NaN)"
| "Math_acos _ = NaN"

definition Math_PI :: jsnum where
  "Math_PI = Fin pi"

lemma Math_max_Fin [js_arith, simp]: "Math_max (Fin a) (Fin b) = Fin (max a b)"
  by (simp add: Math_max_def max_def)

lemma Math_min_Fin [js_arith, simp]: "Math_min (Fin a) (Fin b) = Fin (min a b)"
  by (simp add: Math_min_def min_def)

lemma Math_max_min_NaN [js_arith, simp]:
  "Math_max NaN a = NaN" "Math_max a NaN = NaN" "Math_min NaN a = NaN" "Math_min a NaN = NaN"
  by (simp_all add: Math_max_def Math_min_def)

lemma Math_PI_pos: "Fin 0 < Math_PI"
  by (simp add: Math_PI_def)

text \<open>Reading an element of an array: past the end it is \<open>undefined\<close>, which arithmetic reads as NaN.\<close>

definition idx :: "jsnum list \<Rightarrow> nat \<Rightarrow> jsnum" where
  "idx xs i = (if i < length xs then xs ! i else NaN)"

lemma idx_Nil [simp]: "idx [] i = NaN"
  by (simp add: idx_def)

lemma idx_Cons_0 [simp]: "idx (x # xs) 0 = x"
  by (simp add: idx_def)

lemma idx_Cons_Suc [simp]: "idx (x # xs) (Suc i) = idx xs i"
  by (simp add: idx_def)

lemma idx_Cons_numeral [simp]: "idx (x # xs) (numeral n) = idx xs (pred_numeral n)"
  by (simp add: idx_def numeral_eq_Suc)

lemma idx_Cons_1 [simp]: "idx (x # xs) 1 = idx xs 0"
  by (simp add: idx_def)

lemma idx_map: "i < length xs \<Longrightarrow> idx (map f xs) i = f (idx xs i)"
  by (simp add: idx_def)

end
