(* ===== verification/FloatStore.thy ===== *)
theory FloatStore
  imports JsNumber
begin

text \<open>
  What an assignment to an element of a typed array keeps of a number. \<open>f32\<close> is the conversion
  of \<open>Float32Array\<close>: the nearest single-precision value, ties to the even significand, subnormal
  numbers below \<open>2 ^ -126\<close> and an infinity from \<open>2 ^ 128 - 2 ^ 103\<close> on. The vector library
  (\<open>js/mjs.js\<close>) names its array type once (\<open>MJS_FLOAT_ARRAY_TYPE\<close>) and works with any; the locale
  \<open>float_store\<close> states what its users rely on, and the two interpretations show it of single
  precision and of the unrounded array types.
\<close>

section \<open>Rounding to single precision\<close>

definition round_half_even :: "real \<Rightarrow> int" where
  "round_half_even x =
     (let n = \<lfloor>x\<rfloor>; d = x - of_int n
      in if d < 1 / 2 then n else if d > 1 / 2 then n + 1 else if even n then n else n + 1)"

text \<open>
  The exponent of the unit in the last place of a single with 24 significant bits: the least
  exponent from that of the subnormal numbers on at which the number fits. There is none from
  \<open>2 ^ 128\<close> on.
\<close>

definition f32_exponents :: "int list" where
  "f32_exponents = [-149..104]"

definition f32_exponent :: "real \<Rightarrow> int option" where
  "f32_exponent x = find (\<lambda>e. \<bar>x\<bar> < 2 powi (e + 24)) f32_exponents"

definition f32_real :: "real \<Rightarrow> jsnum" where
  "f32_real x =
     (case f32_exponent x of
        None \<Rightarrow> inf_of x
      | Some e \<Rightarrow> (let r = of_int (round_half_even (x / 2 powi e)) * 2 powi e
                  in if 2 ^ 128 \<le> \<bar>r\<bar> then inf_of x else Fin r))"

fun f32 :: "jsnum \<Rightarrow> jsnum" where
  "f32 (Fin x) = f32_real x"
| "f32 PInf = PInf"
| "f32 NInf = NInf"
| "f32 NaN = NaN"

definition f64 :: "jsnum \<Rightarrow> jsnum" where
  "f64 x = x"

subsection \<open>Rounding to an integer\<close>

lemma round_half_even_of_int [simp]: "round_half_even (of_int n) = n"
  by (simp add: round_half_even_def)

lemma round_half_even_cases: "round_half_even x = \<lfloor>x\<rfloor> \<or> round_half_even x = \<lfloor>x\<rfloor> + 1"
  by (simp add: round_half_even_def Let_def)

lemma round_half_even_mono: "x \<le> y \<Longrightarrow> round_half_even x \<le> round_half_even y"
proof -
  assume le: "x \<le> y"
  then have fl: "\<lfloor>x\<rfloor> \<le> \<lfloor>y\<rfloor>" by (rule floor_mono)
  show ?thesis
  proof (cases "\<lfloor>x\<rfloor> = \<lfloor>y\<rfloor>")
    case True
    with le show ?thesis by (auto simp: round_half_even_def Let_def)
  next
    case False
    with fl have "\<lfloor>x\<rfloor> + 1 \<le> \<lfloor>y\<rfloor>" by simp
    with round_half_even_cases [of x] round_half_even_cases [of y] show ?thesis by linarith
  qed
qed

lemma round_half_even_minus: "round_half_even (- x) = - round_half_even x"
proof (cases "x = of_int \<lfloor>x\<rfloor>")
  case True
  then obtain n :: int where "x = of_int n" by blast
  then show ?thesis
    by (metis of_int_minus round_half_even_of_int)
next
  case False
  have "of_int \<lfloor>x\<rfloor> < x" using False of_int_floor_le [of x] by linarith
  then have fl: "\<lfloor>- x\<rfloor> = - \<lfloor>x\<rfloor> - 1"
    by (intro floor_unique) (simp_all, linarith)
  show ?thesis
    by (auto simp: round_half_even_def Let_def fl)
qed

subsection \<open>The exponent\<close>

lemma set_f32_exponents: "set f32_exponents = {-149..104}"
  by (simp only: f32_exponents_def set_upto)

lemma nth_f32_exponents: "i < length f32_exponents \<Longrightarrow> f32_exponents ! i = -149 + int i"
  by (simp only: f32_exponents_def nth_upto length_upto)

lemma length_f32_exponents: "length f32_exponents = 254"
  by (simp only: f32_exponents_def length_upto)

lemma f32_exponent_Some_iff:
  "f32_exponent x = Some e \<longleftrightarrow>
     e \<in> {-149..104} \<and> \<bar>x\<bar> < 2 powi (e + 24) \<and> (\<forall>d \<in> {-149..<e}. 2 powi (d + 24) \<le> \<bar>x\<bar>)"
  (is "_ \<longleftrightarrow> ?r")
proof
  assume "f32_exponent x = Some e"
  then obtain i where i: "i < length f32_exponents" "\<bar>x\<bar> < 2 powi (f32_exponents ! i + 24)"
      "e = f32_exponents ! i" "\<forall>j<i. \<not> \<bar>x\<bar> < 2 powi (f32_exponents ! j + 24)"
    by (auto simp: f32_exponent_def find_Some_iff)
  then have e: "e = -149 + int i" "e \<in> {-149..104}"
    using nth_mem [OF i(1)] by (auto simp: nth_f32_exponents set_f32_exponents)
  have "2 powi (d + 24) \<le> \<bar>x\<bar>" if "d \<in> {-149..<e}" for d
  proof -
    have lt: "nat (d + 149) < i" using that e by auto
    then have "f32_exponents ! nat (d + 149) = d"
      using that i(1) nth_f32_exponents [of "nat (d + 149)"] by auto
    with i(4) lt show ?thesis by fastforce
  qed
  with i e show ?r by auto
next
  assume r: ?r
  let ?i = "nat (e + 149)"
  have "?i < length f32_exponents" using r by (auto simp: length_f32_exponents)
  moreover from this have "f32_exponents ! ?i = e" using r by (simp add: nth_f32_exponents)
  moreover have "\<forall>j<?i. \<not> \<bar>x\<bar> < 2 powi (f32_exponents ! j + 24)"
  proof (intro allI impI)
    fix j assume j: "j < ?i"
    with \<open>?i < length f32_exponents\<close> have "f32_exponents ! j = -149 + int j"
      by (simp add: nth_f32_exponents)
    moreover have "-149 + int j \<in> {-149..<e}" using j by auto
    ultimately have "2 powi (f32_exponents ! j + 24) \<le> \<bar>x\<bar>" using r by metis
    then show "\<not> \<bar>x\<bar> < 2 powi (f32_exponents ! j + 24)" by simp
  qed
  ultimately show "f32_exponent x = Some e"
    using r unfolding f32_exponent_def find_Some_iff by metis
qed

lemma f32_exponent_SomeD:
  assumes "f32_exponent x = Some e"
  shows "-149 \<le> e" and "e \<le> 104" and "\<bar>x\<bar> < 2 powi (e + 24)"
    and "-149 < e \<Longrightarrow> 2 powi (e + 23) \<le> \<bar>x\<bar>"
proof -
  note A = assms [unfolded f32_exponent_Some_iff]
  from A show "-149 \<le> e" "e \<le> 104" "\<bar>x\<bar> < 2 powi (e + 24)" by auto
  assume "-149 < e"
  then have "e - 1 \<in> {-149..<e}" by auto
  with A have "2 powi (e - 1 + 24) \<le> \<bar>x\<bar>" by blast
  moreover have "e - 1 + 24 = e + 23" by simp
  ultimately show "2 powi (e + 23) \<le> \<bar>x\<bar>" by simp
qed

lemma f32_exponent_None_iff: "f32_exponent x = None \<longleftrightarrow> 2 ^ 128 \<le> \<bar>x\<bar>"
proof -
  have "f32_exponent x = None \<longleftrightarrow> (\<forall>e \<in> {-149..104}. 2 powi (e + 24) \<le> \<bar>x\<bar>)"
    by (auto simp: f32_exponent_def find_None_iff set_f32_exponents not_less)
  also have "\<dots> \<longleftrightarrow> 2 powi (104 + 24) \<le> \<bar>x\<bar>"
  proof (intro iffI ballI)
    fix e :: int
    assume "2 powi (104 + 24) \<le> \<bar>x\<bar>" and "e \<in> {-149..104}"
    then show "2 powi (e + 24) \<le> \<bar>x\<bar>"
      using power_int_increasing [of "e + 24" "104 + 24" "2::real"] by simp
  next
    assume "\<forall>e \<in> {-149..104}. 2 powi (e + 24) \<le> \<bar>x\<bar>"
    then show "2 powi (104 + 24) \<le> \<bar>x\<bar>" by (rule bspec) simp
  qed
  finally show ?thesis by simp
qed

lemma f32_exponent_eqI:
  assumes "-149 \<le> e" "e \<le> 104" "\<bar>x\<bar> < 2 powi (e + 24)" "e = -149 \<or> 2 powi (e + 23) \<le> \<bar>x\<bar>"
  shows "f32_exponent x = Some e"
proof -
  have "\<bar>x\<bar> < 2 powi 128"
    using assms(2,3) power_int_increasing [of "e + 24" 128 "2::real"] by simp
  then obtain d where d: "f32_exponent x = Some d"
    using f32_exponent_None_iff [of x] by fastforce
  note D = f32_exponent_SomeD [OF d]
  have "d = e"
  proof (rule ccontr)
    assume "d \<noteq> e"
    then consider "d < e" | "e < d" by linarith
    then show False
    proof cases
      case 1
      then have "(2::real) powi (d + 24) \<le> 2 powi (e + 23)"
        by (intro power_int_increasing) auto
      with D(1,3) 1 assms(4) show False by auto
    next
      case 2
      then have "(2::real) powi (e + 24) \<le> 2 powi (d + 23)"
        by (intro power_int_increasing) auto
      with D(4) 2 assms(1,3) show False by auto
    qed
  qed
  with d show ?thesis by simp
qed

lemma f32_exponent_minus [simp]: "f32_exponent (- x) = f32_exponent x"
  by (simp add: f32_exponent_def)

lemma f32_exponent_mono:
  assumes "f32_exponent x = Some d" "f32_exponent y = Some e" "\<bar>x\<bar> \<le> \<bar>y\<bar>"
  shows "d \<le> e"
proof (rule ccontr)
  assume "\<not> d \<le> e"
  then have "(2::real) powi (e + 24) \<le> 2 powi (d + 23)"
    by (intro power_int_increasing) auto
  moreover have "-149 < d" using \<open>\<not> d \<le> e\<close> f32_exponent_SomeD(1) [OF assms(2)] by simp
  ultimately show False
    using f32_exponent_SomeD(4) [OF assms(1)] f32_exponent_SomeD(3) [OF assms(2)] assms(3) by simp
qed

subsection \<open>Rounding is odd, monotone and idempotent\<close>

text \<open>The multiple of the unit in the last place that a finite result is.\<close>

definition f32_sig :: "real \<Rightarrow> int \<Rightarrow> int" where
  "f32_sig x e = round_half_even (x / 2 powi e)"

lemma f32_real_unfold:
  "f32_exponent x = Some e \<Longrightarrow>
   f32_real x = (if 2 ^ 128 \<le> \<bar>of_int (f32_sig x e) * 2 powi e :: real\<bar> then inf_of x
                 else Fin (of_int (f32_sig x e) * 2 powi e))"
  by (simp add: f32_real_def f32_sig_def Let_def)

lemma f32_sig_minus [simp]: "f32_sig (- x) e = - f32_sig x e"
  by (simp add: f32_sig_def round_half_even_minus)

lemma f32_sig_mono: "x \<le> y \<Longrightarrow> f32_sig x e \<le> f32_sig y e"
  unfolding f32_sig_def by (intro round_half_even_mono divide_right_mono) auto

lemma f32_sig_nonneg: "0 \<le> x \<Longrightarrow> 0 \<le> f32_sig x e"
  using f32_sig_mono [of 0 x e] by (simp add: f32_sig_def round_half_even_def)

lemma f32_sig_multiple: "f32_sig (of_int n * 2 powi e) e = n"
  by (simp add: f32_sig_def)

lemma powi_24_split: "(2::real) powi (e + 24) = of_int (2 ^ 24) * 2 powi e"
  by (simp add: power_int_add)

lemma powi_23_split: "(2::real) powi (e + 23) = of_int (2 ^ 23) * 2 powi e"
  by (simp add: power_int_add)

lemma f32_sig_le: "x \<le> 2 powi (e + 24) \<Longrightarrow> f32_sig x e \<le> 2 ^ 24"
  using f32_sig_mono [of x "2 powi (e + 24)" e] by (simp only: powi_24_split f32_sig_multiple)

lemma f32_sig_ge: "2 powi (e + 23) \<le> x \<Longrightarrow> 2 ^ 23 \<le> f32_sig x e"
  using f32_sig_mono [of "2 powi (e + 23)" x e] by (simp only: powi_23_split f32_sig_multiple)

text \<open>The rounded value, before the overflow test.\<close>

definition f32_value :: "real \<Rightarrow> int \<Rightarrow> real" where
  "f32_value x e = of_int (f32_sig x e) * 2 powi e"

lemma f32_value_minus [simp]: "f32_value (- x) e = - f32_value x e"
  by (simp add: f32_value_def)

lemma f32_value_nonneg: "0 \<le> x \<Longrightarrow> 0 \<le> f32_value x e"
  by (simp add: f32_value_def f32_sig_nonneg)

lemma f32_value_mono:
  assumes "f32_exponent x = Some d" "f32_exponent y = Some e" "0 \<le> x" "x \<le> y"
  shows "f32_value x d \<le> f32_value y e"
proof (cases "d = e")
  case True
  with assms(4) show ?thesis by (simp add: f32_value_def f32_sig_mono)
next
  case False
  with f32_exponent_mono [OF assms(1,2)] assms(3,4) have "d < e" by simp
  with f32_exponent_SomeD(1) [OF assms(1)] have "-149 < e" by simp
  from f32_exponent_SomeD(3) [OF assms(1)] assms(3) have "f32_sig x d \<le> 2 ^ 24"
    by (intro f32_sig_le) simp
  then have "f32_value x d \<le> of_int (2 ^ 24) * 2 powi d"
    unfolding f32_value_def by (intro mult_right_mono) (simp_all only: of_int_le_iff, simp)
  also have "\<dots> = 2 powi (d + 24)" by (rule powi_24_split [symmetric])
  also have "\<dots> \<le> 2 powi (e + 23)" using \<open>d < e\<close> by (intro power_int_increasing) auto
  also have "\<dots> = of_int (2 ^ 23) * 2 powi e" by (rule powi_23_split)
  also have "\<dots> \<le> f32_value y e"
  proof -
    have "2 powi (e + 23) \<le> y"
      using f32_exponent_SomeD(4) [OF assms(2) \<open>-149 < e\<close>] assms(3,4) by simp
    then have "2 ^ 23 \<le> f32_sig y e" by (rule f32_sig_ge)
    then show ?thesis
      unfolding f32_value_def by (intro mult_right_mono) (simp_all only: of_int_le_iff, simp)
  qed
  finally show ?thesis .
qed

lemma f32_real_alt:
  "f32_real x = (case f32_exponent x of None \<Rightarrow> inf_of x
     | Some e \<Rightarrow> if 2 ^ 128 \<le> \<bar>f32_value x e\<bar> then inf_of x else Fin (f32_value x e))"
  by (simp add: f32_real_def f32_value_def f32_sig_def Let_def split: option.split)

lemma f32_exponent_0 [simp]: "f32_exponent 0 = Some (- 149)"
  by (rule f32_exponent_eqI) auto

lemma f32_real_0 [simp]: "f32_real 0 = Fin 0"
  by (simp add: f32_real_alt f32_value_def f32_sig_def round_half_even_def)

lemma inf_of_minus: "inf_of (- x) = - inf_of x"
  by (simp add: inf_of_def)

lemma f32_real_minus: "f32_real (- x) = - f32_real x"
  by (simp add: f32_real_alt inf_of_minus split: option.split)

lemma f32_minus: "f32 (- x) = - f32 x"
  by (cases x) (simp_all add: f32_real_minus)

lemma f32_real_nonneg: "0 \<le> x \<Longrightarrow> Fin 0 \<le> f32_real x"
proof (cases "x = 0")
  case False
  assume "0 \<le> x"
  with False show ?thesis
    by (simp add: f32_real_alt inf_of_def f32_value_nonneg split: option.split)
qed simp

lemma f32_real_mono_nonneg:
  assumes "0 \<le> x" "x \<le> y"
  shows "f32_real x \<le> f32_real y"
proof (cases "f32_exponent y")
  case None
  with assms f32_exponent_None_iff [of y] have "f32_real y = PInf"
    by (auto simp: f32_real_alt inf_of_def)
  moreover have "f32_real x \<noteq> NaN" using f32_real_nonneg [OF assms(1)] by auto
  ultimately show ?thesis by (cases "f32_real x") auto
next
  case (Some e)
  have "f32_exponent x \<noteq> None"
    using f32_exponent_None_iff [of x] f32_exponent_None_iff [of y] Some assms by auto
  then obtain d where d: "f32_exponent x = Some d" by blast
  have le: "f32_value x d \<le> f32_value y e" by (rule f32_value_mono [OF d Some assms])
  have nn: "0 \<le> f32_value x d" "0 \<le> f32_value y e"
    using assms by (auto intro: f32_value_nonneg)
  show ?thesis
  proof (cases "x = 0")
    case True
    with assms(2) show ?thesis by (simp add: f32_real_nonneg)
  next
    case False
    then show ?thesis
      using le nn assms by (auto simp: f32_real_alt d Some inf_of_def)
  qed
qed

lemma le_minus_minus: "a \<le> b \<Longrightarrow> - b \<le> - (a :: jsnum)"
  by (cases a; cases b) simp_all

lemma minus_minus_jsnum [simp]: "- (- a) = (a :: jsnum)"
  by (cases a) simp_all

lemma jsnum_le_trans: "a \<le> b \<Longrightarrow> b \<le> c \<Longrightarrow> a \<le> (c :: jsnum)"
  by (cases a; cases b; cases c) simp_all

lemma f32_real_mono: "x \<le> y \<Longrightarrow> f32_real x \<le> f32_real y"
proof -
  assume le: "x \<le> y"
  consider "0 \<le> x" | "x \<le> 0" "0 \<le> y" | "y \<le> 0" using le by linarith
  then show ?thesis
  proof cases
    case 1
    then show ?thesis using le by (rule f32_real_mono_nonneg)
  next
    case 2
    have "- f32_real (- x) \<le> - Fin 0"
      using f32_real_nonneg [of "- x"] 2 by (intro le_minus_minus) simp
    with f32_real_nonneg [of y] 2 show ?thesis
      by (auto simp: f32_real_minus intro: jsnum_le_trans)
  next
    case 3
    then have "f32_real (- y) \<le> f32_real (- x)" using le by (intro f32_real_mono_nonneg) auto
    then have "- f32_real (- x) \<le> - f32_real (- y)" by (rule le_minus_minus)
    then show ?thesis by (simp add: f32_real_minus)
  qed
qed

lemma f32_real_not_NaN: "f32_real x \<noteq> NaN"
proof (cases "0 \<le> x")
  case True
  with f32_real_nonneg [of x] show ?thesis by auto
next
  case False
  then have "Fin 0 \<le> f32_real (- x)" by (intro f32_real_nonneg) simp
  then show ?thesis by (auto simp: f32_real_minus)
qed

lemma le_infinities:
  "x \<noteq> NaN \<Longrightarrow> x \<le> PInf" "x \<noteq> NaN \<Longrightarrow> NInf \<le> x"
  by (cases x; simp)+

lemma f32_mono: "x \<le> y \<Longrightarrow> f32 x \<le> f32 y"
  by (cases x; cases y) (simp_all add: f32_real_mono f32_real_not_NaN le_infinities)

text \<open>
  A single is a value that rounding leaves alone. The rounded value is one: it is a multiple of
  its unit in the last place that needs at most 24 bits, or the next power of two.
\<close>

definition is_f32 :: "jsnum \<Rightarrow> bool" where
  "is_f32 x \<longleftrightarrow> f32 x = x"

lemma f32_multiple:
  assumes "-149 \<le> e" "e \<le> 104" "\<bar>n\<bar> < 2 ^ 24" "e = -149 \<or> 2 ^ 23 \<le> \<bar>n\<bar>"
  shows "f32_real (of_int n * 2 powi e) = Fin (of_int n * 2 powi e)"
proof -
  have abs: "\<bar>of_int n * 2 powi e :: real\<bar> = of_int \<bar>n\<bar> * 2 powi e"
    by (simp add: abs_mult)
  have "(of_int \<bar>n\<bar> :: real) < of_int (2 ^ 24)" using assms(3) by (simp only: of_int_less_iff)
  then have lt: "\<bar>of_int n * 2 powi e :: real\<bar> < 2 powi (e + 24)"
    unfolding abs powi_24_split by (intro mult_strict_right_mono) simp_all
  have "(of_int (2 ^ 23) :: real) \<le> of_int \<bar>n\<bar>" if "2 ^ 23 \<le> \<bar>n\<bar>"
    using that by (simp only: of_int_le_iff)
  then have ge: "2 powi (e + 23) \<le> \<bar>of_int n * 2 powi e :: real\<bar>" if "2 ^ 23 \<le> \<bar>n\<bar>"
    unfolding abs powi_23_split using that by (intro mult_right_mono) simp_all
  have ex: "f32_exponent (of_int n * 2 powi e) = Some e"
    using assms ge by (intro f32_exponent_eqI lt) auto
  then have "\<not> 2 ^ 128 \<le> \<bar>of_int n * 2 powi e :: real\<bar>"
    using f32_exponent_None_iff [of "of_int n * 2 powi e"] by (simp only: option.simps not_False_eq_True)
  with ex show ?thesis
    by (simp add: f32_real_unfold f32_sig_multiple)
qed

lemma f32_real_idem_nonneg:
  assumes "0 \<le> x"
  shows "f32 (f32_real x) = f32_real x"
proof (cases "f32_exponent x")
  case None
  then show ?thesis by (simp add: f32_real_alt inf_of_def)
next
  case (Some e)
  note D = f32_exponent_SomeD [OF Some]
  let ?n = "f32_sig x e"
  have n0: "0 \<le> ?n" using assms by (rule f32_sig_nonneg)
  have le: "?n \<le> 2 ^ 24" using D(3) assms by (intro f32_sig_le) simp
  have ge: "2 ^ 23 \<le> ?n" if "e \<noteq> -149" using D(1,4) that assms by (intro f32_sig_ge) simp
  show ?thesis
  proof (cases "2 ^ 128 \<le> \<bar>f32_value x e\<bar>")
    case True
    with Some show ?thesis by (simp add: f32_real_alt inf_of_def)
  next
    case False
    have "f32_real (f32_value x e) = Fin (f32_value x e)"
    proof (cases "?n = 2 ^ 24")
      case True
      then have v: "f32_value x e = of_int (2 ^ 23) * 2 powi (e + 1)"
        by (simp add: f32_value_def power_int_add)
      have "e < 104"
      proof (rule ccontr)
        assume "\<not> e < 104"
        with D(2) have "e = 104" by simp
        with v False show False by simp
      qed
      with D(1) show ?thesis unfolding v by (intro f32_multiple) auto
    next
      case False
      with n0 le ge D(1,2) show ?thesis
        unfolding f32_value_def by (intro f32_multiple) auto
    qed
    with Some False show ?thesis by (simp add: f32_real_alt)
  qed
qed

lemma f32_idem: "f32 (f32 x) = f32 x"
proof (cases x)
  case (Fin a)
  show ?thesis
  proof (cases "0 \<le> a")
    case True
    with Fin show ?thesis by (simp add: f32_real_idem_nonneg)
  next
    case False
    then have "f32 (f32_real (- a)) = f32_real (- a)" by (intro f32_real_idem_nonneg) simp
    then have "f32 (- f32_real a) = - f32_real a" by (simp add: f32_real_minus)
    then have "- f32 (f32_real a) = - f32_real a" by (simp add: f32_minus)
    then have "- (- f32 (f32_real a)) = - (- f32_real a)" by (rule arg_cong)
    with Fin show ?thesis by simp
  qed
qed simp_all

lemma is_f32_f32 [simp]: "is_f32 (f32 x)"
  by (simp add: is_f32_def f32_idem)

text \<open>Integers below \<open>2 ^ 24\<close>, and their halves, quarters and so on, are singles.\<close>

lemma f32_real_of_int:
  assumes "2 ^ 23 \<le> \<bar>n\<bar>" "\<bar>n\<bar> < 2 ^ 24" "k \<le> 149"
  shows "f32_real (of_int n / 2 ^ k) = Fin (of_int n / 2 ^ k)"
proof -
  have "(of_int n / 2 ^ k :: real) = of_int n * 2 powi (- int k)"
    by (simp add: power_int_minus field_simps)
  with f32_multiple [of "- int k" n] assms show ?thesis by simp
qed

section \<open>The contract of an array type\<close>

locale float_store =
  fixes st :: "jsnum \<Rightarrow> jsnum"
  assumes st_special [simp]: "st NaN = NaN" "st PInf = PInf" "st NInf = NInf"
    and st_zero [simp]: "st (Fin 0) = Fin 0"
    and st_one [simp]: "st (Fin 1) = Fin 1"
    and st_minus: "st (- x) = - st x"
    and st_idem [simp]: "st (st x) = st x"
    and st_mono: "x \<le> y \<Longrightarrow> st x \<le> st y"
begin

text \<open>An element that an array holds is read back unchanged.\<close>

definition stored :: "jsnum \<Rightarrow> bool" where
  "stored x \<longleftrightarrow> st x = x"

lemma stored_st [simp]: "stored (st x)"
  by (simp add: stored_def)

lemma st_uminus_one [simp]: "st (Fin (- 1)) = Fin (- 1)"
  using st_minus [of "Fin 1"] by simp

text \<open>Storing a value that lies between two stored values keeps it between them.\<close>

lemma st_between:
  assumes "stored a" "stored b" "a \<le> x" "x \<le> b"
  shows "a \<le> st x \<and> st x \<le> b"
  using st_mono [OF assms(3)] st_mono [OF assms(4)] assms(1,2) by (simp add: stored_def)

lemma st_between_finite:
  assumes "stored (Fin a)" "stored (Fin b)" "a \<le> x" "x \<le> b"
  obtains m where "st (Fin x) = Fin m" "a \<le> m" "m \<le> b"
proof -
  have "Fin a \<le> st (Fin x) \<and> st (Fin x) \<le> Fin b"
    using assms by (intro st_between) simp_all
  then show thesis using that by (cases "st (Fin x)") auto
qed

end

text \<open>Every dyadic number with at most 24 significant bits in range is a single.\<close>

lemma f32_dyadic_aux:
  assumes "\<bar>n\<bar> < 2 ^ 24" "-149 + int k \<le> 104"
  shows "f32_real (of_int n * 2 powi (-149 + int k)) = Fin (of_int n * 2 powi (-149 + int k))"
  using assms
proof (induction k arbitrary: n)
  case 0
  then show ?case using f32_multiple [of "-149" n] by simp
next
  case (Suc k)
  show ?case
  proof (cases "2 ^ 23 \<le> \<bar>n\<bar>")
    case True
    with Suc.prems show ?thesis by (intro f32_multiple) auto
  next
    case False
    then have "\<bar>2 * n\<bar> < 2 ^ 24" by simp
    with Suc.IH [of "2 * n"] Suc.prems(2) have
      "f32_real (of_int (2 * n) * 2 powi (-149 + int k)) = Fin (of_int (2 * n) * 2 powi (-149 + int k))"
      by simp
    moreover have "(2 :: real) powi (-149 + int (Suc k)) = 2 * 2 powi (-149 + int k)"
      using power_int_add_1' [of "2 :: real" "-149 + int k"] by (simp add: algebra_simps)
    then have eq: "(of_int n * 2 powi (-149 + int (Suc k)) :: real) = of_int (2 * n) * 2 powi (-149 + int k)"
      by simp
    ultimately show ?thesis unfolding eq by blast
  qed
qed

lemma f32_dyadic:
  assumes "\<bar>n\<bar> < 2 ^ 24" "-149 \<le> e" "e \<le> 104"
  shows "f32_real (of_int n * 2 powi e) = Fin (of_int n * 2 powi e)"
  using f32_dyadic_aux [OF assms(1), of "nat (e + 149)"] assms(2,3) by simp

lemma f32_one [simp]: "f32_real 1 = Fin 1"
  using f32_real_of_int [of "2 ^ 23" 23] by simp

interpretation f32_store: float_store f32
  by unfold_locales (simp_all add: f32_minus f32_idem f32_mono)

interpretation f64_store: float_store f64
  by unfold_locales (simp_all add: f64_def)

end
