(* ===== verification/Vectors.thy ===== *)
theory Vectors
  imports FloatStore
begin

text \<open>
  The three-element vectors of \<open>js/mjs.js\<close> (\<open>V3\<close>). A vector is the list of the elements of the
  array that the code works on. \<open>MJS_FLOAT_ARRAY_TYPE\<close>, the array type the library names once, is
  the parameter \<open>st\<close>: the conversion an assignment to an element performs (\<open>f32\<close> for the
  \<open>WebGLFloatArray\<close> of the source, \<open>f64\<close> for the \<open>Float64Array\<close> and \<open>Array\<close> it names as
  alternatives). The optional result argument \<open>r\<close> is the array that the result list stands for;
  it is taken to be fresh or different from the operands, as in every call of the program
  that does not work element by element.
\<close>

section \<open>The operations of V3\<close>

type_synonym farray = "jsnum list"

definition MJS_EPSILON :: jsnum where
  "MJS_EPSILON = Fin 0.00001"

definition V3_new :: "(jsnum \<Rightarrow> jsnum) \<Rightarrow> jsnum \<Rightarrow> jsnum \<Rightarrow> jsnum \<Rightarrow> farray" where
  "V3_new st x y z = map st [x, y, z]"

definition V3_clone :: "(jsnum \<Rightarrow> jsnum) \<Rightarrow> farray \<Rightarrow> farray" where
  "V3_clone st a = map st a"

definition V3_add :: "(jsnum \<Rightarrow> jsnum) \<Rightarrow> farray \<Rightarrow> farray \<Rightarrow> farray" where
  "V3_add st a b =
     [st (idx a 0 + idx b 0),
      st (idx a 1 + idx b 1),
      st (idx a 2 + idx b 2)]"

definition V3_equals :: "farray \<Rightarrow> farray \<Rightarrow> bool" where
  "V3_equals a b \<longleftrightarrow>
     Math_abs (idx a 0 - idx b 0) < MJS_EPSILON \<and>
     Math_abs (idx a 1 - idx b 1) < MJS_EPSILON \<and>
     Math_abs (idx a 2 - idx b 2) < MJS_EPSILON"

definition V3_sub :: "(jsnum \<Rightarrow> jsnum) \<Rightarrow> farray \<Rightarrow> farray \<Rightarrow> farray" where
  "V3_sub st a b =
     [st (idx a 0 - idx b 0),
      st (idx a 1 - idx b 1),
      st (idx a 2 - idx b 2)]"

definition V3_neg :: "(jsnum \<Rightarrow> jsnum) \<Rightarrow> farray \<Rightarrow> farray" where
  "V3_neg st a = [st (- idx a 0), st (- idx a 1), st (- idx a 2)]"

definition V3_lengthSquared :: "farray \<Rightarrow> jsnum" where
  "V3_lengthSquared a = idx a 0 * idx a 0 + idx a 1 * idx a 1 + idx a 2 * idx a 2"

definition V3_length :: "farray \<Rightarrow> jsnum" where
  "V3_length a = Math_sqrt (idx a 0 * idx a 0 + idx a 1 * idx a 1 + idx a 2 * idx a 2)"

definition V3_normalize :: "(jsnum \<Rightarrow> jsnum) \<Rightarrow> farray \<Rightarrow> farray" where
  "V3_normalize st a =
     (let im = 1 / V3_length a
      in [st (idx a 0 * im), st (idx a 1 * im), st (idx a 2 * im)])"

definition V3_direction :: "(jsnum \<Rightarrow> jsnum) \<Rightarrow> farray \<Rightarrow> farray \<Rightarrow> farray" where
  "V3_direction st a b = V3_normalize st (V3_sub st a b)"

definition V3_scale :: "(jsnum \<Rightarrow> jsnum) \<Rightarrow> farray \<Rightarrow> jsnum \<Rightarrow> farray" where
  "V3_scale st a k = [st (idx a 0 * k), st (idx a 1 * k), st (idx a 2 * k)]"

definition V3_dot :: "farray \<Rightarrow> farray \<Rightarrow> jsnum" where
  "V3_dot a b = idx a 0 * idx b 0 + idx a 1 * idx b 1 + idx a 2 * idx b 2"

definition V3_cross :: "(jsnum \<Rightarrow> jsnum) \<Rightarrow> farray \<Rightarrow> farray \<Rightarrow> farray" where
  "V3_cross st a b =
     [st (idx a 1 * idx b 2 - idx a 2 * idx b 1),
      st (idx a 2 * idx b 0 - idx a 0 * idx b 2),
      st (idx a 0 * idx b 1 - idx a 1 * idx b 0)]"

definition V3_angle :: "farray \<Rightarrow> farray \<Rightarrow> jsnum" where
  "V3_angle a b = Math_acos (V3_dot a b)"

text \<open>The scratch vector \<open>V3._temp1\<close> holds a row of the matrix, converted, for each component.\<close>

definition V3_mul4x4 :: "(jsnum \<Rightarrow> jsnum) \<Rightarrow> farray \<Rightarrow> farray \<Rightarrow> farray" where
  "V3_mul4x4 st m v =
     (let tmp = map st [idx m 3, idx m 7, idx m 11];
          w = V3_dot v tmp + idx m 15;
          tmp0 = map st [idx m 0, idx m 4, idx m 8];
          tmp1 = map st [idx m 1, idx m 5, idx m 9];
          tmp2 = map st [idx m 2, idx m 6, idx m 10]
      in [st ((V3_dot v tmp0 + idx m 12) / w),
          st ((V3_dot v tmp1 + idx m 13) / w),
          st ((V3_dot v tmp2 + idx m 14) / w)])"

definition V3_mul3x3 :: "(jsnum \<Rightarrow> jsnum) \<Rightarrow> farray \<Rightarrow> farray \<Rightarrow> farray" where
  "V3_mul3x3 st m v =
     [st (idx m 0 * idx v 0 + idx m 3 * idx v 1 + idx m 6 * idx v 2),
      st (idx m 1 * idx v 0 + idx m 4 * idx v 1 + idx m 7 * idx v 2),
      st (idx m 2 * idx v 0 + idx m 5 * idx v 1 + idx m 8 * idx v 2)]"

lemmas V3_defs = V3_new_def V3_clone_def V3_add_def V3_sub_def V3_neg_def V3_lengthSquared_def
  V3_length_def V3_normalize_def V3_direction_def V3_scale_def V3_dot_def V3_cross_def
  V3_mul4x4_def V3_mul3x3_def

section \<open>Vectors of finite numbers\<close>

text \<open>
  On finite elements and with an array type that keeps them (\<open>f64\<close>) the operations are those of
  the real vector space; \<open>real3\<close> is the vector with three given real elements.
\<close>

definition real3 :: "real \<Rightarrow> real \<Rightarrow> real \<Rightarrow> farray" where
  "real3 x y z = [Fin x, Fin y, Fin z]"

lemma idx_real3 [simp]:
  "idx (real3 x y z) 0 = Fin x" "idx (real3 x y z) 1 = Fin y" "idx (real3 x y z) (Suc 0) = Fin y"
  "idx (real3 x y z) 2 = Fin z"
  by (simp_all add: real3_def)

lemma f64_id [simp]: "f64 x = x"
  by (simp add: f64_def)

lemma real3_eq_iff [simp]: "real3 x y z = real3 x' y' z' \<longleftrightarrow> x = x' \<and> y = y' \<and> z = z'"
  by (simp add: real3_def)

lemma V3_real3 [simp]:
  "V3_new f64 (Fin x) (Fin y) (Fin z) = real3 x y z"
  "V3_clone f64 (real3 x y z) = real3 x y z"
  "V3_add f64 (real3 x y z) (real3 x' y' z') = real3 (x + x') (y + y') (z + z')"
  "V3_sub f64 (real3 x y z) (real3 x' y' z') = real3 (x - x') (y - y') (z - z')"
  "V3_neg f64 (real3 x y z) = real3 (- x) (- y) (- z)"
  "V3_scale f64 (real3 x y z) (Fin k) = real3 (x * k) (y * k) (z * k)"
  "V3_dot (real3 x y z) (real3 x' y' z') = Fin (x * x' + y * y' + z * z')"
  "V3_cross f64 (real3 x y z) (real3 x' y' z') =
     real3 (y * z' - z * y') (z * x' - x * z') (x * y' - y * x')"
  "V3_lengthSquared (real3 x y z) = Fin (x * x + y * y + z * z)"
  by (simp_all add: V3_defs, simp_all add: real3_def)

lemma sum_squares_nonneg: "0 \<le> x * x + y * y + z * (z :: real)"
  by (intro add_nonneg_nonneg) auto

lemma sum_squares_zero_iff: "x * x + y * y + z * (z :: real) = 0 \<longleftrightarrow> x = 0 \<and> y = 0 \<and> z = 0"
proof
  assume "x * x + y * y + z * z = 0"
  then have "x * x \<le> 0" "y * y \<le> 0" "z * z \<le> 0"
    using zero_le_square [of x] zero_le_square [of y] zero_le_square [of z] by linarith+
  then show "x = 0 \<and> y = 0 \<and> z = 0" by (auto simp: mult_le_0_iff)
qed simp

lemma V3_length_real3 [simp]:
  "V3_length (real3 x y z) = Fin (sqrt (x * x + y * y + z * z))"
  using sum_squares_nonneg [of x y z] by (simp add: V3_length_def not_less)

lemma V3_normalize_real3:
  assumes "\<not> (x = 0 \<and> y = 0 \<and> z = 0)"
  defines "l \<equiv> sqrt (x * x + y * y + z * z)"
  shows "V3_normalize f64 (real3 x y z) = real3 (x / l) (y / l) (z / l)" "l > 0"
proof -
  have "0 < x * x + y * y + z * z"
    using assms(1) sum_squares_nonneg [of x y z] sum_squares_zero_iff [of x y z] by linarith
  then show "l > 0" unfolding l_def by (rule real_sqrt_gt_zero)
  then show "V3_normalize f64 (real3 x y z) = real3 (x / l) (y / l) (z / l)"
    using V3_length_real3 [of x y z] by (simp add: V3_normalize_def l_def [symmetric] real3_def)
qed

text \<open>Normalizing the zero vector divides by zero; every element is NaN.\<close>

lemma V3_normalize_zero: "V3_normalize f64 (real3 0 0 0) = [NaN, NaN, NaN]"
  by (simp add: V3_normalize_def inf_of_def)

lemma unit_square: "l > 0 \<Longrightarrow> l = sqrt s \<Longrightarrow> s \<ge> 0 \<Longrightarrow> l * l = (s :: real)"
  by simp

lemma V3_normalize_unit:
  assumes "\<not> (x = 0 \<and> y = 0 \<and> z = 0)"
  obtains u v w where "V3_normalize f64 (real3 x y z) = real3 u v w" "u * u + v * v + w * w = 1"
    "\<exists>l > 0. x = l * u \<and> y = l * v \<and> z = l * w"
proof -
  let ?l = "sqrt (x * x + y * y + z * z)"
  note N = V3_normalize_real3 [OF assms]
  have "?l * ?l = x * x + y * y + z * z" using sum_squares_nonneg [of x y z] by simp
  then have "x / ?l * (x / ?l) + y / ?l * (y / ?l) + z / ?l * (z / ?l) = 1"
    using N(2) by (simp add: add_divide_distrib [symmetric])
  moreover have "\<exists>l > 0. x = l * (x / ?l) \<and> y = l * (y / ?l) \<and> z = l * (z / ?l)"
    using N(2) by (intro exI [of _ ?l]) simp
  ultimately show thesis using that N(1) by blast
qed

end
