(* ===== verification/Geometry.thy ===== *)
theory Geometry
  imports Vectors "HOL-Library.Word"
begin

unbundle bit_operations_syntax

text \<open>
  The box of a tree node (\<open>js/geometry.js\<close>, \<open>NodeGeometry\<close>) and its subdivision into octants. The
  corners of a child are stored in a new \<open>Float32Array\<close>, so every coordinate is rounded to single
  precision (\<open>f32\<close>); the arrays that \<open>V3.$\<close> makes have the element type \<open>st\<close> of the vector library.

  The lemmas show that the octants of a box tile it exactly, whatever the rounding does (both
  neighbours take the same rounded middle), that a root box on a dyadic grid is subdivided without
  rounding for as many levels as its coordinates have bits left, and what happens below.
\<close>

section \<open>The operations of NodeGeometry\<close>

definition X_BIT :: nat where "X_BIT = 2"
definition Y_BIT :: nat where "Y_BIT = 1"
definition Z_BIT :: nat where "Z_BIT = 0"

record geom =
  level :: nat
  lo :: farray
  hi :: farray

definition NodeGeometry :: "farray \<Rightarrow> farray \<Rightarrow> geom" where
  "NodeGeometry l h = \<lparr>level = 1, lo = l, hi = h\<rparr>"

definition NodeGeometry_getCenter :: "(jsnum \<Rightarrow> jsnum) \<Rightarrow> geom \<Rightarrow> farray" where
  "NodeGeometry_getCenter st g =
     V3_new st ((idx (hi g) 0 + idx (lo g) 0) / 2)
       ((idx (hi g) 1 + idx (lo g) 1) / 2)
       ((idx (hi g) 2 + idx (lo g) 2) / 2)"

text \<open>\<open>c & (1 << b)\<close> as a condition, on 32-bit integers.\<close>

definition has_bit :: "nat \<Rightarrow> nat \<Rightarrow> bool" where
  "has_bit c b \<longleftrightarrow> (of_nat c :: 32 word) AND push_bit b 1 \<noteq> 0"

definition NodeGeometry_getChild :: "geom \<Rightarrow> nat \<Rightarrow> geom" where
  "NodeGeometry_getChild g to_child =
     (let mid0 = (idx (lo g) 0 + idx (hi g) 0) / 2;
          mid1 = (idx (lo g) 1 + idx (hi g) 1) / 2;
          mid2 = (idx (lo g) 2 + idx (hi g) 2) / 2
      in \<lparr>level = level g + 1,
          lo = [f32 (if has_bit to_child X_BIT then mid0 else idx (lo g) 0),
                f32 (if has_bit to_child Y_BIT then mid1 else idx (lo g) 1),
                f32 (if has_bit to_child Z_BIT then mid2 else idx (lo g) 2)],
          hi = [f32 (if has_bit to_child X_BIT then idx (hi g) 0 else mid0),
                f32 (if has_bit to_child Y_BIT then idx (hi g) 1 else mid1),
                f32 (if has_bit to_child Z_BIT then idx (hi g) 2 else mid2)]\<rparr>)"

section \<open>One axis of a box\<close>

lemma has_bit_iff: "b < 32 \<Longrightarrow> has_bit c b \<longleftrightarrow> bit c b"
  unfolding has_bit_def bit_iff_and_push_bit_not_eq_0 [symmetric] by (simp add: bit_simps)

text \<open>Axis \<open>i\<close> of a box is selected by bit \<open>2 - i\<close> of the child number.\<close>

definition axis_bit :: "nat \<Rightarrow> nat \<Rightarrow> bool" where
  "axis_bit c i = bit c (2 - i)"

definition box_split :: "geom \<Rightarrow> nat \<Rightarrow> jsnum" where
  "box_split g i = f32 ((idx (lo g) i + idx (hi g) i) / 2)"

lemma axis_cases: "i < 3 \<Longrightarrow> i = 0 \<or> i = 1 \<or> i = (2 :: nat)"
  by auto

lemma getChild_axis:
  assumes "i < 3"
  shows "idx (lo (NodeGeometry_getChild g c)) i =
           (if axis_bit c i then box_split g i else f32 (idx (lo g) i))"
    and "idx (hi (NodeGeometry_getChild g c)) i =
           (if axis_bit c i then f32 (idx (hi g) i) else box_split g i)"
  using axis_cases [OF assms]
  by (auto simp: NodeGeometry_getChild_def Let_def has_bit_iff axis_bit_def box_split_def
      X_BIT_def Y_BIT_def Z_BIT_def)

lemma getChild_simps [simp]:
  "level (NodeGeometry_getChild g c) = level g + 1"
  "length (lo (NodeGeometry_getChild g c)) = 3" "length (hi (NodeGeometry_getChild g c)) = 3"
  by (simp_all add: NodeGeometry_getChild_def Let_def)

text \<open>A box that arrays of singles hold: finite corners in order.\<close>

definition axis_ok :: "geom \<Rightarrow> nat \<Rightarrow> bool" where
  "axis_ok g i \<longleftrightarrow>
     (\<exists>a b. idx (lo g) i = Fin a \<and> idx (hi g) i = Fin b \<and> a \<le> b \<and> is_f32 (Fin a) \<and> is_f32 (Fin b))"

definition box_ok :: "geom \<Rightarrow> bool" where
  "box_ok g \<longleftrightarrow> (\<forall>i < 3. axis_ok g i)"

definition axis_in :: "geom \<Rightarrow> nat \<Rightarrow> real \<Rightarrow> bool" where
  "axis_in g i x \<longleftrightarrow> idx (lo g) i \<le> Fin x \<and> Fin x \<le> idx (hi g) i"

definition in_box :: "geom \<Rightarrow> (nat \<Rightarrow> real) \<Rightarrow> bool" where
  "in_box g p \<longleftrightarrow> (\<forall>i < 3. axis_in g i (p i))"

text \<open>The rounded middle lies between the corners, since those are stored exactly.\<close>

lemma axis_okE:
  assumes "axis_ok g i"
  obtains a b m where "idx (lo g) i = Fin a" "idx (hi g) i = Fin b" "a \<le> m" "m \<le> b"
    "box_split g i = Fin m" "is_f32 (Fin a)" "is_f32 (Fin b)" "is_f32 (Fin m)"
proof -
  from assms obtain a b where ab: "idx (lo g) i = Fin a" "idx (hi g) i = Fin b" "a \<le> b"
      "is_f32 (Fin a)" "is_f32 (Fin b)" by (auto simp: axis_ok_def)
  then obtain m where m: "f32 (Fin ((a + b) / 2)) = Fin m" "a \<le> m" "m \<le> b"
    using f32_store.st_between_finite [of a b "(a + b) / 2"]
    by (auto simp: f32_store.stored_def is_f32_def)
  then have "is_f32 (Fin m)" by (metis is_f32_f32)
  with ab m that show thesis by (simp add: box_split_def)
qed

lemma is_f32D: "is_f32 (Fin a) \<Longrightarrow> f32_real a = Fin a"
  by (simp add: is_f32_def)

lemma child_axis_ok: "axis_ok g i \<Longrightarrow> i < 3 \<Longrightarrow> axis_ok (NodeGeometry_getChild g c) i"
  by (erule axis_okE) (auto simp: axis_ok_def [of "NodeGeometry_getChild g c"] getChild_axis is_f32D)

lemma child_box_ok: "box_ok g \<Longrightarrow> box_ok (NodeGeometry_getChild g c)"
  by (simp add: box_ok_def child_axis_ok)

lemma child_axis_in:
  assumes "axis_ok g i" "i < 3"
  shows "axis_in (NodeGeometry_getChild g c) i x \<longleftrightarrow>
           axis_in g i x \<and> (if axis_bit c i then box_split g i \<le> Fin x else Fin x \<le> box_split g i)"
  using assms by (elim axis_okE) (auto simp: axis_in_def getChild_axis is_f32D)

lemma box_split_less:
  assumes "axis_ok g i" "\<not> box_split g i \<le> Fin x"
  shows "Fin x \<le> box_split g i"
  using assms by (elim axis_okE) auto

text \<open>The octant that holds a point: bit \<open>2 - i\<close> says on which side of the split of axis \<open>i\<close> it is.\<close>

definition octant_of :: "geom \<Rightarrow> (nat \<Rightarrow> real) \<Rightarrow> nat" where
  "octant_of g p =
     (if box_split g 0 \<le> Fin (p 0) then 4 else 0) + (if box_split g 1 \<le> Fin (p 1) then 2 else 0) +
     (if box_split g 2 \<le> Fin (p 2) then 1 else 0)"

lemma octant_bits:
  "i < 3 \<Longrightarrow> axis_bit (octant_of g p) i \<longleftrightarrow> box_split g i \<le> Fin (p i)"
  by (drule axis_cases) (auto simp: octant_of_def axis_bit_def bit_iff_odd)

lemma octant_less: "octant_of g p < 8"
  by (simp add: octant_of_def)

lemma in_octant: "box_ok g \<Longrightarrow> in_box g p \<Longrightarrow> in_box (NodeGeometry_getChild g (octant_of g p)) p"
  by (auto simp: in_box_def box_ok_def child_axis_in octant_bits box_split_less)

lemma child_in_box: "box_ok g \<Longrightarrow> in_box (NodeGeometry_getChild g c) p \<Longrightarrow> in_box g p"
  by (auto simp: in_box_def box_ok_def child_axis_in)

lemma differing_axis:
  assumes "c < 8" "d < 8" "c \<noteq> d"
  obtains i where "i < 3" "axis_bit c i \<noteq> axis_bit d i"
proof -
  have "c \<in> {..<8}" "d \<in> {..<8}" using assms by auto
  then have "\<exists>i \<in> {0, 1, 2}. axis_bit c i \<noteq> axis_bit d i"
    using assms(3)
    by (auto simp: lessThan_nat_numeral lessThan_Suc axis_bit_def bit_iff_odd)
  then show thesis
    using that [of 0] that [of 1] that [of 2] by auto
qed

section \<open>Descending a path of octants\<close>

definition descend :: "geom \<Rightarrow> nat list \<Rightarrow> geom" where
  "descend g cs = foldl NodeGeometry_getChild g cs"

lemma descend_simps [simp]:
  "descend g [] = g" "descend g (c # cs) = descend (NodeGeometry_getChild g c) cs"
  by (simp_all add: descend_def)

lemma descend_ok: "box_ok g \<Longrightarrow> box_ok (descend g cs)"
  by (induction cs arbitrary: g) (simp_all add: child_box_ok)

lemma descend_in_box: "box_ok g \<Longrightarrow> in_box (descend g cs) p \<Longrightarrow> in_box g p"
  by (induction cs arbitrary: g) (auto dest: child_in_box child_box_ok)

lemma descend_level: "level (descend g cs) = level g + length cs"
  by (induction cs arbitrary: g) simp_all

text \<open>
  A box on the grid of step \<open>2 powi e\<close>: the corner is \<open>n i\<close> steps out on axis \<open>i\<close>, and the side is
  \<open>2 ^ k\<close> steps.
\<close>

definition grid_box :: "int \<Rightarrow> nat \<Rightarrow> (nat \<Rightarrow> int) \<Rightarrow> geom \<Rightarrow> bool" where
  "grid_box e k n g \<longleftrightarrow>
     (\<forall>i < 3. idx (lo g) i = Fin (of_int (n i) * 2 powi e) \<and>
             idx (hi g) i = Fin (of_int (n i + 2 ^ k) * 2 powi e))"

definition grid_fits :: "int \<Rightarrow> nat \<Rightarrow> (nat \<Rightarrow> int) \<Rightarrow> bool" where
  "grid_fits e k n \<longleftrightarrow>
     -149 \<le> e \<and> e \<le> 104 \<and> (\<forall>i < 3. - (2 ^ 24) < n i \<and> n i + 2 ^ k < 2 ^ 24)"

text \<open>The corner of the octant that a path leads to, in steps from the corner of the root.\<close>

fun path_offset :: "nat \<Rightarrow> nat \<Rightarrow> nat list \<Rightarrow> int" where
  "path_offset i k [] = 0"
| "path_offset i k (c # cs) = (if axis_bit c i then 2 ^ (k - 1) else 0) + path_offset i (k - 1) cs"

lemma grid_fitsD:
  assumes "grid_fits e (Suc k) n" "i < 3"
  shows "\<bar>n i\<bar> < 2 ^ 24" "\<bar>n i + 2 ^ k\<bar> < 2 ^ 24" "\<bar>n i + 2 ^ Suc k\<bar> < 2 ^ 24"
    "- (2 ^ 24) < n i" "n i + 2 ^ k + 2 ^ k < 2 ^ 24" "n i + 2 ^ k < 2 ^ 24"
proof -
  have "(0 :: int) < 2 ^ k" by simp
  moreover have "- (2 ^ 24) < n i" "n i + 2 * 2 ^ k < 2 ^ 24"
    using assms by (simp_all add: grid_fits_def)
  ultimately show "\<bar>n i\<bar> < 2 ^ 24" "\<bar>n i + 2 ^ k\<bar> < 2 ^ 24" "\<bar>n i + 2 ^ Suc k\<bar> < 2 ^ 24"
    "- (2 ^ 24) < n i" "n i + 2 ^ k + 2 ^ k < 2 ^ 24" "n i + 2 ^ k < 2 ^ 24"
    unfolding power_Suc by linarith+
qed

lemma grid_split:
  assumes "grid_box e (Suc k) n g" "grid_fits e (Suc k) n" "i < 3"
  shows "box_split g i = Fin (of_int (n i + 2 ^ k) * 2 powi e)"
proof -
  have "(of_int (n i) * 2 powi e + of_int (n i + 2 ^ Suc k) * 2 powi e) / 2 =
      (of_int (n i + 2 ^ k) * 2 powi e :: real)"
    by (simp add: algebra_simps)
  then have "box_split g i = f32_real (of_int (n i + 2 ^ k) * 2 powi e)"
    using assms(1,3) by (simp only: box_split_def grid_box_def plus_jsnum.simps numeral_Fin divide_Fin_numeral f32.simps)
  also have "\<bar>n i + 2 ^ k\<bar> < 2 ^ 24" by (rule grid_fitsD [OF assms(2,3)])
  then have "f32_real (of_int (n i + 2 ^ k) * 2 powi e) = Fin (of_int (n i + 2 ^ k) * 2 powi e)"
    using assms(2) by (intro f32_dyadic) (auto simp: grid_fits_def)
  finally show ?thesis .
qed

lemma grid_child:
  fixes c :: nat
  assumes "grid_box e (Suc k) n g" "grid_fits e (Suc k) n"
  defines "n' \<equiv> \<lambda>i. n i + (if axis_bit c i then 2 ^ k else 0)"
  shows "grid_box e k n' (NodeGeometry_getChild g c)" "grid_fits e k n'"
proof -
  note D = grid_fitsD [OF assms(2)]
  have "- (2 ^ 24) < n' i \<and> n' i + 2 ^ k < 2 ^ 24" if "i < 3" for i
    using D(2,4-6) [OF that] by (simp add: n'_def abs_less_iff)
  with assms(2) show "grid_fits e k n'" by (simp add: grid_fits_def)
  have corner: "f32 (idx (lo g) i) = idx (lo g) i" "f32 (idx (hi g) i) = idx (hi g) i" if "i < 3" for i
    using assms(1,2) that D(1,3) [OF that]
    by (simp_all only: grid_box_def grid_fits_def f32.simps f32_dyadic)
  have "idx (lo (NodeGeometry_getChild g c)) i = Fin (of_int (n' i) * 2 powi e) \<and>
      idx (hi (NodeGeometry_getChild g c)) i = Fin (of_int (n' i + 2 ^ k) * 2 powi e)" if "i < 3" for i
  proof -
    have "idx (lo g) i = Fin (of_int (n i) * 2 powi e)"
        "idx (hi g) i = Fin (of_int (n i + 2 ^ Suc k) * 2 powi e)"
      using assms(1) that by (auto simp: grid_box_def)
    then show ?thesis
      unfolding getChild_axis [OF that] corner [OF that] grid_split [OF assms(1,2) that] n'_def
      by simp
  qed
  then show "grid_box e k n' (NodeGeometry_getChild g c)" by (simp add: grid_box_def)
qed

lemma grid_descend:
  assumes "grid_box e k n g" "grid_fits e k n" "length cs \<le> k"
  shows "grid_box e (k - length cs) (\<lambda>i. n i + path_offset i k cs) (descend g cs)"
  using assms
proof (induction cs arbitrary: k n g)
  case Nil
  then show ?case by simp
next
  case (Cons c cs)
  then obtain j where k: "k = Suc j" "length cs \<le> j" by (cases k) auto
  from Cons.IH [OF grid_child [OF Cons.prems(1,2) [unfolded k(1)]] k(2), of c]
  show ?case by (simp add: k(1) add.assoc cong: if_cong)
qed

lemma path_offset_bounds: "length cs \<le> k \<Longrightarrow> 0 \<le> path_offset i k cs \<and> path_offset i k cs + 2 ^ (k - length cs) \<le> 2 ^ k"
proof (induction cs arbitrary: k)
  case (Cons c cs)
  then obtain j where "k = Suc j" "length cs \<le> j" by (cases k) auto
  moreover obtain z :: int where "2 ^ j = z" "0 \<le> z" by simp
  ultimately show ?case using Cons.IH [of j] by auto
qed simp

section \<open>Neighbouring singles\<close>

lemma f32_ulp_one:
  assumes "2 ^ 23 \<le> x" "x < 2 ^ 24 - 1"
  shows "f32_real x = Fin (of_int (round_half_even x))"
proof -
  have "f32_exponent x = Some 0"
    using assms by (intro f32_exponent_eqI) simp_all
  moreover have "\<lfloor>x\<rfloor> < 2 ^ 24 - 1" "0 \<le> \<lfloor>x\<rfloor>"
    using assms by (simp_all add: floor_less_iff)
  then have "round_half_even x < 2 ^ 24" "0 \<le> round_half_even x"
    using round_half_even_cases [of x] by auto
  ultimately show ?thesis by (simp add: f32_real_def)
qed

lemma f32_ulp_one_iff: "2 ^ 23 \<le> x \<Longrightarrow> x < 2 ^ 24 - 1 \<Longrightarrow> is_f32 (Fin x) \<longleftrightarrow> x \<in> \<int>"
  by (auto simp: is_f32_def f32_ulp_one elim!: Ints_cases) (metis Ints_of_int)

section \<open>Properties\<close>

text \<open>C14. The octants of a box tile it, whatever the rounding of the stored corners does: every child
  is a proper box one level down, a point is in the box if and only if it is in one of the eight
  children, and a point in two different children lies on the split plane of some axis.\<close>

theorem octants_tile:
  assumes "box_ok g"
  shows "(\<forall>c < 8. box_ok (NodeGeometry_getChild g c) \<and>
             level (NodeGeometry_getChild g c) = level g + 1) \<and>
           (in_box g p \<longleftrightarrow> (\<exists>c < 8. in_box (NodeGeometry_getChild g c) p)) \<and>
           (\<forall>c < 8. \<forall>d < 8. c \<noteq> d \<longrightarrow> in_box (NodeGeometry_getChild g c) p \<longrightarrow>
             in_box (NodeGeometry_getChild g d) p \<longrightarrow> (\<exists>i < 3. Fin (p i) = box_split g i))"
proof (intro conjI allI impI)
  show "in_box g p \<longleftrightarrow> (\<exists>c < 8. in_box (NodeGeometry_getChild g c) p)"
    using in_octant [OF assms] octant_less child_in_box [OF assms] by blast
next
  fix c d :: nat
  assume cd: "c < 8" "d < 8" "c \<noteq> d"
    and inside: "in_box (NodeGeometry_getChild g c) p" "in_box (NodeGeometry_getChild g d) p"
  from cd obtain i where i: "i < 3" "axis_bit c i \<noteq> axis_bit d i" by (rule differing_axis)
  then have "axis_in (NodeGeometry_getChild g c) i (p i)" "axis_in (NodeGeometry_getChild g d) i (p i)"
    using inside by (auto simp: in_box_def)
  moreover have ok: "axis_ok g i" using assms i(1) by (simp add: box_ok_def)
  ultimately have "Fin (p i) \<le> box_split g i" "box_split g i \<le> Fin (p i)"
    using i by (auto simp: child_axis_in [OF ok i(1)] split: if_splits)
  with ok have "Fin (p i) = box_split g i" by (elim axis_okE) auto
  with i(1) show "\<exists>i < 3. Fin (p i) = box_split g i" by blast
qed (simp_all add: child_box_ok assms)

text \<open>C16. Subdivision is exact while the coordinates have bits left: from a root on a grid of step
  \<open>2 powi e\<close> whose coordinates fit 24 bits, the box that a path of at most \<open>k\<close> octants leads to
  has exactly the corner that the bits of the path spell out and the side \<open>2 ^ (k - length)\<close> steps,
  at the level of the path.\<close>

theorem grid_descent_exact:
  assumes "grid_box e k n g" "grid_fits e k n" "length cs \<le> k" "i < 3"
  shows "idx (lo (descend g cs)) i = Fin (of_int (n i + path_offset i k cs) * 2 powi e) \<and>
           idx (hi (descend g cs)) i =
             Fin (of_int (n i + path_offset i k cs + 2 ^ (k - length cs)) * 2 powi e) \<and>
           0 \<le> path_offset i k cs \<and> path_offset i k cs + 2 ^ (k - length cs) \<le> 2 ^ k \<and>
           level (descend g cs) = level g + length cs"
  using grid_descend [OF assms(1-3)] assms(4) path_offset_bounds [OF assms(3), of i]
  by (auto simp: grid_box_def descend_level)

text \<open>The limit of single precision: on an axis where no single lies strictly between the corners
  of a box, one side of the split is an empty slice of width zero and the other is the whole extent
  of the parent, so further subdivision no longer refines the box.\<close>

theorem subdivision_limit:
  assumes "axis_ok g i" "i < 3" "axis_bit c i" "\<not> axis_bit d i"
    and "\<forall>x. is_f32 (Fin x) \<longrightarrow> axis_in g i x \<longrightarrow> Fin x = idx (lo g) i \<or> Fin x = idx (hi g) i"
  shows "idx (lo (NodeGeometry_getChild g c)) i = idx (hi (NodeGeometry_getChild g c)) i \<and>
           idx (lo (NodeGeometry_getChild g d)) i = idx (lo g) i \<and>
           idx (hi (NodeGeometry_getChild g d)) i = idx (hi g) i \<or>
         idx (lo (NodeGeometry_getChild g d)) i = idx (hi (NodeGeometry_getChild g d)) i \<and>
           idx (lo (NodeGeometry_getChild g c)) i = idx (lo g) i \<and>
           idx (hi (NodeGeometry_getChild g c)) i = idx (hi g) i"
  using assms by (elim axis_okE) (auto simp: getChild_axis is_f32D axis_in_def)

text \<open>The unit cube as a root.\<close>

definition unit_root :: geom where
  "unit_root = NodeGeometry [Fin 0, Fin 0, Fin 0] [Fin 1, Fin 1, Fin 1]"

lemma unit_root_ok: "box_ok unit_root"
  by (auto simp: box_ok_def axis_ok_def unit_root_def NodeGeometry_def is_f32_def dest!: axis_cases)

lemma octants_tile_witness:
  "in_box unit_root (\<lambda>i. 1 / 2) \<longleftrightarrow>
     (\<exists>c < 8. in_box (NodeGeometry_getChild unit_root c) (\<lambda>i. 1 / 2))"
  using octants_tile [OF unit_root_ok] by blast

lemma grid_descent_witness:
  "idx (lo (descend unit_root [5, 7])) 0 = Fin (3 / 4) \<and>
   idx (hi (descend unit_root [5, 7])) 0 = Fin 1"
proof -
  have "grid_box (-2) 2 (\<lambda>i. 0) unit_root" "grid_fits (-2) 2 (\<lambda>i. 0)"
    by (auto simp: grid_box_def grid_fits_def unit_root_def NodeGeometry_def dest!: axis_cases)
  from grid_descent_exact [OF this, of "[5, 7]" 0] show ?thesis
    by (simp add: axis_bit_def bit_iff_odd)
qed

definition tight_box :: geom where
  "tight_box = NodeGeometry [Fin (2 ^ 23), Fin 0, Fin 0] [Fin (2 ^ 23 + 1), Fin 1, Fin 1]"

lemma subdivision_limit_witness:
  "idx (lo (NodeGeometry_getChild tight_box 4)) 0 = idx (hi (NodeGeometry_getChild tight_box 4)) 0 \<or>
   idx (lo (NodeGeometry_getChild tight_box 0)) 0 = idx (hi (NodeGeometry_getChild tight_box 0)) 0"
proof -
  have ok: "axis_ok tight_box 0"
    by (auto simp: axis_ok_def tight_box_def NodeGeometry_def f32_ulp_one_iff)
  have "x = 2 ^ 23 \<or> x = 2 ^ 23 + 1" if "is_f32 (Fin x)" "2 ^ 23 \<le> x" "x \<le> 2 ^ 23 + 1" for x
    using that by (auto simp: f32_ulp_one_iff elim!: Ints_cases)
  then have "Fin x = idx (lo tight_box) 0 \<or> Fin x = idx (hi tight_box) 0"
    if "is_f32 (Fin x)" "axis_in tight_box 0 x" for x
    using that by (auto simp: axis_in_def tight_box_def NodeGeometry_def)
  with subdivision_limit [OF ok, of 4 0] show ?thesis
    by (auto simp: axis_bit_def bit_iff_odd)
qed

end
