(* ===== verification/CellModel.thy ===== *)
theory CellModel
  imports Geometry
begin

text \<open>
  The cells of the tree (\<open>js/cell.js\<close>, \<open>Cell\<close>). A cell is built from the bytes of a file: one byte
  whose bits say which children exist, then six bytes for each point (three coordinates within the
  box, two bytes and a flag byte of colour). A byte is an \<open>8 word\<close>, a number under a bitwise
  operator a \<open>32 word\<close>; a reference to another cell (\<open>parent_cell\<close>) is an address.

  The WebGL context is the record \<open>gl\<close> with the part of it that the cells use: the bound array
  buffer and the contents of the buffers; \<open>render\<close> returns the uniforms it sets and the vertices it
  draws as the record \<open>draw\<close>.
\<close>

section \<open>The constructor\<close>

type_synonym byte = "8 word"

record cell =
  cid :: string
  parent_id :: string
  which_child :: "nat option"
  children :: byte
  data :: "byte list"
  geometry :: geom
  scale :: jsnum
  node_size :: jsnum
  offset :: farray
  radius :: jsnum
  override_color :: farray
  vbo :: "nat option"
  parent_cell :: "addr option"
  inside_frustum :: int
  show_children :: "32 word"

definition ROOT3 :: jsnum where
  "ROOT3 = Math_sqrt 3"

text \<open>\<open>parseInt\<close> of one character (or of the empty string): a digit or NaN (\<open>None\<close>).\<close>

definition parse_digit :: "string \<Rightarrow> nat option" where
  "parse_digit s =
     (case s of [] \<Rightarrow> None
      | c # _ \<Rightarrow> if 48 \<le> (of_char c :: nat) \<and> (of_char c :: nat) \<le> 57 then Some (of_char c - 48) else None)"

text \<open>The two views of the buffer; a view past the end of an empty buffer is a RangeError.\<close>

definition Cell_new :: "(jsnum \<Rightarrow> jsnum) \<Rightarrow> string \<Rightarrow> geom \<Rightarrow> byte list \<Rightarrow> cell option" where
  "Cell_new st i g buffer =
     (case buffer of [] \<Rightarrow> None
      | c # d \<Rightarrow>
        (let s = idx (hi g) 0 - idx (lo g) 0
         in Some \<lparr>cid = i,
              parent_id = butlast i,
              which_child = parse_digit (drop (length i - 1) i),
              children = c,
              data = d,
              geometry = g,
              scale = s,
              node_size = s / 64,
              offset = V3_clone st (lo g),
              radius = s / 2 * ROOT3,
              override_color = [Fin (-1), Fin 0, Fin 0],
              vbo = None,
              parent_cell = None,
              inside_frustum = -1,
              show_children = 0\<rparr>))"

section \<open>The operations\<close>

definition Cell_shallowCopy :: "cell \<Rightarrow> cell" where
  "Cell_shallowCopy c =
     \<lparr>cid = cid c, parent_id = parent_id c, which_child = which_child c, children = children c,
      data = data c, geometry = geometry c, scale = scale c, node_size = node_size c,
      offset = offset c, radius = radius c, override_color = override_color c, vbo = vbo c,
      parent_cell = parent_cell c, inside_frustum = inside_frustum c,
      show_children = show_children c\<rparr>"

text \<open>\<open>1 << child\<close>; a shift distance is taken modulo 32.\<close>

definition bit_mask :: "nat \<Rightarrow> 32 word" where
  "bit_mask child = push_bit (child mod 32) 1"

definition Cell_hasChild :: "cell \<Rightarrow> nat \<Rightarrow> bool" where
  "Cell_hasChild c child \<longleftrightarrow> 0 < sint (bit_mask child AND ucast (children c))"

definition Cell_toBox :: "cell \<Rightarrow> cell" where
  "Cell_toBox c =
     c\<lparr>data := data c @ concat (map (\<lambda>child.
         [if has_bit child X_BIT then 136 else 120,
          if has_bit child Y_BIT then 136 else 120,
          if has_bit child Z_BIT then 136 else 120,
          if Cell_hasChild c child then 0 else 255,
          if Cell_hasChild c child then 255 else 0,
          0]) [0..<8])\<rparr>"

definition Cell_getNumChildren :: "cell \<Rightarrow> nat" where
  "Cell_getNumChildren c = foldl (\<lambda>count i. if Cell_hasChild c i then count + 1 else count) 0 [0..<8]"

definition Cell_getChildren :: "cell \<Rightarrow> 32 word" where
  "Cell_getChildren c = ucast (children c)"

definition Cell_isLeaf :: "cell \<Rightarrow> bool" where
  "Cell_isLeaf c \<longleftrightarrow> children c = 0"

definition Cell_getCenter :: "(jsnum \<Rightarrow> jsnum) \<Rightarrow> cell \<Rightarrow> farray" where
  "Cell_getCenter st c =
     V3_new st (idx (offset c) 0 + scale c / 2) (idx (offset c) 1 + scale c / 2)
       (idx (offset c) 2 + scale c / 2)"

definition Cell_numPoints :: "cell \<Rightarrow> jsnum" where
  "Cell_numPoints c = Fin (of_nat (length (data c))) / 6"

text \<open>A byte as an operand of arithmetic and of a bitwise operator; \<open>undefined\<close> past the end.\<close>

definition byte_num :: "byte list \<Rightarrow> nat \<Rightarrow> jsnum" where
  "byte_num d j = (if j < length d then Fin (of_nat (unat (d ! j))) else NaN)"

definition byte_int :: "byte list \<Rightarrow> nat \<Rightarrow> 32 word" where
  "byte_int d j = (if j < length d then ucast (d ! j) else 0)"

definition Cell_getPoint :: "(jsnum \<Rightarrow> jsnum) \<Rightarrow> cell \<Rightarrow> nat \<Rightarrow> farray" where
  "Cell_getPoint st c i =
     [st (byte_num (data c) (6 * i + 0) * scale c / 255 + idx (offset c) 0),
      st (byte_num (data c) (6 * i + 1) * scale c / 255 + idx (offset c) 1),
      st (byte_num (data c) (6 * i + 2) * scale c / 255 + idx (offset c) 2)]"

definition Cell_getPointInAlignedCamera :: "(jsnum \<Rightarrow> jsnum) \<Rightarrow> cell \<Rightarrow> nat \<Rightarrow> farray \<Rightarrow> farray" where
  "Cell_getPointInAlignedCamera st c i cam_position =
     [st (byte_num (data c) (6 * i + 0) * scale c / 255 + (idx (offset c) 0 - idx cam_position 0)),
      st (byte_num (data c) (6 * i + 1) * scale c / 255 + (idx (offset c) 1 - idx cam_position 1)),
      st (byte_num (data c) (6 * i + 2) * scale c / 255 + (idx (offset c) 2 - idx cam_position 2))]"

definition Cell_pickValid :: "cell \<Rightarrow> nat \<Rightarrow> bool" where
  "Cell_pickValid c i \<longleftrightarrow>
     (if byte_int (data c) (6 * i + 5) AND 1 = 1 then True
      else
        (let child = push_bit 2 (drop_bit 7 (byte_int (data c) (6 * i + 0))) AND
                     push_bit 1 (drop_bit 7 (byte_int (data c) (6 * i + 1))) AND
                     drop_bit 7 (byte_int (data c) (6 * i + 2))
         in if show_children c AND bit_mask (unat child) = 0 then True else False))"

section \<open>Drawing\<close>

record gl =
  next_buffer :: nat
  bound :: "nat option"
  contents :: "nat \<rightharpoonup> byte list"

record draw =
  u_show_children :: "bool list"
  u_override_color :: farray
  u_scale :: jsnum
  u_cameraToCellInWorld :: farray
  u_point_size_meters :: jsnum
  d_buffer :: "nat option"
  d_count :: jsnum

definition Cell_loadGL :: "gl \<Rightarrow> cell \<Rightarrow> gl \<times> cell" where
  "Cell_loadGL ctx c =
     (\<lparr>next_buffer = next_buffer ctx + 1, bound = Some (next_buffer ctx),
       contents = (contents ctx)(next_buffer ctx \<mapsto> data c)\<rparr>,
      c\<lparr>vbo := Some (next_buffer ctx)\<rparr>)"

definition MIN_POINT_SIZE :: jsnum where
  "MIN_POINT_SIZE = Fin 0.001"

text \<open>The camera position is what \<open>cam.getPosition()\<close> returns; a failed assertion throws.\<close>

definition Cell_render :: "(jsnum \<Rightarrow> jsnum) \<Rightarrow> farray \<Rightarrow> gl \<Rightarrow> cell \<Rightarrow> (draw \<times> gl) option" where
  "Cell_render st cam_position ctx c =
     (if vbo c = None then None
      else Some
        (\<lparr>u_show_children = map (\<lambda>i. show_children c AND bit_mask i \<noteq> 0) [0..<8],
          u_override_color = map (idx (override_color c)) [0..<3],
          u_scale = scale c,
          u_cameraToCellInWorld = V3_sub st (offset c) cam_position,
          u_point_size_meters = Math_max MIN_POINT_SIZE (scale c / 64),
          d_buffer = vbo c,
          d_count = Fin (of_nat (length (data c))) / 6\<rparr>,
         ctx\<lparr>bound := vbo c\<rparr>))"

section \<open>Children\<close>

lemma bit_mask_simps [simp]: "bit (bit_mask c) k \<longleftrightarrow> k = c mod 32"
  by (auto simp: bit_mask_def bit_exp_iff)

lemma mask_and_zero_iff: "c < 32 \<Longrightarrow> x AND bit_mask c = 0 \<longleftrightarrow> \<not> bit (x :: 32 word) c"
  using bit_iff_and_push_bit_not_eq_0 [of x c] by (simp add: bit_mask_def)

lemma Cell_hasChild_iff:
  assumes "i < 8"
  shows "Cell_hasChild c i \<longleftrightarrow> bit (children c) i"
proof -
  let ?x = "bit_mask i AND ucast (children c) :: 32 word"
  have "\<not> bit ?x 31" using assms by (simp add: bit_and_iff)
  then have "0 \<le> sint ?x" using bit_last_iff [of ?x] by (simp add: not_less)
  then have "0 < sint ?x \<longleftrightarrow> ?x \<noteq> 0" by (metis less_le signed_0 signed_eq_0_iff)
  moreover have "?x = 0 \<longleftrightarrow> \<not> bit (ucast (children c) :: 32 word) i"
    using assms mask_and_zero_iff [of i "ucast (children c)"] by (simp add: and.commute)
  ultimately show ?thesis using assms by (simp add: Cell_hasChild_def bit_ucast_iff)
qed

lemma foldl_count:
  "foldl (\<lambda>n i. if P i then n + 1 else n) k xs = k + length (filter P xs)"
  by (induction xs arbitrary: k) auto

lemma getNumChildren_filter: "Cell_getNumChildren c = length (filter (bit (children c)) [0..<8])"
proof -
  have "filter (Cell_hasChild c) [0..<8] = filter (bit (children c)) [0..<8]"
    by (rule filter_cong) (simp_all add: Cell_hasChild_iff)
  then show ?thesis unfolding Cell_getNumChildren_def foldl_count by simp
qed

lemma getNumChildren_card: "Cell_getNumChildren c = card {i. i < 8 \<and> bit (children c) i}"
proof -
  have "{i. i < 8 \<and> bit (children c) i} = set (filter (bit (children c)) [0..<8])" by auto
  then show ?thesis by (simp only: getNumChildren_filter distinct_card distinct_filter distinct_upt)
qed

lemma no_bits_zero: "(\<forall>i < 8. \<not> bit (x :: byte) i) \<longleftrightarrow> x = 0"
  by (auto simp: bit_eq_iff)

section \<open>Points\<close>

lemma byte_num_bounds:
  assumes "j < length d"
  obtains b where "byte_num d j = Fin b" "0 \<le> b" "b \<le> 255"
proof -
  have "unat (d ! j) < 2 ^ LENGTH(8)" by (rule unsigned_less)
  then have "unat (d ! j) \<le> 255" by simp
  then have "real (unat (d ! j)) \<le> real 255" by (simp only: of_nat_le_iff)
  moreover have "byte_num d j = Fin (real (unat (d ! j)))" using assms by (simp add: byte_num_def)
  ultimately show thesis using that of_nat_0_le_iff by (metis of_nat_numeral)
qed

text \<open>The interpolated coordinate \<open>b * s / 255 + a\<close> lies between \<open>a\<close> and \<open>a + s\<close>.\<close>

lemma interpolate_bounds:
  assumes "0 \<le> b" "b \<le> 255" "a \<le> h"
  shows "a \<le> b * (h - a) / 255 + a" "b * (h - a) / 255 + a \<le> (h :: real)"
proof -
  have "0 \<le> b * (h - a)" "b * (h - a) \<le> 255 * (h - a)"
    using assms mult_right_mono [of b 255 "h - a"] by simp_all
  then show "a \<le> b * (h - a) / 255 + a" "b * (h - a) / 255 + a \<le> h" by simp_all
qed

text \<open>All sides of the box have the length of the first.\<close>

definition cubic :: "geom \<Rightarrow> bool" where
  "cubic g \<longleftrightarrow> (\<forall>i < 3. idx (hi g) i - idx (lo g) i = idx (hi g) 0 - idx (lo g) 0)"

definition cell_of :: "(jsnum \<Rightarrow> jsnum) \<Rightarrow> geom \<Rightarrow> cell \<Rightarrow> bool" where
  "cell_of st g c \<longleftrightarrow> (\<exists>i buffer. Cell_new st i g buffer = Some c)"

lemma cell_ofD:
  assumes "cell_of st g c"
  shows "scale c = idx (hi g) 0 - idx (lo g) 0" "offset c = map st (lo g)"
    "radius c = scale c / 2 * ROOT3" "node_size c = scale c / 64" "geometry c = g"
proof -
  from assms obtain i buffer where b: "Cell_new st i g buffer = Some c"
    unfolding cell_of_def by blast
  then obtain b d where "buffer = b # d" by (cases buffer) (simp_all add: Cell_new_def)
  with b have "Cell_new st i g (b # d) = Some c" by simp
  then show "scale c = idx (hi g) 0 - idx (lo g) 0" "offset c = map st (lo g)"
    "radius c = scale c / 2 * ROOT3" "node_size c = scale c / 64" "geometry c = g"
    by (auto simp: Cell_new_def V3_clone_def Let_def)
qed

lemma getPoint_idx:
  "j < 3 \<Longrightarrow> idx (Cell_getPoint st c i) j =
     st (byte_num (data c) (6 * i + j) * scale c / 255 + idx (offset c) j)"
  by (drule axis_cases) (auto simp: Cell_getPoint_def)

context float_store begin

lemma getPoint_between:
  assumes g: "cell_of st g c" "cubic g" "length (lo g) = 3" and j: "j < 3"
    and ab: "idx (lo g) j = Fin a" "idx (hi g) j = Fin h" "a \<le> h" "stored (Fin a)" "stored (Fin h)"
    and i: "6 * i + j < length (data c)"
  obtains p where "idx (Cell_getPoint st c i) j = Fin p" "a \<le> p" "p \<le> h"
proof -
  note D = cell_ofD [OF g(1)]
  obtain b where b: "byte_num (data c) (6 * i + j) = Fin b" "0 \<le> b" "b \<le> 255"
    by (rule byte_num_bounds [OF i])
  have "idx (hi g) j - idx (lo g) j = idx (hi g) 0 - idx (lo g) 0"
    using g(2) j unfolding cubic_def by blast
  then have "scale c = Fin (h - a)" unfolding D(1) ab(1,2) by (metis minus_Fin)
  moreover have "idx (offset c) j = Fin a"
    using D(2) g(3) j ab(1,4) by (simp add: idx_map stored_def)
  ultimately have "idx (Cell_getPoint st c i) j = st (Fin (b * (h - a) / 255 + a))"
    unfolding getPoint_idx [OF j] b(1)
    by (simp only: times_jsnum.simps numeral_Fin divide_Fin_numeral plus_jsnum.simps)
  moreover obtain p where "st (Fin (b * (h - a) / 255 + a)) = Fin p" "a \<le> p" "p \<le> h"
    using interpolate_bounds [OF b(2,3) ab(3)] by (rule st_between_finite [OF ab(4,5)])
  ultimately show thesis using that by simp
qed

end

section \<open>The bounding sphere\<close>

lemma half_side_square:
  assumes "a \<le> x" "x \<le> a + (s :: real)"
  shows "(x - (a + s / 2)) * (x - (a + s / 2)) \<le> s / 2 * (s / 2)"
proof -
  have "\<bar>x - (a + s / 2)\<bar> \<le> s / 2" using assms by (simp add: abs_le_iff field_simps)
  moreover have "0 \<le> s / 2" using assms by simp
  ultimately have "\<bar>x - (a + s / 2)\<bar> * \<bar>x - (a + s / 2)\<bar> \<le> s / 2 * (s / 2)"
    by (intro mult_mono) (simp_all only: abs_ge_zero)
  then show ?thesis by (simp only: abs_mult_self_eq)
qed

lemma axis_in_real3 [simp]:
  "lo g = real3 a b c \<Longrightarrow> hi g = real3 a' b' c' \<Longrightarrow>
    in_box g p \<longleftrightarrow> a \<le> p 0 \<and> p 0 \<le> a' \<and> b \<le> p 1 \<and> p 1 \<le> b' \<and> c \<le> p 2 \<and> p 2 \<le> c'"
  by (auto simp: in_box_def axis_in_def dest: spec [of _ 0] spec [of _ 1] spec [of _ 2] axis_cases)

text \<open>A cubic box with exact corners, and the fields of its cell.\<close>

definition cube_at :: "real \<Rightarrow> real \<Rightarrow> real \<Rightarrow> real \<Rightarrow> geom \<Rightarrow> bool" where
  "cube_at a b c s g \<longleftrightarrow> lo g = real3 a b c \<and> hi g = real3 (a + s) (b + s) (c + s)"

lemma cell_of_cube:
  assumes "cell_of f64 g c" "cube_at x y z s g"
  shows "scale c = Fin s" "offset c = real3 x y z" "radius c = Fin (s / 2 * sqrt 3)"
    "Cell_getCenter f64 c = real3 (x + s / 2) (y + s / 2) (z + s / 2)" "node_size c = Fin (s / 64)"
proof -
  note D = cell_ofD [OF assms(1)]
  show sc: "scale c = Fin s" using D(1) assms(2) by (simp add: cube_at_def)
  show off: "offset c = real3 x y z" using D(2) assms(2) by (simp add: cube_at_def real3_def)
  show "radius c = Fin (s / 2 * sqrt 3)" using D(3) sc by (simp add: ROOT3_def)
  show "node_size c = Fin (s / 64)" using D(4) sc by simp
  show "Cell_getCenter f64 c = real3 (x + s / 2) (y + s / 2) (z + s / 2)"
    using sc off by (simp add: Cell_getCenter_def)
qed

section \<open>Properties\<close>

text \<open>C33. The first byte of a cell file says which children exist: \<open>hasChild(i)\<close> is bit \<open>i\<close> of it,
  \<open>getNumChildren\<close> counts the bits, and \<open>isLeaf\<close> holds exactly when there is none; the rest of the
  file are the points, and the id gives the parent's id and the octant.\<close>

theorem cell_from_file:
  assumes "Cell_new st (i @ [d]) g (b # points) = Some c"
  shows "(\<forall>k < 8. Cell_hasChild c k \<longleftrightarrow> bit b k) \<and>
           Cell_getNumChildren c = card {k. k < 8 \<and> bit b k} \<and>
           (Cell_isLeaf c \<longleftrightarrow> (\<forall>k < 8. \<not> Cell_hasChild c k)) \<and>
           data c = points \<and> parent_id c = i \<and>
           (\<forall>k < 10. d = char_of (48 + k) \<longrightarrow> which_child c = Some k)"
proof -
  from assms have c: "children c = b" "data c = points" "parent_id c = i"
      "which_child c = parse_digit [d]"
    by (auto simp: Cell_new_def Let_def)
  have "parse_digit [char_of (48 + k)] = Some k" if "k < (10 :: nat)" for k
    using that by (simp add: parse_digit_def take_bit_nat_def)
  with c show ?thesis
    by (simp add: Cell_hasChild_iff getNumChildren_card Cell_isLeaf_def no_bits_zero)
qed

lemma cell_from_file_witness:
  "\<exists>c. Cell_new f32 (''bun/f1'' @ [char_of (48 + 5 :: nat)]) unit_root (0x21 # [128, 0, 255, 9, 9, 1]) =
       Some c \<and>
     Cell_getNumChildren c = 2 \<and> which_child c = Some 5 \<and> parent_id c = ''bun/f1''"
proof -
  obtain c where c: "Cell_new f32 (''bun/f1'' @ [char_of (48 + 5 :: nat)]) unit_root
      (0x21 # [128, 0, 255, 9, 9, 1]) = Some c"
    by (simp add: Cell_new_def Let_def)
  have "{k. k < 8 \<and> bit (0x21 :: byte) k} = {0, 5}"
    by (auto simp: bit_numeral_rec numeral_eq_Suc less_Suc_eq)
  moreover have "card {0, 5 :: nat} = 2" by simp
  moreover have "(5 :: nat) < 10" by simp
  ultimately show ?thesis using cell_from_file [OF c] c by metis
qed


text \<open>The bounding sphere: in exact arithmetic every point of a cubic box is within the cell's
  \<open>radius\<close> of its centre, which is what the frustum test relies on.\<close>

theorem bounding_sphere:
  assumes "cell_of f64 g c" "cube_at x y z s g" "in_box g p"
  shows "V3_lengthSquared (V3_sub f64 (real3 (p 0) (p 1) (p 2)) (Cell_getCenter f64 c))
           \<le> radius c * radius c"
proof -
  note D = cell_of_cube [OF assms(1,2)]
  have "s / 2 * sqrt 3 * (s / 2 * sqrt 3) = s / 2 * (s / 2) + s / 2 * (s / 2) + s / 2 * (s / 2)"
    by simp
  moreover have "(p 0 - (x + s / 2)) * (p 0 - (x + s / 2)) \<le> s / 2 * (s / 2)"
      "(p 1 - (y + s / 2)) * (p 1 - (y + s / 2)) \<le> s / 2 * (s / 2)"
      "(p 2 - (z + s / 2)) * (p 2 - (z + s / 2)) \<le> s / 2 * (s / 2)"
    using assms(2,3) by (intro half_side_square; simp add: cube_at_def)+
  ultimately show ?thesis
    unfolding D(3,4) V3_real3 times_jsnum.simps less_eq_jsnum.simps by linarith
qed

text \<open>\<open>pickValid\<close> does not look at the octant of the point: the three bits are combined with \<open>&\<close>
  although no two of them can be in the same place, so the octant is always 0 and a summary point is
  rejected exactly when child 0 is shown.\<close>

theorem pick_valid_ignores_octant:
  "Cell_pickValid c i \<longleftrightarrow>
     bit (byte_int (data c) (6 * i + 5)) 0 \<or> \<not> bit (show_children c) 0"
proof -
  have small: "\<not> bit (drop_bit 7 (byte_int d j)) k" if "0 < k" for d j k
    using that by (auto simp: byte_int_def bit_simps dest: bit_imp_le_length)
  have "push_bit 2 (drop_bit 7 (byte_int d j)) AND push_bit 1 (drop_bit 7 (byte_int d j')) AND
      drop_bit 7 (byte_int d j'') = 0" for d j j' j''
    by (rule bit_eqI) (auto simp: bit_and_iff bit_push_bit_iff small)
  then show ?thesis
    using mask_and_zero_iff [of 0 "show_children c"]
    by (simp add: Cell_pickValid_def and_one_eq odd_iff_mod_2_eq_one [symmetric] bit_0)
qed

text \<open>A cell is drawn from its own data: \<open>render\<close> throws before \<open>loadGL\<close>, and after it draws the
  bytes of the cell as \<open>numPoints\<close> vertices, with the flags of the shown children.\<close>

theorem render_after_load:
  assumes "vbo c = None" "Cell_loadGL ctx c = (ctx', c')"
  shows "Cell_render st p ctx c = None \<and>
           (\<exists>d ctx'' b. Cell_render st p ctx' c' = Some (d, ctx'') \<and> bound ctx'' = Some b \<and>
              d_buffer d = Some b \<and> contents ctx'' b = Some (data c) \<and> d_count d = Cell_numPoints c \<and>
              u_show_children d = map (bit (show_children c)) [0..<8])"
proof -
  have c': "ctx' = \<lparr>next_buffer = next_buffer ctx + 1, bound = Some (next_buffer ctx),
       contents = (contents ctx)(next_buffer ctx \<mapsto> data c)\<rparr>" "c' = c\<lparr>vbo := Some (next_buffer ctx)\<rparr>"
    using assms(2) by (simp_all add: Cell_loadGL_def)
  have "map (\<lambda>i. show_children c AND bit_mask i \<noteq> 0) [0..<8] = map (bit (show_children c)) [0..<8]"
    by (rule map_cong) (simp_all add: mask_and_zero_iff)
  then show ?thesis
    using assms(1) unfolding c' by (simp add: Cell_render_def Cell_numPoints_def)
qed

text \<open>A cell of the unit cube with one point and the child 0.\<close>

definition demo_cell :: cell where
  "demo_cell = the (Cell_new f32 ''t/f1'' unit_root [1, 128, 0, 255, 9, 9, 1])"

lemma demo_cell_of: "cell_of f32 unit_root demo_cell"
  unfolding cell_of_def
  by (intro exI [of _ "''t/f1''"] exI [of _ "[1, 128, 0, 255, 9, 9, 1]"])
    (simp add: demo_cell_def Cell_new_def Let_def)

text \<open>Child 7 is shown, and the summary point of its octant is accepted.\<close>

lemma pick_valid_witness:
  "Cell_pickValid (demo_cell\<lparr>data := [255, 255, 255, 9, 9, 0], show_children := 0x80\<rparr>) 0"
  unfolding pick_valid_ignores_octant by simp


lemma bounding_sphere_witness:
  "\<exists>c. cell_of f64 unit_root c \<and>
     V3_lengthSquared (V3_sub f64 (real3 1 1 0) (Cell_getCenter f64 c)) \<le> radius c * radius c"
proof -
  obtain c where "Cell_new f64 ''t/f1'' unit_root [0] = Some c" by (simp add: Cell_new_def Let_def)
  then have c: "cell_of f64 unit_root c" by (auto simp: cell_of_def)
  have g: "cube_at 0 0 0 1 unit_root"
    by (simp add: cube_at_def unit_root_def NodeGeometry_def real3_def)
  have "in_box unit_root ((!) [1, 1, 0])"
    using g by (simp add: cube_at_def)
  from bounding_sphere [OF c g this] c show ?thesis by auto
qed

lemma render_after_load_witness:
  "\<exists>ctx' c'. Cell_loadGL \<lparr>next_buffer = 0, bound = None, contents = Map.empty\<rparr> demo_cell = (ctx', c') \<and>
     (\<exists>d ctx'' b. Cell_render f32 [Fin 0, Fin 0, Fin 0] ctx' c' = Some (d, ctx'') \<and>
        contents ctx'' b = Some [128, 0, 255, 9, 9, 1])"
proof -
  obtain ctx' c' where l: "Cell_loadGL \<lparr>next_buffer = 0, bound = None, contents = Map.empty\<rparr> demo_cell =
      (ctx', c')" by fastforce
  have "vbo demo_cell = None" "data demo_cell = [128, 0, 255, 9, 9, 1]"
    by (simp_all add: demo_cell_def Cell_new_def Let_def)
  with render_after_load [OF _ l] l show ?thesis by metis
qed

end
