(* ===== verification/Matrices.thy ===== *)
theory Matrices
  imports Vectors
begin

text \<open>
  The matrices of \<open>js/mjs.js\<close> (\<open>M4x4\<close>, \<open>M3x3\<close>): sixteen (nine) numbers in column order. As in
  \<open>Vectors\<close>, \<open>st\<close> is the conversion of the array type and the result list stands for the array \<open>r\<close>,
  fresh or given. Functions that treat \<open>r == m\<close> in a branch of its own take that condition as the
  argument \<open>r_is_m\<close>; the list is then the new contents of \<open>m\<close>.

  The lemmas are about matrices of finite numbers kept exactly (\<open>f64\<close>): multiplication is
  associative with the identity \<open>I\<close>, the inverse is a two-sided inverse and throws exactly when the
  determinant is zero, \<open>translate\<close>, \<open>scale\<close> and \<open>rotate\<close> are multiplications with the matrices that
  \<open>makeTranslate\<close>, \<open>makeScale\<close> and \<open>makeRotate\<close> build, and \<open>makeLookAt\<close> is a rigid motion that takes
  the eye to the origin and the centre onto the negative z axis.
\<close>

section \<open>The operations of M4x4 and M3x3\<close>

definition M4x4_I :: farray where
  "M4x4_I =
     [1, 0, 0, 0,
      0, 1, 0, 0,
      0, 0, 1, 0,
      0, 0, 0, 1]"

definition M4x4_clone :: "(jsnum \<Rightarrow> jsnum) \<Rightarrow> farray \<Rightarrow> farray" where
  "M4x4_clone st m = map st m"

definition M4x4_topLeft3x3 ::
    "(jsnum \<Rightarrow> jsnum) \<Rightarrow> farray \<Rightarrow> farray" where
  "M4x4_topLeft3x3 st m =
     map st
        [idx m 0, idx m 1, idx m 2,
         idx m 4, idx m 5, idx m 6,
         idx m 8, idx m 9, idx m 10]"

text \<open>Swapping two elements through a variable, \<open>tmp = m[i]; m[i] = m[j]; m[j] = tmp\<close>.\<close>

definition swap_idx :: "(jsnum \<Rightarrow> jsnum) \<Rightarrow> nat \<Rightarrow> nat \<Rightarrow> farray \<Rightarrow> farray" where
  "swap_idx st i j m = m[i := st (idx m j), j := st (idx m i)]"

definition M4x4_transposeSelf ::
    "(jsnum \<Rightarrow> jsnum) \<Rightarrow> farray \<Rightarrow> farray" where
  "M4x4_transposeSelf st m =
     (let m = swap_idx st 1 4 m;
           m = swap_idx st 2 8 m;
           m = swap_idx st 3 12 m;
           m = swap_idx st 6 9 m;
           m = swap_idx st 7 13 m;
           m = swap_idx st 11 14 m
       in m)"

definition M4x4_transpose ::
    "(jsnum \<Rightarrow> jsnum) \<Rightarrow> bool \<Rightarrow> farray \<Rightarrow> farray" where
  "M4x4_transpose st r_is_m m =
     (if r_is_m then
      (let m = swap_idx st 1 4 m;
           m = swap_idx st 2 8 m;
           m = swap_idx st 3 12 m;
           m = swap_idx st 6 9 m;
           m = swap_idx st 7 13 m;
           m = swap_idx st 11 14 m
       in m)
      else map st
        [idx m 0, idx m 4, idx m 8, idx m 12,
         idx m 1, idx m 5, idx m 9, idx m 13,
         idx m 2, idx m 6, idx m 10, idx m 14,
         idx m 3, idx m 7, idx m 11, idx m 15])"

definition M3x3_transpose ::
    "(jsnum \<Rightarrow> jsnum) \<Rightarrow> bool \<Rightarrow> farray \<Rightarrow> farray" where
  "M3x3_transpose st r_is_m m =
     (if r_is_m then
      (let m = swap_idx st 1 3 m;
           m = swap_idx st 2 6 m;
           m = swap_idx st 5 7 m
       in m)
      else map st
        [idx m 0, idx m 3, idx m 6,
         idx m 1, idx m 4, idx m 7,
         idx m 2, idx m 5, idx m 8])"

text \<open>The translation part is overwritten in the transposed matrix \<open>r\<close>.\<close>

definition M4x4_inverseOrthonormal ::
    "(jsnum \<Rightarrow> jsnum) \<Rightarrow> farray \<Rightarrow> farray" where
  "M4x4_inverseOrthonormal st m =
     (let r = M4x4_transpose st False m;
          t = [idx m 12, idx m 13, idx m 14];
          r = r[3 := st 0, 7 := st 0, 11 := st 0];
          r = r[12 := st (- V3_dot [idx r 0, idx r 4, idx r 8] t)];
          r = r[13 := st (- V3_dot [idx r 1, idx r 5, idx r 9] t)];
          r = r[14 := st (- V3_dot [idx r 2, idx r 6, idx r 10] t)]
      in r)"

text \<open>
  The inverse: the adjugate is stored into \<open>r\<close> before the determinant is computed from
  what was stored; a zero determinant throws (\<open>None\<close>).
\<close>

definition M4x4_adjugate ::
    "(jsnum \<Rightarrow> jsnum) \<Rightarrow> farray \<Rightarrow> farray" where
  "M4x4_adjugate st m =
     map st
        [idx m 5 * idx m 10 * idx m 15 - idx m 5 * idx m 11 * idx m 14
                - idx m 9 * idx m 6 * idx m 15 + idx m 9 * idx m 7 * idx m 14
                + idx m 13 * idx m 6 * idx m 11 - idx m 13 * idx m 7 * idx m 10,
         - idx m 1 * idx m 10 * idx m 15 + idx m 1 * idx m 11 * idx m 14
                + idx m 9 * idx m 2 * idx m 15 - idx m 9 * idx m 3 * idx m 14
                - idx m 13 * idx m 2 * idx m 11 + idx m 13 * idx m 3 * idx m 10,
         idx m 1 * idx m 6 * idx m 15 - idx m 1 * idx m 7 * idx m 14
                - idx m 5 * idx m 2 * idx m 15 + idx m 5 * idx m 3 * idx m 14
                + idx m 13 * idx m 2 * idx m 7 - idx m 13 * idx m 3 * idx m 6,
         - idx m 1 * idx m 6 * idx m 11 + idx m 1 * idx m 7 * idx m 10
                + idx m 5 * idx m 2 * idx m 11 - idx m 5 * idx m 3 * idx m 10
                - idx m 9 * idx m 2 * idx m 7 + idx m 9 * idx m 3 * idx m 6,
         - idx m 4 * idx m 10 * idx m 15 + idx m 4 * idx m 11 * idx m 14
                + idx m 8 * idx m 6 * idx m 15 - idx m 8 * idx m 7 * idx m 14
                - idx m 12 * idx m 6 * idx m 11 + idx m 12 * idx m 7 * idx m 10,
         idx m 0 * idx m 10 * idx m 15 - idx m 0 * idx m 11 * idx m 14
                - idx m 8 * idx m 2 * idx m 15 + idx m 8 * idx m 3 * idx m 14
                + idx m 12 * idx m 2 * idx m 11 - idx m 12 * idx m 3 * idx m 10,
         - idx m 0 * idx m 6 * idx m 15 + idx m 0 * idx m 7 * idx m 14
                + idx m 4 * idx m 2 * idx m 15 - idx m 4 * idx m 3 * idx m 14
                - idx m 12 * idx m 2 * idx m 7 + idx m 12 * idx m 3 * idx m 6,
         idx m 0 * idx m 6 * idx m 11 - idx m 0 * idx m 7 * idx m 10
                - idx m 4 * idx m 2 * idx m 11 + idx m 4 * idx m 3 * idx m 10
                + idx m 8 * idx m 2 * idx m 7 - idx m 8 * idx m 3 * idx m 6,
         idx m 4 * idx m 9 * idx m 15 - idx m 4 * idx m 11 * idx m 13
                - idx m 8 * idx m 5 * idx m 15 + idx m 8 * idx m 7 * idx m 13
                + idx m 12 * idx m 5 * idx m 11 - idx m 12 * idx m 7 * idx m 9,
         - idx m 0 * idx m 9 * idx m 15 + idx m 0 * idx m 11 * idx m 13
                + idx m 8 * idx m 1 * idx m 15 - idx m 8 * idx m 3 * idx m 13
                - idx m 12 * idx m 1 * idx m 11 + idx m 12 * idx m 3 * idx m 9,
         idx m 0 * idx m 5 * idx m 15 - idx m 0 * idx m 7 * idx m 13
                - idx m 4 * idx m 1 * idx m 15 + idx m 4 * idx m 3 * idx m 13
                + idx m 12 * idx m 1 * idx m 7 - idx m 12 * idx m 3 * idx m 5,
         - idx m 0 * idx m 5 * idx m 11 + idx m 0 * idx m 7 * idx m 9
                + idx m 4 * idx m 1 * idx m 11 - idx m 4 * idx m 3 * idx m 9
                - idx m 8 * idx m 1 * idx m 7 + idx m 8 * idx m 3 * idx m 5,
         - idx m 4 * idx m 9 * idx m 14 + idx m 4 * idx m 10 * idx m 13
                + idx m 8 * idx m 5 * idx m 14 - idx m 8 * idx m 6 * idx m 13
                - idx m 12 * idx m 5 * idx m 10 + idx m 12 * idx m 6 * idx m 9,
         idx m 0 * idx m 9 * idx m 14 - idx m 0 * idx m 10 * idx m 13
                - idx m 8 * idx m 1 * idx m 14 + idx m 8 * idx m 2 * idx m 13
                + idx m 12 * idx m 1 * idx m 10 - idx m 12 * idx m 2 * idx m 9,
         - idx m 0 * idx m 5 * idx m 14 + idx m 0 * idx m 6 * idx m 13
                + idx m 4 * idx m 1 * idx m 14 - idx m 4 * idx m 2 * idx m 13
                - idx m 12 * idx m 1 * idx m 6 + idx m 12 * idx m 2 * idx m 5,
         idx m 0 * idx m 5 * idx m 10 - idx m 0 * idx m 6 * idx m 9
                - idx m 4 * idx m 1 * idx m 10 + idx m 4 * idx m 2 * idx m 9
                + idx m 8 * idx m 1 * idx m 6 - idx m 8 * idx m 2 * idx m 5]"

definition M4x4_inverse ::
    "(jsnum \<Rightarrow> jsnum) \<Rightarrow> farray \<Rightarrow> farray option" where
  "M4x4_inverse st m =
     (let r = M4x4_adjugate st m;
          det = idx m 0 * idx r 0 + idx m 1 * idx r 4 + idx m 2 * idx r 8 + idx m 3 * idx r 12
      in if js_eq det 0 then None
         else (let idet = 1 / det in Some (map (\<lambda>x. st (idet * x)) r)))"

definition M4x4_inverseTo3x3 ::
    "(jsnum \<Rightarrow> jsnum) \<Rightarrow> farray \<Rightarrow> farray option" where
  "M4x4_inverseTo3x3 st m =
     (let a11 = idx m 10 * idx m 5 - idx m 6 * idx m 9;
          a21 = - idx m 10 * idx m 1 + idx m 2 * idx m 9;
          a31 = idx m 6 * idx m 1 - idx m 2 * idx m 5;
          a12 = - idx m 10 * idx m 4 + idx m 6 * idx m 8;
          a22 = idx m 10 * idx m 0 - idx m 2 * idx m 8;
          a32 = - idx m 6 * idx m 0 + idx m 2 * idx m 4;
          a13 = idx m 9 * idx m 4 - idx m 5 * idx m 8;
          a23 = - idx m 9 * idx m 0 + idx m 1 * idx m 8;
          a33 = idx m 5 * idx m 0 - idx m 1 * idx m 4;
          det = idx m 0 * a11 + idx m 1 * a12 + idx m 2 * a13
      in if js_eq det 0 then None
         else (let idet = 1 / det
               in Some (map st
                   [idet * a11, idet * a21, idet * a31,
                    idet * a12, idet * a22, idet * a32,
                    idet * a13, idet * a23, idet * a33])))"

definition M4x4_makeFrustum ::
    "(jsnum \<Rightarrow> jsnum) \<Rightarrow> jsnum \<Rightarrow> jsnum \<Rightarrow> jsnum \<Rightarrow> jsnum \<Rightarrow> jsnum \<Rightarrow> jsnum \<Rightarrow> farray" where
  "M4x4_makeFrustum st left right bottom top' znear zfar =
     map st
        [2 * znear / (right - left),
         0,
         0,
         0,
         0,
         2 * znear / (top' - bottom),
         0,
         0,
         (right + left) / (right - left),
         (top' + bottom) / (top' - bottom),
         - (zfar + znear) / (zfar - znear),
         - 1,
         0,
         0,
         - 2 * zfar * znear / (zfar - znear),
         0]"

definition M4x4_makePerspectiveToZero ::
    "(jsnum \<Rightarrow> jsnum) \<Rightarrow> jsnum \<Rightarrow> jsnum \<Rightarrow> jsnum \<Rightarrow> jsnum \<Rightarrow> farray" where
  "M4x4_makePerspectiveToZero st fov width height near =
     (let a = height / width; e = 1 / Math_tan (fov * Math_PI / 360)
      in map st
        [e, 0, 0, 0,
         0, e / a, 0, 0,
         0, 0, 0, - 1,
         0, 0, - near, 0])"

definition M4x4_makePerspective ::
    "(jsnum \<Rightarrow> jsnum) \<Rightarrow> jsnum \<Rightarrow> jsnum \<Rightarrow> jsnum \<Rightarrow> jsnum \<Rightarrow> farray" where
  "M4x4_makePerspective st fovy aspect znear zfar =
     (let ymax = znear * Math_tan (fovy * Math_PI / 360); ymin = - ymax; xmin = ymin * aspect;
          xmax = ymax * aspect
      in M4x4_makeFrustum st xmin xmax ymin ymax znear zfar)"

definition M4x4_makeOrtho ::
    "(jsnum \<Rightarrow> jsnum) \<Rightarrow> jsnum \<Rightarrow> jsnum \<Rightarrow> jsnum \<Rightarrow> jsnum \<Rightarrow> jsnum \<Rightarrow> jsnum \<Rightarrow> farray" where
  "M4x4_makeOrtho st left right bottom top' znear zfar =
     map st
        [2 / (right - left),
         0,
         0,
         0,
         0,
         2 / (top' - bottom),
         0,
         0,
         0,
         0,
         - 2 / (zfar - znear),
         0,
         - (right + left) / (right - left),
         - (top' + bottom) / (top' - bottom),
         - (zfar + znear) / (zfar - znear),
         1]"

definition M4x4_makeOrtho2D ::
    "(jsnum \<Rightarrow> jsnum) \<Rightarrow> jsnum \<Rightarrow> jsnum \<Rightarrow> jsnum \<Rightarrow> jsnum \<Rightarrow> farray" where
  "M4x4_makeOrtho2D st left right bottom top' =
     M4x4_makeOrtho st left right bottom top' (- 1) 1"

definition M4x4_mul ::
    "(jsnum \<Rightarrow> jsnum) \<Rightarrow> farray \<Rightarrow> farray \<Rightarrow> farray" where
  "M4x4_mul st a b =
     (let a11 = idx a 0; a21 = idx a 1; a31 = idx a 2; a41 = idx a 3; a12 = idx a 4;
          a22 = idx a 5; a32 = idx a 6; a42 = idx a 7; a13 = idx a 8; a23 = idx a 9;
          a33 = idx a 10; a43 = idx a 11; a14 = idx a 12; a24 = idx a 13; a34 = idx a 14;
          a44 = idx a 15; b11 = idx b 0; b21 = idx b 1; b31 = idx b 2; b41 = idx b 3;
          b12 = idx b 4; b22 = idx b 5; b32 = idx b 6; b42 = idx b 7; b13 = idx b 8;
          b23 = idx b 9; b33 = idx b 10; b43 = idx b 11; b14 = idx b 12; b24 = idx b 13;
          b34 = idx b 14; b44 = idx b 15
      in map st
        [a11 * b11 + a12 * b21 + a13 * b31 + a14 * b41,
         a21 * b11 + a22 * b21 + a23 * b31 + a24 * b41,
         a31 * b11 + a32 * b21 + a33 * b31 + a34 * b41,
         a41 * b11 + a42 * b21 + a43 * b31 + a44 * b41,
         a11 * b12 + a12 * b22 + a13 * b32 + a14 * b42,
         a21 * b12 + a22 * b22 + a23 * b32 + a24 * b42,
         a31 * b12 + a32 * b22 + a33 * b32 + a34 * b42,
         a41 * b12 + a42 * b22 + a43 * b32 + a44 * b42,
         a11 * b13 + a12 * b23 + a13 * b33 + a14 * b43,
         a21 * b13 + a22 * b23 + a23 * b33 + a24 * b43,
         a31 * b13 + a32 * b23 + a33 * b33 + a34 * b43,
         a41 * b13 + a42 * b23 + a43 * b33 + a44 * b43,
         a11 * b14 + a12 * b24 + a13 * b34 + a14 * b44,
         a21 * b14 + a22 * b24 + a23 * b34 + a24 * b44,
         a31 * b14 + a32 * b24 + a33 * b34 + a34 * b44,
         a41 * b14 + a42 * b24 + a43 * b34 + a44 * b44])"

text \<open>
  An assignment past the end of a typed array, or at an index that is not a number (\<open>None\<close>), is
  ignored; \<open>write_at\<close> stores the elements from an offset on.
\<close>

definition write_at :: "(jsnum \<Rightarrow> jsnum) \<Rightarrow> farray \<Rightarrow> nat option \<Rightarrow> farray \<Rightarrow> farray" where
  "write_at st r o' xs =
     (case o' of None \<Rightarrow> r
      | Some k \<Rightarrow> foldl (\<lambda>r (i, x). r[k + i := st x]) r (enumerate 0 xs))"

text \<open>
  \<open>mulOffset\<close> reads the variable \<open>a11\<close>, which it does not declare: the value of a global of that name,
  or a ReferenceError (\<open>None\<close>) when there is none.
\<close>

definition M4x4_mulOffset ::
    "(string \<rightharpoonup> jsnum) \<Rightarrow> (jsnum \<Rightarrow> jsnum) \<Rightarrow> farray \<Rightarrow> farray \<Rightarrow> farray \<Rightarrow> nat option \<Rightarrow> farray option" where
  "M4x4_mulOffset globals st a b r o' =
     (let a21 = idx a 1; a31 = idx a 2; a41 = idx a 3; a12 = idx a 4; a22 = idx a 5;
          a32 = idx a 6; a42 = idx a 7; a13 = idx a 8; a23 = idx a 9; a33 = idx a 10;
          a43 = idx a 11; a14 = idx a 12; a24 = idx a 13; a34 = idx a 14; a44 = idx a 15;
          b11 = idx b 0; b21 = idx b 1; b31 = idx b 2; b41 = idx b 3; b12 = idx b 4;
          b22 = idx b 5; b32 = idx b 6; b42 = idx b 7; b13 = idx b 8; b23 = idx b 9;
          b33 = idx b 10; b43 = idx b 11; b14 = idx b 12; b24 = idx b 13; b34 = idx b 14;
          b44 = idx b 15
      in case globals ''a11'' of None \<Rightarrow> None
         | Some a11 \<Rightarrow> Some (write_at st r o'
              [a11 * b11 + a12 * b21 + a13 * b31 + a14 * b41,
               a21 * b11 + a22 * b21 + a23 * b31 + a24 * b41,
               a31 * b11 + a32 * b21 + a33 * b31 + a34 * b41,
               a41 * b11 + a42 * b21 + a43 * b31 + a44 * b41,
               a11 * b12 + a12 * b22 + a13 * b32 + a14 * b42,
               a21 * b12 + a22 * b22 + a23 * b32 + a24 * b42,
               a31 * b12 + a32 * b22 + a33 * b32 + a34 * b42,
               a41 * b12 + a42 * b22 + a43 * b32 + a44 * b42,
               a11 * b13 + a12 * b23 + a13 * b33 + a14 * b43,
               a21 * b13 + a22 * b23 + a23 * b33 + a24 * b43,
               a31 * b13 + a32 * b23 + a33 * b33 + a34 * b43,
               a41 * b13 + a42 * b23 + a43 * b33 + a44 * b43,
               a11 * b14 + a12 * b24 + a13 * b34 + a14 * b44,
               a21 * b14 + a22 * b24 + a23 * b34 + a24 * b44,
               a31 * b14 + a32 * b24 + a33 * b34 + a34 * b44,
               a41 * b14 + a42 * b24 + a43 * b34 + a44 * b44]))"

text \<open>
  \<open>mulAffine\<close> is assigned twice; the first function (\<open>mulAffine_first\<close>) is lost, and callers get the
  second one, which takes an offset as its fourth argument.
\<close>

definition M4x4_mulAffine_first ::
    "(jsnum \<Rightarrow> jsnum) \<Rightarrow> farray \<Rightarrow> farray \<Rightarrow> farray" where
  "M4x4_mulAffine_first st a b =
     (let a11 = idx a 0; a21 = idx a 1; a31 = idx a 2; a12 = idx a 4; a22 = idx a 5;
          a32 = idx a 6; a13 = idx a 8; a23 = idx a 9; a33 = idx a 10; a14 = idx a 12;
          a24 = idx a 13; a34 = idx a 14; b11 = idx b 0; b21 = idx b 1; b31 = idx b 2;
          b12 = idx b 4; b22 = idx b 5; b32 = idx b 6; b13 = idx b 8; b23 = idx b 9;
          b33 = idx b 10; b14 = idx b 12; b24 = idx b 13; b34 = idx b 14
      in map st
        [a11 * b11 + a12 * b21 + a13 * b31,
         a21 * b11 + a22 * b21 + a23 * b31,
         a31 * b11 + a32 * b21 + a33 * b31,
         0,
         a11 * b12 + a12 * b22 + a13 * b32,
         a21 * b12 + a22 * b22 + a23 * b32,
         a31 * b12 + a32 * b22 + a33 * b32,
         0,
         a11 * b13 + a12 * b23 + a13 * b33,
         a21 * b13 + a22 * b23 + a23 * b33,
         a31 * b13 + a32 * b23 + a33 * b33,
         0,
         a11 * b14 + a12 * b24 + a13 * b34 + a14,
         a21 * b14 + a22 * b24 + a23 * b34 + a24,
         a31 * b14 + a32 * b24 + a33 * b34 + a34,
         1])"

definition M4x4_mulAffine ::
    "(jsnum \<Rightarrow> jsnum) \<Rightarrow> farray \<Rightarrow> farray \<Rightarrow> farray option \<Rightarrow> nat option \<Rightarrow> farray" where
  "M4x4_mulAffine st a b r o' =
     (let r = (case r of None \<Rightarrow> replicate 16 0 | Some r \<Rightarrow> r);
          a11 = idx a 0; a21 = idx a 1; a31 = idx a 2; a12 = idx a 4; a22 = idx a 5;
          a32 = idx a 6; a13 = idx a 8; a23 = idx a 9; a33 = idx a 10; a14 = idx a 12;
          a24 = idx a 13; a34 = idx a 14; b11 = idx b 0; b21 = idx b 1; b31 = idx b 2;
          b12 = idx b 4; b22 = idx b 5; b32 = idx b 6; b13 = idx b 8; b23 = idx b 9;
          b33 = idx b 10; b14 = idx b 12; b24 = idx b 13; b34 = idx b 14
      in write_at st r o'
         [a11 * b11 + a12 * b21 + a13 * b31,
          a21 * b11 + a22 * b21 + a23 * b31,
          a31 * b11 + a32 * b21 + a33 * b31,
          0,
          a11 * b12 + a12 * b22 + a13 * b32,
          a21 * b12 + a22 * b22 + a23 * b32,
          a31 * b12 + a32 * b22 + a33 * b32,
          0,
          a11 * b13 + a12 * b23 + a13 * b33,
          a21 * b13 + a22 * b23 + a23 * b33,
          a31 * b13 + a32 * b23 + a33 * b33,
          0,
          a11 * b14 + a12 * b24 + a13 * b34 + a14,
          a21 * b14 + a22 * b24 + a23 * b34 + a24,
          a31 * b14 + a32 * b24 + a33 * b34 + a34,
          1])"

definition M4x4_makeRotate ::
    "(jsnum \<Rightarrow> jsnum) \<Rightarrow> jsnum \<Rightarrow> farray \<Rightarrow> farray" where
  "M4x4_makeRotate st angle axis =
     (let axis = V3_normalize st axis; x = idx axis 0; y = idx axis 1; z = idx axis 2;
          c = Math_cos angle; c1 = 1 - c; s = Math_sin angle
      in map st
        [x * x * c1 + c,
         y * x * c1 + z * s,
         z * x * c1 - y * s,
         0,
         x * y * c1 - z * s,
         y * y * c1 + c,
         y * z * c1 + x * s,
         0,
         x * z * c1 + y * s,
         y * z * c1 - x * s,
         z * z * c1 + c,
         0,
         0,
         0,
         0,
         1])"

definition M4x4_rotate ::
    "(jsnum \<Rightarrow> jsnum) \<Rightarrow> bool \<Rightarrow> jsnum \<Rightarrow> farray \<Rightarrow> farray \<Rightarrow> farray" where
  "M4x4_rotate st r_is_m angle axis m =
     (let a0 = idx axis 0; a1 = idx axis 1; a2 = idx axis 2;
          l = Math_sqrt (a0 * a0 + a1 * a1 + a2 * a2); x = a0; y = a1; z = a2; im = 1 / l;
          x = (if \<not> js_eq l 1 then x * im else x);
          y = (if \<not> js_eq l 1 then y * im else y);
          z = (if \<not> js_eq l 1 then z * im else z); c = Math_cos angle; c1 = 1 - c;
          s = Math_sin angle; xs = x * s; ys = y * s; zs = z * s; xyc1 = x * y * c1;
          xzc1 = x * z * c1; yzc1 = y * z * c1; m11 = idx m 0; m21 = idx m 1; m31 = idx m 2;
          m41 = idx m 3; m12 = idx m 4; m22 = idx m 5; m32 = idx m 6; m42 = idx m 7;
          m13 = idx m 8; m23 = idx m 9; m33 = idx m 10; m43 = idx m 11; t11 = x * x * c1 + c;
          t21 = xyc1 + zs; t31 = xzc1 - ys; t12 = xyc1 - zs; t22 = y * y * c1 + c;
          t32 = yzc1 + xs; t13 = xzc1 + ys; t23 = yzc1 - xs; t33 = z * z * c1 + c
      in map st
        [m11 * t11 + m12 * t21 + m13 * t31,
         m21 * t11 + m22 * t21 + m23 * t31,
         m31 * t11 + m32 * t21 + m33 * t31,
         m41 * t11 + m42 * t21 + m43 * t31,
         m11 * t12 + m12 * t22 + m13 * t32,
         m21 * t12 + m22 * t22 + m23 * t32,
         m31 * t12 + m32 * t22 + m33 * t32,
         m41 * t12 + m42 * t22 + m43 * t32,
         m11 * t13 + m12 * t23 + m13 * t33,
         m21 * t13 + m22 * t23 + m23 * t33,
         m31 * t13 + m32 * t23 + m33 * t33,
         m41 * t13 + m42 * t23 + m43 * t33] @
        (if r_is_m then drop 12 m else map st [idx m 12, idx m 13, idx m 14, idx m 15]))"

definition M4x4_makeScale3 ::
    "(jsnum \<Rightarrow> jsnum) \<Rightarrow> jsnum \<Rightarrow> jsnum \<Rightarrow> jsnum \<Rightarrow> farray" where
  "M4x4_makeScale3 st x y z =
     map st
        [x, 0, 0, 0,
         0, y, 0, 0,
         0, 0, z, 0,
         0, 0, 0, 1]"

definition M4x4_makeScale1 ::
    "(jsnum \<Rightarrow> jsnum) \<Rightarrow> jsnum \<Rightarrow> farray" where
  "M4x4_makeScale1 st k =
     M4x4_makeScale3 st k k k"

definition M4x4_makeScale ::
    "(jsnum \<Rightarrow> jsnum) \<Rightarrow> farray \<Rightarrow> farray" where
  "M4x4_makeScale st v =
     M4x4_makeScale3 st (idx v 0) (idx v 1) (idx v 2)"

definition M4x4_scale3 ::
    "(jsnum \<Rightarrow> jsnum) \<Rightarrow> bool \<Rightarrow> jsnum \<Rightarrow> jsnum \<Rightarrow> jsnum \<Rightarrow> farray \<Rightarrow> farray" where
  "M4x4_scale3 st r_is_m x y z m =
     (if r_is_m then
        map st
          [idx m 0 * x, idx m 1 * x, idx m 2 * x, idx m 3 * x,
           idx m 4 * y, idx m 5 * y, idx m 6 * y, idx m 7 * y,
           idx m 8 * z, idx m 9 * z, idx m 10 * z, idx m 11 * z] @ drop 12 m
      else map st
        [idx m 0 * x, idx m 1 * x, idx m 2 * x, idx m 3 * x,
         idx m 4 * y, idx m 5 * y, idx m 6 * y, idx m 7 * y,
         idx m 8 * z, idx m 9 * z, idx m 10 * z, idx m 11 * z,
         idx m 12, idx m 13, idx m 14, idx m 15])"

definition M4x4_scale1 ::
    "(jsnum \<Rightarrow> jsnum) \<Rightarrow> bool \<Rightarrow> jsnum \<Rightarrow> farray \<Rightarrow> farray" where
  "M4x4_scale1 st r_is_m k m =
     (if r_is_m then
        map st
          [idx m 0 * k, idx m 1 * k, idx m 2 * k, idx m 3 * k,
           idx m 4 * k, idx m 5 * k, idx m 6 * k, idx m 7 * k,
           idx m 8 * k, idx m 9 * k, idx m 10 * k, idx m 11 * k] @ drop 12 m
      else map st
        [idx m 0 * k, idx m 1 * k, idx m 2 * k, idx m 3 * k,
         idx m 4 * k, idx m 5 * k, idx m 6 * k, idx m 7 * k,
         idx m 8 * k, idx m 9 * k, idx m 10 * k, idx m 11 * k,
         idx m 12, idx m 13, idx m 14, idx m 15])"

definition M4x4_scale ::
    "(jsnum \<Rightarrow> jsnum) \<Rightarrow> bool \<Rightarrow> farray \<Rightarrow> farray \<Rightarrow> farray" where
  "M4x4_scale st r_is_m v m =
     (let x = idx v 0; y = idx v 1; z = idx v 2
      in if r_is_m then
        map st
          [idx m 0 * x, idx m 1 * x, idx m 2 * x, idx m 3 * x,
           idx m 4 * y, idx m 5 * y, idx m 6 * y, idx m 7 * y,
           idx m 8 * z, idx m 9 * z, idx m 10 * z, idx m 11 * z] @ drop 12 m
      else map st
        [idx m 0 * x, idx m 1 * x, idx m 2 * x, idx m 3 * x,
         idx m 4 * y, idx m 5 * y, idx m 6 * y, idx m 7 * y,
         idx m 8 * z, idx m 9 * z, idx m 10 * z, idx m 11 * z,
         idx m 12, idx m 13, idx m 14, idx m 15])"

definition M4x4_makeTranslate3 ::
    "(jsnum \<Rightarrow> jsnum) \<Rightarrow> jsnum \<Rightarrow> jsnum \<Rightarrow> jsnum \<Rightarrow> farray" where
  "M4x4_makeTranslate3 st x y z =
     map st
        [1, 0, 0, 0,
         0, 1, 0, 0,
         0, 0, 1, 0,
         x, y, z, 1]"

definition M4x4_makeTranslate1 ::
    "(jsnum \<Rightarrow> jsnum) \<Rightarrow> jsnum \<Rightarrow> farray" where
  "M4x4_makeTranslate1 st k =
     M4x4_makeTranslate3 st k k k"

definition M4x4_makeTranslate ::
    "(jsnum \<Rightarrow> jsnum) \<Rightarrow> farray \<Rightarrow> farray" where
  "M4x4_makeTranslate st v =
     M4x4_makeTranslate3 st (idx v 0) (idx v 1) (idx v 2)"

definition M4x4_translate3Self ::
    "(jsnum \<Rightarrow> jsnum) \<Rightarrow> jsnum \<Rightarrow> jsnum \<Rightarrow> jsnum \<Rightarrow> farray \<Rightarrow> farray" where
  "M4x4_translate3Self st x y z m =
     m[12 := st (idx m 12 + (idx m 0 * x + idx m 4 * y + idx m 8 * z)),
        13 := st (idx m 13 + (idx m 1 * x + idx m 5 * y + idx m 9 * z)),
        14 := st (idx m 14 + (idx m 2 * x + idx m 6 * y + idx m 10 * z)),
        15 := st (idx m 15 + (idx m 3 * x + idx m 7 * y + idx m 11 * z))]"

definition M4x4_translate3 ::
    "(jsnum \<Rightarrow> jsnum) \<Rightarrow> bool \<Rightarrow> jsnum \<Rightarrow> jsnum \<Rightarrow> jsnum \<Rightarrow> farray \<Rightarrow> farray" where
  "M4x4_translate3 st r_is_m x y z m =
     (if r_is_m then
      m[12 := st (idx m 12 + (idx m 0 * x + idx m 4 * y + idx m 8 * z)),
        13 := st (idx m 13 + (idx m 1 * x + idx m 5 * y + idx m 9 * z)),
        14 := st (idx m 14 + (idx m 2 * x + idx m 6 * y + idx m 10 * z)),
        15 := st (idx m 15 + (idx m 3 * x + idx m 7 * y + idx m 11 * z))]
      else
       (let m11 = idx m 0; m21 = idx m 1; m31 = idx m 2; m41 = idx m 3; m12 = idx m 4;
          m22 = idx m 5; m32 = idx m 6; m42 = idx m 7; m13 = idx m 8; m23 = idx m 9;
          m33 = idx m 10; m43 = idx m 11
        in map st
          [m11,
           m21,
           m31,
           m41,
           m12,
           m22,
           m32,
           m42,
           m13,
           m23,
           m33,
           m43,
           m11 * x + m12 * y + m13 * z + idx m 12,
           m21 * x + m22 * y + m23 * z + idx m 13,
           m31 * x + m32 * y + m33 * z + idx m 14,
           m41 * x + m42 * y + m43 * z + idx m 15]))"

definition M4x4_translate1 ::
    "(jsnum \<Rightarrow> jsnum) \<Rightarrow> bool \<Rightarrow> jsnum \<Rightarrow> farray \<Rightarrow> farray" where
  "M4x4_translate1 st r_is_m k m =
     M4x4_translate3 st r_is_m k k k m"

definition M4x4_translateSelf ::
    "(jsnum \<Rightarrow> jsnum) \<Rightarrow> farray \<Rightarrow> farray \<Rightarrow> farray" where
  "M4x4_translateSelf st v m =
     (let x = idx v 0; y = idx v 1; z = idx v 2
      in m[12 := st (idx m 12 + (idx m 0 * x + idx m 4 * y + idx m 8 * z)),
        13 := st (idx m 13 + (idx m 1 * x + idx m 5 * y + idx m 9 * z)),
        14 := st (idx m 14 + (idx m 2 * x + idx m 6 * y + idx m 10 * z)),
        15 := st (idx m 15 + (idx m 3 * x + idx m 7 * y + idx m 11 * z))])"

definition M4x4_translate ::
    "(jsnum \<Rightarrow> jsnum) \<Rightarrow> bool \<Rightarrow> farray \<Rightarrow> farray \<Rightarrow> farray" where
  "M4x4_translate st r_is_m v m =
     (let x = idx v 0; y = idx v 1; z = idx v 2
      in if r_is_m then
      m[12 := st (idx m 12 + (idx m 0 * x + idx m 4 * y + idx m 8 * z)),
        13 := st (idx m 13 + (idx m 1 * x + idx m 5 * y + idx m 9 * z)),
        14 := st (idx m 14 + (idx m 2 * x + idx m 6 * y + idx m 10 * z)),
        15 := st (idx m 15 + (idx m 3 * x + idx m 7 * y + idx m 11 * z))]
      else
       (let m11 = idx m 0; m21 = idx m 1; m31 = idx m 2; m41 = idx m 3; m12 = idx m 4;
          m22 = idx m 5; m32 = idx m 6; m42 = idx m 7; m13 = idx m 8; m23 = idx m 9;
          m33 = idx m 10; m43 = idx m 11
        in map st
          [m11,
           m21,
           m31,
           m41,
           m12,
           m22,
           m32,
           m42,
           m13,
           m23,
           m33,
           m43,
           m11 * x + m12 * y + m13 * z + idx m 12,
           m21 * x + m22 * y + m23 * z + idx m 13,
           m31 * x + m32 * y + m33 * z + idx m 14,
           m41 * x + m42 * y + m43 * z + idx m 15]))"

definition M4x4_makeLookAt ::
    "(jsnum \<Rightarrow> jsnum) \<Rightarrow> farray \<Rightarrow> farray \<Rightarrow> farray \<Rightarrow> farray" where
  "M4x4_makeLookAt st eye center up =
     (let z = V3_direction st eye center;
          x = V3_normalize st (V3_cross st up z);
          y = V3_normalize st (V3_cross st z x);
          tm1 = map st
           [idx x 0, idx y 0, idx z 0, 0,
            idx x 1, idx y 1, idx z 1, 0,
            idx x 2, idx y 2, idx z 2, 0,
            0, 0, 0, 1];
          tm2 = map st
           [1, 0, 0, 0,
            0, 1, 0, 0,
            0, 0, 1, 0,
            - idx eye 0, - idx eye 1, - idx eye 2, 1]
      in M4x4_mul st tm1 tm2)"

definition M4x4_transformPoint ::
    "(jsnum \<Rightarrow> jsnum) \<Rightarrow> farray \<Rightarrow> farray \<Rightarrow> farray" where
  "M4x4_transformPoint st m v =
     (let v0 = idx v 0; v1 = idx v 1; v2 = idx v 2;
          w = idx m 3 * v0 + idx m 7 * v1 + idx m 11 * v2 + idx m 15;
          r = map st
              [idx m 0 * v0 + idx m 4 * v1 + idx m 8 * v2 + idx m 12,
               idx m 1 * v0 + idx m 5 * v1 + idx m 9 * v2 + idx m 13,
               idx m 2 * v0 + idx m 6 * v1 + idx m 10 * v2 + idx m 14]
      in if \<not> js_eq w 1 then map (\<lambda>x. st (x / w)) r else r)"

definition M4x4_transformLine ::
    "(jsnum \<Rightarrow> jsnum) \<Rightarrow> farray \<Rightarrow> farray \<Rightarrow> farray" where
  "M4x4_transformLine st m v =
     (let v0 = idx v 0; v1 = idx v 1; v2 = idx v 2;
          w = idx m 3 * v0 + idx m 7 * v1 + idx m 11 * v2;
          r = map st
              [idx m 0 * v0 + idx m 4 * v1 + idx m 8 * v2,
               idx m 1 * v0 + idx m 5 * v1 + idx m 9 * v2,
               idx m 2 * v0 + idx m 6 * v1 + idx m 10 * v2]
      in if \<not> js_eq w 1 then map (\<lambda>x. st (x / w)) r else r)"

definition M4x4_transformPointAffine ::
    "(jsnum \<Rightarrow> jsnum) \<Rightarrow> farray \<Rightarrow> farray \<Rightarrow> farray" where
  "M4x4_transformPointAffine st m v =
     (let v0 = idx v 0; v1 = idx v 1; v2 = idx v 2;
          r = map st
              [idx m 0 * v0 + idx m 4 * v1 + idx m 8 * v2 + idx m 12,
               idx m 1 * v0 + idx m 5 * v1 + idx m 9 * v2 + idx m 13,
               idx m 2 * v0 + idx m 6 * v1 + idx m 10 * v2 + idx m 14]
      in r)"

definition M4x4_transformLineAffine ::
    "(jsnum \<Rightarrow> jsnum) \<Rightarrow> farray \<Rightarrow> farray \<Rightarrow> farray" where
  "M4x4_transformLineAffine st m v =
     (let v0 = idx v 0; v1 = idx v 1; v2 = idx v 2;
          r = map st
              [idx m 0 * v0 + idx m 4 * v1 + idx m 8 * v2,
               idx m 1 * v0 + idx m 5 * v1 + idx m 9 * v2,
               idx m 2 * v0 + idx m 6 * v1 + idx m 10 * v2]
      in r)"


section \<open>Matrices of finite numbers\<close>

definition mat :: "real list \<Rightarrow> farray" where
  "mat xs = map Fin xs"

lemma length_16E:
  assumes "length xs = 16"
  obtains x0 x1 x2 x3 x4 x5 x6 x7 x8 x9 x10 x11 x12 x13 x14 x15
    where "xs = [x0, x1, x2, x3, x4, x5, x6, x7, x8, x9, x10, x11, x12, x13, x14, x15]"
  using assms by (auto simp: numeral_eq_Suc length_Suc_conv)

text \<open>Elements of a concrete matrix, read once and for all.\<close>

lemma idx_mat16 [simp]:
  fixes x0 x1 x2 x3 x4 x5 x6 x7 x8 x9 x10 x11 x12 x13 x14 x15 :: real
  defines "M \<equiv> mat [x0, x1, x2, x3, x4, x5, x6, x7, x8, x9, x10, x11, x12, x13, x14, x15]"
  shows "idx M 0 = Fin x0" "idx M (Suc 0) = Fin x1" "idx M 2 = Fin x2" "idx M 3 = Fin x3"
    "idx M 4 = Fin x4" "idx M 5 = Fin x5" "idx M 6 = Fin x6" "idx M 7 = Fin x7"
    "idx M 8 = Fin x8" "idx M 9 = Fin x9" "idx M 10 = Fin x10" "idx M 11 = Fin x11"
    "idx M 12 = Fin x12" "idx M 13 = Fin x13" "idx M 14 = Fin x14" "idx M 15 = Fin x15"
  by (simp_all add: M_def mat_def)

lemma mat_eq_iff [simp]: "mat xs = mat ys \<longleftrightarrow> xs = ys"
  by (auto simp: mat_def inj_map_eq_map inj_def)

definition rmul :: "real list \<Rightarrow> real list \<Rightarrow> real list" where
  "rmul a b =
     [a!0 * b!0 + a!4 * b!1 + a!8 * b!2 + a!12 * b!3,
      a!1 * b!0 + a!5 * b!1 + a!9 * b!2 + a!13 * b!3,
      a!2 * b!0 + a!6 * b!1 + a!10 * b!2 + a!14 * b!3,
      a!3 * b!0 + a!7 * b!1 + a!11 * b!2 + a!15 * b!3,
      a!0 * b!4 + a!4 * b!5 + a!8 * b!6 + a!12 * b!7,
      a!1 * b!4 + a!5 * b!5 + a!9 * b!6 + a!13 * b!7,
      a!2 * b!4 + a!6 * b!5 + a!10 * b!6 + a!14 * b!7,
      a!3 * b!4 + a!7 * b!5 + a!11 * b!6 + a!15 * b!7,
      a!0 * b!8 + a!4 * b!9 + a!8 * b!10 + a!12 * b!11,
      a!1 * b!8 + a!5 * b!9 + a!9 * b!10 + a!13 * b!11,
      a!2 * b!8 + a!6 * b!9 + a!10 * b!10 + a!14 * b!11,
      a!3 * b!8 + a!7 * b!9 + a!11 * b!10 + a!15 * b!11,
      a!0 * b!12 + a!4 * b!13 + a!8 * b!14 + a!12 * b!15,
      a!1 * b!12 + a!5 * b!13 + a!9 * b!14 + a!13 * b!15,
      a!2 * b!12 + a!6 * b!13 + a!10 * b!14 + a!14 * b!15,
      a!3 * b!12 + a!7 * b!13 + a!11 * b!14 + a!15 * b!15]"

lemma idx_mat: "length a = 16 \<Longrightarrow> i < 16 \<Longrightarrow> idx (mat a) i = Fin (a ! i)"
  by (simp add: mat_def idx_def)

lemma mul_mat:
  assumes "length a = 16" "length b = 16"
  shows "M4x4_mul f64 (mat a) (mat b) = mat (rmul a b)"
  unfolding M4x4_mul_def Let_def
  by (simp only: idx_mat [OF assms(1)] idx_mat [OF assms(2)] less_numeral_simps rel_simps)
    (simp add: rmul_def mat_def)

lemma length_rmul [simp]: "length (rmul a b) = 16"
  by (simp add: rmul_def)

text \<open>The element of a product in row \<open>i\<close> and column \<open>j\<close>.\<close>

lemma nth_rmul:
  assumes "i < 4" "j < 4"
  shows "rmul a b ! (4 * j + i) = (\<Sum>k<4. a ! (4 * k + i) * b ! (4 * j + k))"
proof -
  have "i \<in> {0, 1, 2, 3}" "j \<in> {0, 1, 2, 3}" using assms by auto
  then show ?thesis
    by (auto simp: rmul_def numeral_eq_Suc lessThan_Suc add_ac)
qed

lemma rmul_assoc:
  "rmul (rmul a b) c = rmul a (rmul b c)"
proof (rule nth_equalityI)
  fix n
  assume "n < length (rmul (rmul a b) c)"
  then have ij: "n mod 4 < 4" "n div 4 < 4" "n = 4 * (n div 4) + n mod 4" by auto
  let ?i = "n mod 4" and ?j = "n div 4"
  have "rmul (rmul a b) c ! (4 * ?j + ?i) =
      (\<Sum>k<4. (\<Sum>l<4. a ! (4 * l + ?i) * b ! (4 * k + l)) * c ! (4 * ?j + k))"
    unfolding nth_rmul [OF ij(1,2)] by (rule sum.cong) (simp_all add: nth_rmul)
  also have "\<dots> = (\<Sum>k<4. \<Sum>l<4. a ! (4 * l + ?i) * (b ! (4 * k + l) * c ! (4 * ?j + k)))"
    by (simp only: sum_distrib_right mult.assoc)
  also have "\<dots> = (\<Sum>l<4. \<Sum>k<4. a ! (4 * l + ?i) * (b ! (4 * k + l) * c ! (4 * ?j + k)))"
    by (rule sum.swap)
  also have "\<dots> = (\<Sum>l<4. a ! (4 * l + ?i) * (\<Sum>k<4. b ! (4 * k + l) * c ! (4 * ?j + k)))"
    by (simp only: sum_distrib_left)
  also have "\<dots> = rmul a (rmul b c) ! (4 * ?j + ?i)"
    unfolding nth_rmul [OF ij(1,2)] by (rule sum.cong) (simp_all add: nth_rmul [OF _ ij(2)])
  finally show "rmul (rmul a b) c ! n = rmul a (rmul b c) ! n" using ij(3) by simp
qed simp

definition rI :: "real list" where
  "rI = [1, 0, 0, 0, 0, 1, 0, 0, 0, 0, 1, 0, 0, 0, 0, 1]"

lemma M4x4_I_mat: "M4x4_I = mat rI"
  by (simp add: M4x4_I_def rI_def mat_def)

lemma rmul_I: "length a = 16 \<Longrightarrow> rmul rI a = a" "length a = 16 \<Longrightarrow> rmul a rI = a"
  by (elim length_16E, simp add: rmul_def rI_def)+

section \<open>The inverse\<close>

text \<open>The determinant, expanded along the first row and then by \<open>3 x 3\<close> determinants.\<close>

definition det3 :: "real \<Rightarrow> real \<Rightarrow> real \<Rightarrow> real \<Rightarrow> real \<Rightarrow> real \<Rightarrow> real \<Rightarrow> real \<Rightarrow> real \<Rightarrow> real" where
  "det3 a b c d e f g h i = a * (e * i - f * h) - b * (d * i - f * g) + c * (d * h - e * g)"

definition det4 :: "real list \<Rightarrow> real" where
  "det4 m =
     m!0 * det3 (m!5) (m!6) (m!7) (m!9) (m!10) (m!11) (m!13) (m!14) (m!15)
     - m!1 * det3 (m!4) (m!6) (m!7) (m!8) (m!10) (m!11) (m!12) (m!14) (m!15)
     + m!2 * det3 (m!4) (m!5) (m!7) (m!8) (m!9) (m!11) (m!12) (m!13) (m!15)
     - m!3 * det3 (m!4) (m!5) (m!6) (m!8) (m!9) (m!10) (m!12) (m!13) (m!14)"

definition radj :: "real list \<Rightarrow> real list" where
  "radj m =
     [m!5 * m!10 * m!15 - m!5 * m!11 * m!14 - m!9 * m!6 * m!15 + m!9 * m!7 * m!14
        + m!13 * m!6 * m!11 - m!13 * m!7 * m!10,
      - m!1 * m!10 * m!15 + m!1 * m!11 * m!14 + m!9 * m!2 * m!15 - m!9 * m!3 * m!14
        - m!13 * m!2 * m!11 + m!13 * m!3 * m!10,
      m!1 * m!6 * m!15 - m!1 * m!7 * m!14 - m!5 * m!2 * m!15 + m!5 * m!3 * m!14
        + m!13 * m!2 * m!7 - m!13 * m!3 * m!6,
      - m!1 * m!6 * m!11 + m!1 * m!7 * m!10 + m!5 * m!2 * m!11 - m!5 * m!3 * m!10
        - m!9 * m!2 * m!7 + m!9 * m!3 * m!6,
      - m!4 * m!10 * m!15 + m!4 * m!11 * m!14 + m!8 * m!6 * m!15 - m!8 * m!7 * m!14
        - m!12 * m!6 * m!11 + m!12 * m!7 * m!10,
      m!0 * m!10 * m!15 - m!0 * m!11 * m!14 - m!8 * m!2 * m!15 + m!8 * m!3 * m!14
        + m!12 * m!2 * m!11 - m!12 * m!3 * m!10,
      - m!0 * m!6 * m!15 + m!0 * m!7 * m!14 + m!4 * m!2 * m!15 - m!4 * m!3 * m!14
        - m!12 * m!2 * m!7 + m!12 * m!3 * m!6,
      m!0 * m!6 * m!11 - m!0 * m!7 * m!10 - m!4 * m!2 * m!11 + m!4 * m!3 * m!10
        + m!8 * m!2 * m!7 - m!8 * m!3 * m!6,
      m!4 * m!9 * m!15 - m!4 * m!11 * m!13 - m!8 * m!5 * m!15 + m!8 * m!7 * m!13
        + m!12 * m!5 * m!11 - m!12 * m!7 * m!9,
      - m!0 * m!9 * m!15 + m!0 * m!11 * m!13 + m!8 * m!1 * m!15 - m!8 * m!3 * m!13
        - m!12 * m!1 * m!11 + m!12 * m!3 * m!9,
      m!0 * m!5 * m!15 - m!0 * m!7 * m!13 - m!4 * m!1 * m!15 + m!4 * m!3 * m!13
        + m!12 * m!1 * m!7 - m!12 * m!3 * m!5,
      - m!0 * m!5 * m!11 + m!0 * m!7 * m!9 + m!4 * m!1 * m!11 - m!4 * m!3 * m!9
        - m!8 * m!1 * m!7 + m!8 * m!3 * m!5,
      - m!4 * m!9 * m!14 + m!4 * m!10 * m!13 + m!8 * m!5 * m!14 - m!8 * m!6 * m!13
        - m!12 * m!5 * m!10 + m!12 * m!6 * m!9,
      m!0 * m!9 * m!14 - m!0 * m!10 * m!13 - m!8 * m!1 * m!14 + m!8 * m!2 * m!13
        + m!12 * m!1 * m!10 - m!12 * m!2 * m!9,
      - m!0 * m!5 * m!14 + m!0 * m!6 * m!13 + m!4 * m!1 * m!14 - m!4 * m!2 * m!13
        - m!12 * m!1 * m!6 + m!12 * m!2 * m!5,
      m!0 * m!5 * m!10 - m!0 * m!6 * m!9 - m!4 * m!1 * m!10 + m!4 * m!2 * m!9
        + m!8 * m!1 * m!6 - m!8 * m!2 * m!5]"

lemma adjugate_mat:
  assumes "length m = 16"
  shows "M4x4_adjugate f64 (mat m) = mat (radj m)"
  unfolding M4x4_adjugate_def
  by (simp only: idx_mat [OF assms] less_numeral_simps rel_simps) (simp add: radj_def mat_def)

lemma length_radj [simp]: "length (radj m) = 16"
  by (simp add: radj_def)

lemmas nth_16 = nth_Cons_0 nth_Cons_Suc numeral_eq_Suc pred_numeral_simps BitM.simps numeral_One One_nat_def

lemma radj_mul:
  "rmul m (radj m) = map ((*) (det4 m)) rI" "rmul (radj m) m = map ((*) (det4 m)) rI"
  unfolding rmul_def radj_def det4_def det3_def rI_def list.map
  by (simp_all only: nth_16 list.inject mult_zero_right mult_1_right, (intro conjI, simp_all add: algebra_simps)+)

lemma rmul_scale:
  assumes "length a = 16"
  shows "rmul m (map ((*) k) a) = map ((*) k) (rmul m a)" "rmul (map ((*) k) a) m = map ((*) k) (rmul a m)"
  using assms by (simp_all add: rmul_def algebra_simps)

lemma det_from_adjugate:
  "m!0 * radj m ! 0 + m!1 * radj m ! 4 + m!2 * radj m ! 8 + m!3 * radj m ! 12 = det4 m"
proof -
  have "rmul (radj m) m ! 0 = det4 m" by (simp add: radj_mul rI_def)
  then show ?thesis by (simp add: rmul_def mult.commute)
qed

lemma inverse_mat:
  assumes "length m = 16"
  shows "M4x4_inverse f64 (mat m) =
           (if det4 m = 0 then None else Some (mat (map ((*) (1 / det4 m)) (radj m))))"
proof -
  have "idx (mat m) 0 * idx (mat (radj m)) 0 + idx (mat m) 1 * idx (mat (radj m)) 4 +
      idx (mat m) 2 * idx (mat (radj m)) 8 + idx (mat m) 3 * idx (mat (radj m)) 12 = Fin (det4 m)"
    using det_from_adjugate [of m] by (simp add: idx_mat assms)
  then show ?thesis
    unfolding M4x4_inverse_def adjugate_mat [OF assms] Let_def by (simp add: mat_def)
qed

section \<open>Rigid motions\<close>

definition dot3 :: "real \<times> real \<times> real \<Rightarrow> real \<times> real \<times> real \<Rightarrow> real" where
  "dot3 = (\<lambda>(a, b, c) (x, y, z). a * x + b * y + c * z)"

definition cross3 :: "real \<times> real \<times> real \<Rightarrow> real \<times> real \<times> real \<Rightarrow> real \<times> real \<times> real" where
  "cross3 = (\<lambda>(a, b, c) (x, y, z). (b * z - c * y, c * x - a * z, a * y - b * x))"

lemma cross3_norm:
  "dot3 (cross3 u v) (cross3 u v) = dot3 u u * dot3 v v - dot3 u v * dot3 u v"
  by (cases u; cases v) (simp add: dot3_def cross3_def algebra_simps)

lemma cross3_orthogonal: "dot3 (cross3 u v) u = 0" "dot3 (cross3 u v) v = 0"
  by (cases u; cases v; simp add: dot3_def cross3_def algebra_simps)+

text \<open>Gram's identity, and what it says of an orthonormal frame.\<close>

lemma gram3:
  "dot3 (cross3 u v) d * dot3 (cross3 u v) d =
     dot3 u u * (dot3 v v * dot3 d d - dot3 v d * dot3 v d)
     - dot3 u v * (dot3 u v * dot3 d d - dot3 v d * dot3 u d)
     + dot3 u d * (dot3 u v * dot3 v d - dot3 v v * dot3 u d)"
  by (cases u; cases v; cases d) (simp add: dot3_def cross3_def algebra_simps)

lemma frame_isometry:
  assumes "dot3 z z = 1" "dot3 x x = 1" "dot3 z x = 0" "y = cross3 z x"
  shows "dot3 x d * dot3 x d + dot3 y d * dot3 y d + dot3 z d * dot3 z d = dot3 d d"
  using gram3 [of z x d] assms by simp

definition vec3 :: "real \<times> real \<times> real \<Rightarrow> farray" where
  "vec3 = (\<lambda>(a, b, c). real3 a b c)"

definition sub3 :: "real \<times> real \<times> real \<Rightarrow> real \<times> real \<times> real \<Rightarrow> real \<times> real \<times> real" where
  "sub3 = (\<lambda>(a, b, c) (x, y, z). (a - x, b - y, c - z))"

definition scale3 :: "real \<Rightarrow> real \<times> real \<times> real \<Rightarrow> real \<times> real \<times> real" where
  "scale3 k = (\<lambda>(a, b, c). (k * a, k * b, k * c))"

lemma vec3_ops [simp]:
  "V3_cross f64 (vec3 u) (vec3 v) = vec3 (cross3 u v)"
  "V3_sub f64 (vec3 u) (vec3 v) = vec3 (sub3 u v)"
  "V3_dot (vec3 u) (vec3 v) = Fin (dot3 u v)"
  "V3_lengthSquared (vec3 u) = Fin (dot3 u u)"
  "V3_length (vec3 u) = Fin (sqrt (dot3 u u))"
  by (cases u; cases v; simp add: vec3_def cross3_def sub3_def dot3_def)+

lemma triple_simps:
  "dot3 (a, b, c) (x, y, z) = a * x + b * y + c * z"
  "sub3 (a, b, c) (x, y, z) = (a - x, b - y, c - z)"
  by (simp_all add: dot3_def sub3_def)

lemma dot3_nonneg: "0 \<le> dot3 u u"
  using sum_squares_nonneg by (cases u) (simp add: dot3_def)

lemma dot3_scale [simp]:
  "dot3 (scale3 k u) v = k * dot3 u v" "dot3 v (scale3 k u) = k * dot3 v u"
  by (cases u; cases v; simp add: dot3_def scale3_def algebra_simps)+

lemma scale3_simps [simp]: "scale3 1 u = u" "scale3 a (scale3 b u) = scale3 (a * b) u"
  by (cases u; simp add: scale3_def)+

lemma sub3_sub3: "sub3 (sub3 p e) (sub3 q e) = sub3 p q"
  by (cases p; cases q; cases e) (simp add: sub3_def)

lemma dot3_sub3: "dot3 u (sub3 a b) = dot3 u a - dot3 u b"
  by (cases u; cases a; cases b) (simp add: dot3_def sub3_def algebra_simps)

lemma dot3_commute: "dot3 u v = dot3 v u"
  by (cases u; cases v) (simp add: dot3_def algebra_simps)

definition unit3 :: "real \<times> real \<times> real \<Rightarrow> real \<times> real \<times> real" where
  "unit3 u = scale3 (1 / sqrt (dot3 u u)) u"

lemma V3_normalize_vec3:
  assumes "dot3 u u \<noteq> 0"
  shows "V3_normalize f64 (vec3 u) = vec3 (unit3 u)" "dot3 (unit3 u) (unit3 u) = 1"
    "scale3 (sqrt (dot3 u u)) (unit3 u) = u"
proof -
  obtain a b c where u: "u = (a, b, c)" by (cases u) auto
  have nz: "\<not> (a = 0 \<and> b = 0 \<and> c = 0)" using assms by (auto simp: u dot3_def)
  show "V3_normalize f64 (vec3 u) = vec3 (unit3 u)"
    using V3_normalize_real3(1) [OF nz] by (simp add: u vec3_def unit3_def scale3_def dot3_def)
  have pos: "0 < dot3 u u" using assms dot3_nonneg [of u] by linarith
  then show "dot3 (unit3 u) (unit3 u) = 1" "scale3 (sqrt (dot3 u u)) (unit3 u) = u"
    by (simp_all add: unit3_def power2_eq_square [symmetric])
qed

text \<open>A point under an affine matrix.\<close>

definition affine :: "real list \<Rightarrow> bool" where
  "affine a \<longleftrightarrow> length a = 16 \<and> a!3 = 0 \<and> a!7 = 0 \<and> a!11 = 0 \<and> a!15 = 1"

lemma transformPoint_affine:
  assumes "affine a"
  shows "M4x4_transformPoint f64 (mat a) (real3 x y z) =
           real3 (a!0 * x + a!4 * y + a!8 * z + a!12) (a!1 * x + a!5 * y + a!9 * z + a!13)
             (a!2 * x + a!6 * y + a!10 * z + a!14)"
proof -
  have "length a = 16" using assms by (simp add: affine_def)
  note E = idx_mat [OF this]
  show ?thesis
    using assms by (simp add: M4x4_transformPoint_def E affine_def) (simp add: real3_def)
qed

text \<open>The matrix with the rows of a frame, after a translation.\<close>

definition frame_mat :: "real \<times> real \<times> real \<Rightarrow> real \<times> real \<times> real \<Rightarrow> real \<times> real \<times> real \<Rightarrow> real \<times> real \<times> real \<Rightarrow> real list" where
  "frame_mat x y z e =
     (case (x, y, z) of ((x1, x2, x3), (y1, y2, y3), (z1, z2, z3)) \<Rightarrow>
       [x1, y1, z1, 0, x2, y2, z2, 0, x3, y3, z3, 0, - dot3 x e, - dot3 y e, - dot3 z e, 1])"

lemma affine_frame_mat: "affine (frame_mat x y z e)"
  by (cases x; cases y; cases z) (simp add: affine_def frame_mat_def)

lemma frame_mul:
  fixes x y z e :: "real \<times> real \<times> real"
  shows "M4x4_mul f64
        (map f64 [idx (vec3 x) 0, idx (vec3 y) 0, idx (vec3 z) 0, 0,
                  idx (vec3 x) 1, idx (vec3 y) 1, idx (vec3 z) 1, 0,
                  idx (vec3 x) 2, idx (vec3 y) 2, idx (vec3 z) 2, 0,
                  0, 0, 0, 1])
        (map f64 [1, 0, 0, 0, 0, 1, 0, 0, 0, 0, 1, 0,
                  - idx (vec3 e) 0, - idx (vec3 e) 1, - idx (vec3 e) 2, 1]) = mat (frame_mat x y z e)"
proof -
  obtain x1 x2 x3 y1 y2 y3 z1 z2 z3 e1 e2 e3 where
    V: "x = (x1, x2, x3)" "y = (y1, y2, y3)" "z = (z1, z2, z3)" "e = (e1, e2, e3)"
    by (cases x; cases y; cases z; cases e) auto
  let ?R = "[x1, y1, z1, 0, x2, y2, z2, 0, x3, y3, z3, 0, 0, 0, 0, 1]"
  let ?T = "[1, 0, 0, 0, 0, 1, 0, 0, 0, 0, 1, 0, - e1, - e2, - e3, 1 :: real]"
  have "rmul ?R ?T = frame_mat x y z e"
    by (simp add: rmul_def frame_mat_def V dot3_def)
  then have "M4x4_mul f64 (mat ?R) (mat ?T) = mat (frame_mat x y z e)"
    by (simp add: mul_mat)
  then show ?thesis
    by (simp add: V vec3_def mat_def)
qed

lemma frame_transform:
  "M4x4_transformPoint f64 (mat (frame_mat x y z e)) (vec3 p) = vec3 (dot3 x (sub3 p e), dot3 y (sub3 p e), dot3 z (sub3 p e))"
proof -
  obtain x1 x2 x3 y1 y2 y3 z1 z2 z3 p1 p2 p3 where
    V: "x = (x1, x2, x3)" "y = (y1, y2, y3)" "z = (z1, z2, z3)" "p = (p1, p2, p3)"
    by (cases x; cases y; cases z; cases p) auto
  show ?thesis
    using transformPoint_affine [OF affine_frame_mat [of x y z e], of p1 p2 p3]
    by (simp add: V vec3_def frame_mat_def dot3_sub3) (simp add: dot3_def)
qed

lemma cross3_scale: "cross3 u (scale3 k v) = scale3 k (cross3 u v)"
  by (cases u; cases v) (simp add: cross3_def scale3_def algebra_simps)

lemma makeLookAt_frame:
  assumes "dot3 (sub3 e c) (sub3 e c) \<noteq> 0"
    and "dot3 (cross3 u (sub3 e c)) (cross3 u (sub3 e c)) \<noteq> 0"
  defines "z \<equiv> unit3 (sub3 e c)"
  defines "x \<equiv> unit3 (cross3 u z)"
  defines "y \<equiv> cross3 z x"
  shows "M4x4_makeLookAt f64 (vec3 e) (vec3 c) (vec3 u) = mat (frame_mat x y z e)"
    and "dot3 z z = 1" "dot3 x x = 1" "dot3 z x = 0"
proof -
  show zz: "dot3 z z = 1" unfolding z_def by (rule V3_normalize_vec3(2) [OF assms(1)])
  have cz: "cross3 u z = scale3 (1 / sqrt (dot3 (sub3 e c) (sub3 e c))) (cross3 u (sub3 e c))"
    unfolding z_def unit3_def by (rule cross3_scale)
  have "dot3 (cross3 u z) (cross3 u z) \<noteq> 0" using assms(1,2) by (simp add: cz)
  note nx = V3_normalize_vec3 [OF this]
  show xx: "dot3 x x = 1" unfolding x_def by (rule nx(2))
  show zx: "dot3 z x = 0"
    using cross3_orthogonal(2) [of u z] by (simp add: x_def unit3_def dot3_commute)
  have yy: "dot3 y y = 1" using cross3_norm [of z x] zz xx zx by (simp add: y_def)
  then have "V3_normalize f64 (vec3 y) = vec3 y"
    using V3_normalize_vec3(1) [of y] by (simp add: unit3_def)
  then show "M4x4_makeLookAt f64 (vec3 e) (vec3 c) (vec3 u) = mat (frame_mat x y z e)"
    using nx(1) V3_normalize_vec3(1) [OF assms(1)] frame_mul [of x y z e]
    by (simp add: M4x4_makeLookAt_def V3_direction_def x_def y_def z_def Let_def)
qed

section \<open>Building and applying transformations\<close>

definition rrotation :: "real \<Rightarrow> real \<times> real \<times> real \<Rightarrow> real list" where
  "rrotation t = (\<lambda>(x, y, z).
     let c = cos t; d = 1 - cos t; s = sin t
     in [x * x * d + c, y * x * d + z * s, z * x * d - y * s, 0,
         x * y * d - z * s, y * y * d + c, y * z * d + x * s, 0,
         x * z * d + y * s, y * z * d - x * s, z * z * d + c, 0,
         0, 0, 0, 1])"

lemma makeRotate_mat:
  assumes "dot3 u u \<noteq> 0"
  shows "M4x4_makeRotate f64 (Fin t) (vec3 u) = mat (rrotation t (unit3 u))"
proof -
  obtain x y z where n: "unit3 u = (x, y, z)" by (cases "unit3 u") auto
  show ?thesis
    unfolding M4x4_makeRotate_def V3_normalize_vec3(1) [OF assms] n
    by (simp add: vec3_def rrotation_def mat_def Let_def)
qed

lemma length_rrotation [simp]: "length (rrotation t u) = 16"
  by (cases u) (simp add: rrotation_def Let_def)

lemma affine_rrotation: "affine (rrotation t u)"
  by (cases u) (simp add: affine_def rrotation_def Let_def)

text \<open>The columns of the linear part are orthonormal.\<close>

definition rigid :: "real list \<Rightarrow> bool" where
  "rigid a \<longleftrightarrow> affine a \<and>
     (let u = (a!0, a!1, a!2); v = (a!4, a!5, a!6); w = (a!8, a!9, a!10)
      in dot3 u u = 1 \<and> dot3 v v = 1 \<and> dot3 w w = 1 \<and> dot3 u v = 0 \<and> dot3 u w = 0 \<and> dot3 v w = 0)"

lemma rotation_columns:
  fixes x y z c s d :: real
  assumes "x * x + y * y + z * z = 1" "c * c + s * s = 1" "d = 1 - c"
  shows "(x * x * d + c) * (x * x * d + c) + (y * x * d + z * s) * (y * x * d + z * s)
           + (z * x * d - y * s) * (z * x * d - y * s) = 1"
    and "(x * x * d + c) * (x * y * d - z * s) + (y * x * d + z * s) * (y * y * d + c)
           + (z * x * d - y * s) * (y * z * d + x * s) = 0"
  using assms by algebra+

lemma rrotation_rigid:
  assumes "dot3 u u = 1"
  shows "rigid (rrotation t u)"
proof -
  obtain x y z where u: "u = (x, y, z)" by (cases u) auto
  have n: "x * x + y * y + z * z = 1" using assms by (simp add: u dot3_def)
  have cs: "cos t * cos t + sin t * sin t = 1"
    using sin_cos_squared_add2 [of t] by (simp add: power2_eq_square add.commute)
  have n': "y * y + z * z + x * x = 1" "z * z + x * x + y * y = 1" using n by linarith+
  note R = rotation_columns [OF _ cs refl]
  show ?thesis
    using affine_rrotation [of t u] R(1) [OF n] R(2) [OF n] R(1) [OF n'(1)] R(2) [OF n'(1)]
      R(1) [OF n'(2)] R(2) [OF n'(2)]
    unfolding rigid_def u rrotation_def Let_def dot3_def
    by (simp add: algebra_simps)
qed

lemma inverseOrthonormal_mat:
  assumes "length a = 16"
  shows "M4x4_inverseOrthonormal f64 (mat a) = mat
    [a!0, a!4, a!8, 0, a!1, a!5, a!9, 0, a!2, a!6, a!10, 0,
     - (a!0 * a!12 + a!1 * a!13 + a!2 * a!14), - (a!4 * a!12 + a!5 * a!13 + a!6 * a!14),
     - (a!8 * a!12 + a!9 * a!13 + a!10 * a!14), a!15]"
proof -
  note E = idx_mat [OF assms]
  show ?thesis
    unfolding M4x4_inverseOrthonormal_def M4x4_transpose_def Let_def
    by (simp add: E V3_dot_def) (simp add: mat_def)
qed

lemma inverseOrthonormal_rigid:
  assumes "rigid a"
  shows "M4x4_mul f64 (M4x4_inverseOrthonormal f64 (mat a)) (mat a) = M4x4_I"
proof -
  have a: "affine a" "length a = 16" using assms by (simp_all add: rigid_def affine_def)
  show ?thesis
    using assms a(1)
    by (simp add: inverseOrthonormal_mat a mul_mat M4x4_I_mat)
      (simp add: rmul_def rI_def rigid_def affine_def Let_def dot3_def algebra_simps)
qed

lemma translate_mat:
  assumes "length a = 16"
  shows "M4x4_translate f64 b (real3 x y z) (mat a) =
           M4x4_mul f64 (mat a) (M4x4_makeTranslate f64 (real3 x y z))"
proof -
  note E = idx_mat [OF assms]
  have T: "M4x4_makeTranslate f64 (real3 x y z) = mat [1, 0, 0, 0, 0, 1, 0, 0, 0, 0, 1, 0, x, y, z, 1]"
    by (simp add: M4x4_makeTranslate_def M4x4_makeTranslate3_def mat_def)
  obtain c d e f g h i j k l m n p q r s where a: "a = [c, d, e, f, g, h, i, j, k, l, m, n, p, q, r, s]"
    using assms by (rule length_16E)
  have "M4x4_translate f64 b (real3 x y z) (mat a) = mat
      [c, d, e, f, g, h, i, j, k, l, m, n, p + (c * x + g * y + k * z), q + (d * x + h * y + l * z),
       r + (e * x + i * y + m * z), s + (f * x + j * y + n * z)]"
    unfolding M4x4_translate_def Let_def a by (simp add: mat_def algebra_simps)
  then show ?thesis unfolding T by (simp add: mul_mat assms a rmul_def)
qed

lemma scale_mat:
  assumes "length a = 16"
  shows "M4x4_scale f64 b (real3 x y z) (mat a) =
           M4x4_mul f64 (mat a) (M4x4_makeScale f64 (real3 x y z))"
proof -
  have T: "M4x4_makeScale f64 (real3 x y z) = mat [x, 0, 0, 0, 0, y, 0, 0, 0, 0, z, 0, 0, 0, 0, 1]"
    by (simp add: M4x4_makeScale_def M4x4_makeScale3_def mat_def)
  obtain c d e f g h i j k l m n p q r s where a: "a = [c, d, e, f, g, h, i, j, k, l, m, n, p, q, r, s]"
    using assms by (rule length_16E)
  have "M4x4_scale f64 b (real3 x y z) (mat a) = mat
      [c * x, d * x, e * x, f * x, g * y, h * y, i * y, j * y, k * z, l * z, m * z, n * z, p, q, r, s]"
    unfolding M4x4_scale_def Let_def a by (simp add: mat_def)
  then show ?thesis unfolding T by (simp add: mul_mat assms a rmul_def)
qed

lemma rotate_mat:
  assumes "length a = 16" "dot3 u u \<noteq> 0"
  shows "M4x4_rotate f64 b (Fin t) (vec3 u) (mat a) =
           M4x4_mul f64 (mat a) (M4x4_makeRotate f64 (Fin t) (vec3 u))"
proof -
  obtain x y z where u: "u = (x, y, z)" by (cases u) auto
  let ?l = "sqrt (dot3 u u)"
  have "Math_sqrt (Fin x * Fin x + Fin y * Fin y + Fin z * Fin z) = Fin ?l"
    using dot3_nonneg [of u] by (simp add: u dot3_def not_less)
  moreover have "?l \<noteq> 0" using assms(2) by simp
  moreover have "unit3 u = (if ?l = 1 then (x, y, z) else (x * (1 / ?l), y * (1 / ?l), z * (1 / ?l)))"
    by (simp add: unit3_def u scale3_def)
  moreover obtain x' y' z' where n: "unit3 u = (x', y', z')" by (cases "unit3 u") auto
  ultimately have xyz: "(if \<not> js_eq (Fin ?l) 1 then Fin x * (1 / Fin ?l) else Fin x) = Fin x'"
      "(if \<not> js_eq (Fin ?l) 1 then Fin y * (1 / Fin ?l) else Fin y) = Fin y'"
      "(if \<not> js_eq (Fin ?l) 1 then Fin z * (1 / Fin ?l) else Fin z) = Fin z'"
    by (auto split: if_splits)
  note L = \<open>Math_sqrt _ = _\<close>
  have v: "vec3 u = real3 x y z" by (simp add: u vec3_def)
  obtain c d e f g h i j k l m n' p q r s where a: "a = [c, d, e, f, g, h, i, j, k, l, m, n', p, q, r, s]"
    using assms(1) by (rule length_16E)
  have "M4x4_rotate f64 b (Fin t) (vec3 u) (mat a) = mat (rmul a (rrotation t (x', y', z')))"
    unfolding M4x4_rotate_def Let_def v idx_real3 L xyz
    by (simp add: idx_mat16 a rrotation_def Let_def) (simp add: mat_def rmul_def algebra_simps)
  then show ?thesis unfolding makeRotate_mat [OF assms(2)] n by (simp add: mul_mat assms(1))
qed

lemma transformPoint_mul4x4: "M4x4_transformPoint f64 m v = V3_mul4x4 f64 m v"
proof -
  have one: "js_eq w 1 \<Longrightarrow> a / w = a" for a w :: jsnum
    by (cases a; cases w) (simp_all add: js_eq_def)
  show ?thesis
    by (auto simp: M4x4_transformPoint_def V3_mul4x4_def V3_dot_def Let_def one mult.commute add_ac)
qed

lemma write_at_None [simp]: "write_at st r None xs = r"
  by (simp add: write_at_def)

section \<open>Properties\<close>



text \<open>\<open>makeLookAt\<close> builds the view matrix: as long as the centre is not the eye and the up vector is
  not parallel to the line of sight, the matrix takes the eye to the origin, the centre to the point
  at its distance on the negative z axis, and keeps the distance of any two points.\<close>

theorem makeLookAt_view:
  assumes "dot3 (sub3 e c) (sub3 e c) \<noteq> 0"
    and "dot3 (cross3 u (sub3 e c)) (cross3 u (sub3 e c)) \<noteq> 0"
  shows "let M = M4x4_makeLookAt f64 (vec3 e) (vec3 c) (vec3 u) in
           M4x4_transformPoint f64 M (vec3 e) = vec3 (0, 0, 0) \<and>
           M4x4_transformPoint f64 M (vec3 c) = vec3 (0, 0, - sqrt (dot3 (sub3 e c) (sub3 e c))) \<and>
           V3_length (V3_sub f64 (M4x4_transformPoint f64 M (vec3 p)) (M4x4_transformPoint f64 M (vec3 q)))
             = V3_length (V3_sub f64 (vec3 p) (vec3 q))"
proof -
  define z where "z = unit3 (sub3 e c)"
  define x where "x = unit3 (cross3 u z)"
  define y where "y = cross3 z x"
  note F = makeLookAt_frame [OF assms, folded z_def, folded x_def, folded y_def]
  note T = frame_transform [of x y z e, folded F(1)]
  let ?l = "sqrt (dot3 (sub3 e c) (sub3 e c))"
  have neg: "dot3 v (sub3 c e) = - dot3 v (sub3 e c)" for v by (simp add: dot3_sub3)
  have l: "sub3 e c = scale3 ?l z"
    unfolding z_def by (rule V3_normalize_vec3(3) [OF assms(1), symmetric])
  have "dot3 x (sub3 e c) = 0" "dot3 y (sub3 e c) = 0" "dot3 z (sub3 e c) = ?l"
    using F(2-4) cross3_orthogonal(1) [of z x]
    by (subst l, simp add: y_def dot3_commute)+
  moreover have "dot3 v (sub3 p e) - dot3 v (sub3 q e) = dot3 v (sub3 p q)" for v
    by (simp add: dot3_sub3)
  then have "dot3 (sub3 (dot3 x (sub3 p e), dot3 y (sub3 p e), dot3 z (sub3 p e))
        (dot3 x (sub3 q e), dot3 y (sub3 q e), dot3 z (sub3 q e)))
      (sub3 (dot3 x (sub3 p e), dot3 y (sub3 p e), dot3 z (sub3 p e))
        (dot3 x (sub3 q e), dot3 y (sub3 q e), dot3 z (sub3 q e))) = dot3 (sub3 p q) (sub3 p q)"
    using frame_isometry [OF F(2,3,4) y_def, of "sub3 p q"]
    by (simp add: triple_simps)
  moreover have "dot3 v (sub3 e e) = 0" for v by (simp add: dot3_sub3)
  ultimately show ?thesis by (simp add: T Let_def neg)
qed

lemma makeLookAt_witness:
  "M4x4_transformPoint f64
     (M4x4_makeLookAt f64 (vec3 (3, 4, 0)) (vec3 (0, 0, 0)) (vec3 (0, 0, 1))) (vec3 (0, 0, 0)) =
   vec3 (0, 0, -5)"
proof -
  have "sqrt 25 = (5 :: real)" by (rule real_sqrt_unique) simp_all
  then show ?thesis
    using makeLookAt_view [where e = "(3, 4, 0)" and c = "(0, 0, 0)" and u = "(0, 0, 1)"]
    by (simp add: dot3_def sub3_def cross3_def Let_def)
qed



text \<open>Rotations are rigid: the matrix that \<open>makeRotate\<close> builds for any angle and any axis that is
  not zero has orthonormal columns, and \<open>inverseOrthonormal\<close> of it, translated in any way, is its
  inverse.\<close>

theorem inverseOrthonormal_inverts:
  assumes "dot3 u u \<noteq> 0"
  shows "\<exists>a. M4x4_makeRotate f64 (Fin t) (vec3 u) = mat a \<and> rigid a \<and>
           M4x4_mul f64 (M4x4_inverseOrthonormal f64 (mat (a[12 := x, 13 := y, 14 := z])))
             (mat (a[12 := x, 13 := y, 14 := z])) = M4x4_I"
proof -
  let ?a = "rrotation t (unit3 u)"
  have r: "rigid ?a" by (rule rrotation_rigid [OF V3_normalize_vec3(2) [OF assms]])
  then have "rigid (?a[12 := x, 13 := y, 14 := z])" by (simp add: rigid_def affine_def)
  with r inverseOrthonormal_rigid makeRotate_mat [OF assms] show ?thesis by blast
qed

lemma inverseOrthonormal_witness:
  "\<exists>a. M4x4_makeRotate f64 (Fin 1) (vec3 (1, 2, 2)) = mat a \<and> rigid a \<and>
     M4x4_mul f64 (M4x4_inverseOrthonormal f64 (mat (a[12 := 7, 13 := 8, 14 := 9])))
       (mat (a[12 := 7, 13 := 8, 14 := 9])) = M4x4_I"
  by (rule inverseOrthonormal_inverts) (simp add: dot3_def)

text \<open>The two ways to apply a matrix to a point agree on all numbers, the special values included:
  \<open>M4x4.transformPoint\<close> skips the division when the fourth coordinate is 1, and \<open>V3.mul4x4\<close> always
  divides.\<close>

theorem transformPoint_equals_mul4x4: "M4x4_transformPoint f64 m v = V3_mul4x4 f64 m v"
  by (rule transformPoint_mul4x4)

text \<open>Two functions of the matrix library cannot work: \<open>mulOffset\<close> throws on every input unless the
  program happens to have a global \<open>a11\<close>, and \<open>mulAffine\<close> called with two or three arguments, as
  its first definition is meant to be, returns the zero matrix or leaves \<open>r\<close> as it is.\<close>

theorem broken_products:
  assumes "globals ''a11'' = None"
  shows "M4x4_mulOffset globals st a b r k = None \<and>
         M4x4_mulAffine st a b None None = replicate 16 0 \<and>
         M4x4_mulAffine st a b (Some r) None = r"
  using assms by (simp add: M4x4_mulOffset_def M4x4_mulAffine_def Let_def)

lemma broken_products_witness:
  "M4x4_mulAffine f32 M4x4_I M4x4_I None None = replicate 16 0 \<and>
   M4x4_mulAffine_first f32 M4x4_I M4x4_I = M4x4_I"
  using broken_products [of Map.empty f32 M4x4_I M4x4_I]
  by (simp add: M4x4_mulAffine_first_def M4x4_I_def Let_def)

end
