(* ===== verification/Frustum.thy ===== *)
theory Frustum
  imports Matrices
begin

text \<open>
  The frustum tests of \<open>js/frustum_querier.js\<close>: the six normalized planes of a projection matrix and
  the classification of a bounding sphere against them. \<open>frustum\<close> is an ordinary array, so nothing is
  rounded.

  The classification is shown sound for exact arithmetic: a sphere that is classified as outside has
  no point in the view volume of the matrix, and one that is classified as inside lies in it
  entirely. The hypothesis that the elements 3 and 12 of the matrix are equal is needed, since the
  code reads the second where the first is meant; the perspective matrices of the program satisfy it.
\<close>

section \<open>Planes and spheres\<close>

text \<open>Four coefficients, divided by the length of the normal.\<close>

definition normalized_plane :: "jsnum \<Rightarrow> jsnum \<Rightarrow> jsnum \<Rightarrow> jsnum \<Rightarrow> farray" where
  "normalized_plane a b c d =
     (let norm = Math_sqrt (a * a + b * b + c * c)
      in [a / norm, b / norm, c / norm, d / norm])"

definition extract_frustum_planes :: "farray \<Rightarrow> farray" where
  "extract_frustum_planes t =
     normalized_plane (idx t (0+3*4) - idx t (0+0*4)) (idx t (3+1*4) - idx t (0+1*4))
       (idx t (3+2*4) - idx t (0+2*4)) (idx t (3+3*4) - idx t (0+3*4)) @
     normalized_plane (idx t (0+3*4) + idx t (0+0*4)) (idx t (3+1*4) + idx t (0+1*4))
       (idx t (3+2*4) + idx t (0+2*4)) (idx t (3+3*4) + idx t (0+3*4)) @
     normalized_plane (idx t (0+3*4) + idx t (1+0*4)) (idx t (3+1*4) + idx t (1+1*4))
       (idx t (3+2*4) + idx t (1+2*4)) (idx t (3+3*4) + idx t (1+3*4)) @
     normalized_plane (idx t (0+3*4) - idx t (1+0*4)) (idx t (3+1*4) - idx t (1+1*4))
       (idx t (3+2*4) - idx t (1+2*4)) (idx t (3+3*4) - idx t (1+3*4)) @
     normalized_plane (idx t (0+3*4) + idx t (2+0*4)) (idx t (3+1*4) + idx t (2+1*4))
       (idx t (3+2*4) + idx t (2+2*4)) (idx t (3+3*4) + idx t (2+3*4)) @
     normalized_plane (idx t (0+3*4) - idx t (2+0*4)) (idx t (3+1*4) - idx t (2+1*4))
       (idx t (3+2*4) - idx t (2+2*4)) (idx t (3+3*4) - idx t (2+3*4))"

text \<open>The signed distance of a point from the plane at index \<open>i\<close>, as each loop computes it.\<close>

definition plane_dist :: "farray \<Rightarrow> nat \<Rightarrow> farray \<Rightarrow> jsnum" where
  "plane_dist planes i pnt =
     idx planes (i+0) * idx pnt 0 + idx planes (i+1) * idx pnt 1 + idx planes (i+2) * idx pnt 2 +
     idx planes (i+3)"

definition plane_indices :: "nat list" where
  "plane_indices = [0, 4, 8, 12, 16, 20]"

fun isPart_loop :: "farray \<Rightarrow> jsnum \<Rightarrow> farray \<Rightarrow> nat list \<Rightarrow> bool" where
  "isPart_loop planes r pnt [] = True"
| "isPart_loop planes r pnt (i # is) =
     (if plane_dist planes i pnt < - r then False else isPart_loop planes r pnt is)"

definition isPartInsideFrustum :: "farray \<Rightarrow> jsnum \<Rightarrow> farray \<Rightarrow> bool" where
  "isPartInsideFrustum planes r pnt = isPart_loop planes r pnt plane_indices"

fun isInside_loop :: "farray \<Rightarrow> jsnum \<Rightarrow> farray \<Rightarrow> jsnum \<Rightarrow> nat list \<Rightarrow> int" where
  "isInside_loop planes r pnt min_n [] = (if min_n > r then 1 else 0)"
| "isInside_loop planes r pnt min_n (i # is) =
     (let n = plane_dist planes i pnt
      in if n < - r then -1 else isInside_loop planes r pnt (Math_min min_n n) is)"

definition isInsideFrustum :: "farray \<Rightarrow> jsnum \<Rightarrow> farray \<Rightarrow> int" where
  "isInsideFrustum planes r pnt = isInside_loop planes r pnt (2 * r) plane_indices"

fun distance_loop :: "farray \<Rightarrow> jsnum \<Rightarrow> farray \<Rightarrow> jsnum \<Rightarrow> nat list \<Rightarrow> jsnum" where
  "distance_loop planes r pnt min_dist [] = min_dist"
| "distance_loop planes r pnt min_dist (i # is) =
     (let n = plane_dist planes i pnt
      in if n \<le> - r then - r else distance_loop planes r pnt (Math_min min_dist n) is)"

definition distanceToFrustum :: "farray \<Rightarrow> jsnum \<Rightarrow> farray \<Rightarrow> jsnum" where
  "distanceToFrustum planes r pnt = distance_loop planes r pnt (2 * r) plane_indices"

section \<open>The loops\<close>

lemma isPart_loop_iff: "isPart_loop planes r p is \<longleftrightarrow> (\<forall>i \<in> set is. \<not> plane_dist planes i p < - r)"
  by (induction "is") auto

lemma isInside_range: "isInside_loop planes r p m is \<in> {-1, 0, 1}"
  by (induction "is" arbitrary: m) (auto simp: Let_def)

lemma isInside_outside_iff:
  "isInside_loop planes r p m is = -1 \<longleftrightarrow> (\<exists>i \<in> set is. plane_dist planes i p < - r)"
  by (induction "is" arbitrary: m) (auto simp: Let_def)

lemma greater_Math_min: "r < Math_min a b \<longleftrightarrow> r < a \<and> r < b"
  by (cases r; cases a; cases b) (auto simp: Math_min_def)

lemma isInside_inside_iff:
  "isInside_loop planes r p m is = 1 \<longleftrightarrow>
     r < m \<and> (\<forall>i \<in> set is. r < plane_dist planes i p \<and> \<not> plane_dist planes i p < - r)"
  by (induction "is" arbitrary: m) (auto simp: Let_def greater_Math_min)

lemma distance_loop_inside:
  "\<forall>i \<in> set is. \<not> plane_dist planes i p \<le> - r \<Longrightarrow>
     r < distance_loop planes r p m is \<longleftrightarrow> r < m \<and> (\<forall>i \<in> set is. r < plane_dist planes i p)"
  by (induction "is" arbitrary: m) (auto simp: Let_def greater_Math_min)

lemma distance_loop_outside:
  "\<exists>i \<in> set is. plane_dist planes i p \<le> - r \<Longrightarrow> distance_loop planes r p m is = - r"
  by (induction "is" arbitrary: m) (auto simp: Let_def)

section \<open>The view volume\<close>

text \<open>
  The planes of a matrix of finite numbers as tuples of normal and offset, before normalization, and
  the value of a plane at a point.
\<close>

type_synonym plane = "(real \<times> real \<times> real) \<times> real"

definition plane_value :: "plane \<Rightarrow> real \<times> real \<times> real \<Rightarrow> real" where
  "plane_value = (\<lambda>(n, d) q. dot3 n q + d)"

definition row_plane :: "real list \<Rightarrow> nat \<Rightarrow> plane" where
  "row_plane t i = ((t!i, t!(4 + i), t!(8 + i)), t!(12 + i))"

definition plane_sum :: "real \<Rightarrow> plane \<Rightarrow> plane \<Rightarrow> plane" where
  "plane_sum k = (\<lambda>((a, b, c), d) ((a', b', c'), d'). ((a + k * a', b + k * b', c + k * c'), d + k * d'))"

text \<open>The planes in the order of the code: right, left, bottom, top, near, far.\<close>

definition clip_planes :: "real list \<Rightarrow> plane list" where
  "clip_planes t =
     (let w = row_plane t 3; x = row_plane t 0; y = row_plane t 1; z = row_plane t 2
      in [plane_sum (-1) w x, plane_sum 1 w x, plane_sum 1 w y, plane_sum (-1) w y,
          plane_sum 1 w z, plane_sum (-1) w z])"

text \<open>A point is in the view volume when its clip coordinates are between \<open>-w\<close> and \<open>w\<close>.\<close>

definition in_view :: "real list \<Rightarrow> real \<times> real \<times> real \<Rightarrow> bool" where
  "in_view t q \<longleftrightarrow>
     (let w = plane_value (row_plane t 3) q
      in \<forall>i < 3. - w \<le> plane_value (row_plane t i) q \<and> plane_value (row_plane t i) q \<le> w)"

lemma plane_value_sum: "plane_value (plane_sum k p p') q = plane_value p q + k * plane_value p' q"
  by (cases p; cases p'; cases q) (auto simp: plane_value_def plane_sum_def dot3_def algebra_simps)

lemma all_less_3: "(\<forall>i < (3 :: nat). P i) \<longleftrightarrow> P 0 \<and> P 1 \<and> P 2"
  by (auto simp: numeral_eq_Suc less_Suc_eq)

lemma in_view_planes: "in_view t q \<longleftrightarrow> (\<forall>p \<in> set (clip_planes t). 0 \<le> plane_value p q)"
  by (auto simp: in_view_def clip_planes_def Let_def plane_value_sum all_less_3)

text \<open>Normalizing a plane, and the planes of the code.\<close>

definition unit_plane :: "plane \<Rightarrow> plane" where
  "unit_plane = (\<lambda>(n, d). (unit3 n, d / sqrt (dot3 n n)))"

definition plane_array :: "plane \<Rightarrow> farray" where
  "plane_array = (\<lambda>((a, b, c), d). [Fin a, Fin b, Fin c, Fin d])"

lemma normalized_plane_Fin:
  assumes "dot3 (a, b, c) (a, b, c) \<noteq> 0"
  shows "normalized_plane (Fin a) (Fin b) (Fin c) (Fin d) = plane_array (unit_plane ((a, b, c), d))"
proof -
  have "0 \<le> a * a + b * b + c * c" by (rule sum_squares_nonneg)
  with assms show ?thesis
    by (simp add: normalized_plane_def unit_plane_def unit3_def scale3_def plane_array_def dot3_def
        Let_def not_less)
qed

definition proper_planes :: "real list \<Rightarrow> bool" where
  "proper_planes t \<longleftrightarrow> length t = 16 \<and> t!12 = t!3 \<and> (\<forall>(n, d) \<in> set (clip_planes t). dot3 n n \<noteq> 0)"

lemma extract_planes:
  assumes "proper_planes t"
  shows "extract_frustum_planes (mat t) = concat (map (plane_array \<circ> unit_plane) (clip_planes t))"
proof -
  have t: "length t = 16" "t!12 = t!3" using assms by (simp_all add: proper_planes_def)
  note E = idx_mat [OF t(1)]
  have nz: "\<forall>(n, d) \<in> set (clip_planes t). dot3 n n \<noteq> 0" using assms by (simp add: proper_planes_def)
  show ?thesis
    using nz unfolding extract_frustum_planes_def
    by (simp add: E clip_planes_def Let_def row_plane_def plane_sum_def normalized_plane_Fin t(2))
qed

lemma plane_array_simps [simp]:
  "length (plane_array p) = 4"
  "idx (plane_array ((a, b, c), d)) 0 = Fin a" "idx (plane_array ((a, b, c), d)) (Suc 0) = Fin b"
  "idx (plane_array ((a, b, c), d)) 2 = Fin c" "idx (plane_array ((a, b, c), d)) 3 = Fin d"
  by (cases p; simp add: plane_array_def split_beta) (simp_all add: plane_array_def)

lemma idx_append:
  "idx (xs @ ys) i = (if i < length xs then idx xs i else idx ys (i - length xs))"
  by (auto simp: idx_def nth_append)

lemma plane_dist_append:
  assumes "length xs = k"
  shows "plane_dist (xs @ plane_array p @ ys) k (vec3 q) = Fin (plane_value p q)"
proof -
  obtain a b c d where p: "p = ((a, b, c), d)" by (cases p) auto
  show ?thesis
    by (cases q) (simp add: plane_dist_def idx_append assms vec3_def plane_value_def dot3_def p)
qed

lemma plane_dists:
  assumes "proper_planes t"
  shows "map (\<lambda>i. plane_dist (extract_frustum_planes (mat t)) i (vec3 q)) plane_indices =
           map (\<lambda>p. Fin (plane_value (unit_plane p) q)) (clip_planes t)"
proof -
  obtain a b c d e f where ps: "clip_planes t = [a, b, c, d, e, f]"
    by (simp add: clip_planes_def Let_def)
  let ?n = "plane_array \<circ> unit_plane"
  have X: "extract_frustum_planes (mat t) = ?n a @ ?n b @ ?n c @ ?n d @ ?n e @ ?n f"
    by (simp add: extract_planes [OF assms] ps)
  show ?thesis
    unfolding X ps plane_indices_def
    using plane_dist_append [of "[]" 0 "unit_plane a" "?n b @ ?n c @ ?n d @ ?n e @ ?n f" q]
      plane_dist_append [of "?n a" 4 "unit_plane b" "?n c @ ?n d @ ?n e @ ?n f" q]
      plane_dist_append [of "?n a @ ?n b" 8 "unit_plane c" "?n d @ ?n e @ ?n f" q]
      plane_dist_append [of "?n a @ ?n b @ ?n c" 12 "unit_plane d" "?n e @ ?n f" q]
      plane_dist_append [of "?n a @ ?n b @ ?n c @ ?n d" 16 "unit_plane e" "?n f" q]
      plane_dist_append [of "?n a @ ?n b @ ?n c @ ?n d @ ?n e" 20 "unit_plane f" "[]" q]
    by simp
qed

lemma ball_planes:
  assumes "proper_planes t"
  shows "(\<forall>i \<in> set plane_indices. P (plane_dist (extract_frustum_planes (mat t)) i (vec3 q))) \<longleftrightarrow>
           (\<forall>p \<in> set (clip_planes t). P (Fin (plane_value (unit_plane p) q)))"
proof -
  have "(\<forall>x \<in> set (map (\<lambda>i. plane_dist (extract_frustum_planes (mat t)) i (vec3 q)) plane_indices). P x) \<longleftrightarrow>
      (\<forall>x \<in> set (map (\<lambda>p. Fin (plane_value (unit_plane p) q)) (clip_planes t)). P x)"
    by (simp only: plane_dists [OF assms])
  then show ?thesis by simp
qed

lemma unit_plane_sign:
  assumes "dot3 (fst p) (fst p) \<noteq> 0"
  shows "0 \<le> plane_value (unit_plane p) q \<longleftrightarrow> 0 \<le> plane_value p q"
proof -
  obtain n d where p: "p = (n, d)" by (cases p)
  have "0 < sqrt (dot3 n n)" using assms dot3_nonneg [of n] by (simp add: p less_le)
  moreover have "plane_value (unit_plane p) q = plane_value p q / sqrt (dot3 n n)"
    by (simp add: p plane_value_def unit_plane_def unit3_def add_divide_distrib)
  ultimately show ?thesis by (simp add: zero_le_divide_iff)
qed

lemma cauchy_schwarz3: "dot3 u v * dot3 u v \<le> dot3 u u * dot3 v v"
  using cross3_norm [of u v] dot3_nonneg [of "cross3 u v"] by linarith

lemma plane_value_near:
  assumes "dot3 (fst p) (fst p) \<noteq> 0" "dot3 (sub3 q c) (sub3 q c) \<le> r * r" "0 \<le> r"
  shows "\<bar>plane_value (unit_plane p) q - plane_value (unit_plane p) c\<bar> \<le> r"
proof -
  obtain n d where p: "p = (n, d)" by (cases p)
  let ?u = "unit3 n"
  have "dot3 ?u ?u = 1" using assms(1) V3_normalize_vec3(2) [of n] by (simp add: p)
  then have "dot3 ?u (sub3 q c) * dot3 ?u (sub3 q c) \<le> r * r"
    using cauchy_schwarz3 [of ?u "sub3 q c"] assms(2) by simp
  then have "\<bar>dot3 ?u (sub3 q c)\<bar> \<le> r"
    using assms(3) by (metis abs_le_square_iff abs_of_nonneg power2_eq_square)
  then show ?thesis by (simp add: p plane_value_def unit_plane_def dot3_sub3)
qed

section \<open>The perspective matrices\<close>

definition perspective :: "real \<Rightarrow> real \<Rightarrow> real \<Rightarrow> real \<Rightarrow> real list" where
  "perspective th aspect zn zf =
     [1 / (th * aspect), 0, 0, 0, 0, 1 / th, 0, 0, 0, 0, - (zf + zn) / (zf - zn), -1,
      0, 0, - 2 * zf * zn / (zf - zn), 0]"

lemma makePerspective_mat:
  assumes "0 < zn" "zn < zf" "0 < aspect" "0 < tan (fovy * pi / 360)"
  shows "M4x4_makePerspective f64 (Fin fovy) (Fin aspect) (Fin zn) (Fin zf) =
           mat (perspective (tan (fovy * pi / 360)) aspect zn zf)"
proof -
  define th where "th = tan (fovy * pi / 360)"
  have th: "0 < th" using assms(4) by (simp add: th_def)
  have T: "Math_tan (Fin fovy * Math_PI / 360) = Fin th" by (simp add: Math_PI_def th_def)
  show ?thesis
    unfolding M4x4_makePerspective_def T th_def [symmetric]
    using assms(1-3) th
    by (simp add: M4x4_makeFrustum_def Let_def mat_def perspective_def field_simps)
qed

lemma perspective_proper:
  assumes "0 < zn" "zn < zf" "0 < aspect" "0 < th"
  shows "proper_planes (perspective th aspect zn zf)"
proof -
  have Z: "dot3 (a, b, c) (a, b, c) = 0 \<longleftrightarrow> a = 0 \<and> b = 0 \<and> c = 0" for a b c
    using sum_squares_zero_iff [of a b c] by (simp add: dot3_def)
  have "-1 - (- zf - zn) / (zf - zn) \<noteq> 0" "-1 + (- zf - zn) / (zf - zn) \<noteq> 0"
    using assms(1,2) by (simp_all add: field_simps)
  then show ?thesis
    using assms
    by (simp add: proper_planes_def clip_planes_def Let_def row_plane_def plane_sum_def
        perspective_def Z)
qed

text \<open>The view volume of a perspective in the camera frame, which looks along the negative z axis.\<close>

lemma perspective_view:
  assumes "0 < zn" "zn < zf" "0 < aspect" "0 < th"
  shows "in_view (perspective th aspect zn zf) (x, y, z) \<longleftrightarrow>
           zn \<le> - z \<and> - z \<le> zf \<and> \<bar>x\<bar> \<le> th * aspect * - z \<and> \<bar>y\<bar> \<le> th * - z"
proof -
  have d: "0 < zf - zn" "0 < th * aspect" using assms by simp_all
  have v: "plane_value (row_plane (perspective th aspect zn zf) 3) (x, y, z) = - z"
    "plane_value (row_plane (perspective th aspect zn zf) 0) (x, y, z) = x / (th * aspect)"
    "plane_value (row_plane (perspective th aspect zn zf) 1) (x, y, z) = y / th"
    "plane_value (row_plane (perspective th aspect zn zf) 2) (x, y, z) =
       (- (zf + zn) * z - 2 * zf * zn) / (zf - zn)"
    by (simp_all add: plane_value_def row_plane_def perspective_def dot3_def diff_divide_distrib
        left_diff_distrib)
  have xy: "z \<le> x / (th * aspect) \<and> x / (th * aspect) \<le> - z \<longleftrightarrow> \<bar>x\<bar> \<le> th * aspect * - z"
    "z \<le> y / th \<and> y / th \<le> - z \<longleftrightarrow> \<bar>y\<bar> \<le> th * - z"
    using d(2) assms(4) by (auto simp: abs_le_iff pos_le_divide_eq pos_divide_le_eq mult.commute)
  have "(- (zf + zn) * z - 2 * zf * zn) / (zf - zn) \<le> - z \<longleftrightarrow> zn * - z \<le> zn * zf"
      "z \<le> (- (zf + zn) * z - 2 * zf * zn) / (zf - zn) \<longleftrightarrow> zf * zn \<le> zf * - z"
    using d(1) by (auto simp: pos_le_divide_eq pos_divide_le_eq algebra_simps)
  then have "z \<le> (- (zf + zn) * z - 2 * zf * zn) / (zf - zn) \<and>
      (- (zf + zn) * z - 2 * zf * zn) / (zf - zn) \<le> - z \<longleftrightarrow> zn \<le> - z \<and> - z \<le> zf"
    using assms(1,2) mult_le_cancel_left_pos [of zf zn "- z"] mult_le_cancel_left_pos [of zn "- z" zf]
    by auto
  with xy show ?thesis unfolding in_view_def Let_def all_less_3 v by auto
qed

text \<open>What a result of the classification means for the points of the sphere.\<close>

lemma classification_sound:
  assumes t: "proper_planes t" and q: "dot3 (sub3 q c) (sub3 q c) \<le> r * r" "0 \<le> r"
  shows "isInsideFrustum (extract_frustum_planes (mat t)) (Fin r) (vec3 c) = 1 \<Longrightarrow> in_view t q"
    and "isInsideFrustum (extract_frustum_planes (mat t)) (Fin r) (vec3 c) = -1 \<Longrightarrow> \<not> in_view t q"
proof -
  have nz: "dot3 (fst p) (fst p) \<noteq> 0" if "p \<in> set (clip_planes t)" for p
    using t that by (auto simp: proper_planes_def)
  note near = plane_value_near [OF nz q]
  show "in_view t q" if "isInsideFrustum (extract_frustum_planes (mat t)) (Fin r) (vec3 c) = 1"
  proof -
    have "\<forall>p \<in> set (clip_planes t). r < plane_value (unit_plane p) c"
      using that ball_planes [OF t, of "\<lambda>x. Fin r < x \<and> \<not> x < - Fin r" c]
      by (simp add: isInsideFrustum_def isInside_inside_iff)
    then have "0 \<le> plane_value (unit_plane p) q" if "p \<in> set (clip_planes t)" for p
      using near [OF that] that by fastforce
    then show ?thesis using unit_plane_sign [OF nz] by (simp add: in_view_planes)
  qed
  show "\<not> in_view t q" if "isInsideFrustum (extract_frustum_planes (mat t)) (Fin r) (vec3 c) = -1"
  proof -
    have "\<not> (\<forall>p \<in> set (clip_planes t). \<not> plane_value (unit_plane p) c < - r)"
      using that ball_planes [OF t, of "\<lambda>x. \<not> x < - Fin r" c]
      by (auto simp: isInsideFrustum_def isInside_outside_iff)
    then obtain p where p: "p \<in> set (clip_planes t)" "plane_value (unit_plane p) c < - r" by blast
    with near [OF p(1)] have "\<not> 0 \<le> plane_value (unit_plane p) q" by linarith
    with p(1) unit_plane_sign [OF nz] show ?thesis by (auto simp: in_view_planes)
  qed
qed

section \<open>Properties\<close>

text \<open>C7. Culling is sound for the perspective matrices of the program: in exact arithmetic, a sphere
  that \<open>isInsideFrustum\<close> classifies as 1 lies entirely in the view volume of \<open>makePerspective\<close>, and
  one that it classifies as -1 has no point in it, so no visible cell is dropped.\<close>

theorem culling_sound:
  assumes "0 < zn" "zn < zf" "0 < aspect" "0 < tan (fovy * pi / 360)" "0 \<le> r"
    and "dot3 (sub3 (x, y, z) c) (sub3 (x, y, z) c) \<le> r * r"
  shows "let k = isInsideFrustum (extract_frustum_planes
             (M4x4_makePerspective f64 (Fin fovy) (Fin aspect) (Fin zn) (Fin zf))) (Fin r) (vec3 c);
             visible = (zn \<le> - z \<and> - z \<le> zf \<and> \<bar>x\<bar> \<le> tan (fovy * pi / 360) * aspect * - z \<and>
               \<bar>y\<bar> \<le> tan (fovy * pi / 360) * - z)
         in k \<in> {-1, 0, 1} \<and> (k = 1 \<longrightarrow> visible) \<and> (k = -1 \<longrightarrow> \<not> visible)"
proof -
  note P = perspective_proper [OF assms(1-4)]
  show ?thesis
    using classification_sound [OF P assms(6,5)]
      isInside_range [of "extract_frustum_planes (mat (perspective (tan (fovy * pi / 360)) aspect zn zf))"]
    unfolding makePerspective_mat [OF assms(1-4)] perspective_view [OF assms(1-4)] Let_def
    by (auto simp: isInsideFrustum_def)
qed

lemma culling_sound_witness:
  "isInsideFrustum (extract_frustum_planes (M4x4_makePerspective f64 (Fin 90) (Fin 1) (Fin 1) (Fin 100)))
     (Fin 1) (vec3 (0, 0, -50)) \<noteq> -1"
proof -
  show ?thesis
    using culling_sound [where zn = 1 and zf = 100 and aspect = 1 and fovy = 90 and r = 1 and x = 0
        and y = 0 and z = "-50" and c = "(0, 0, -50)"]
    by (auto simp: tan_45 triple_simps Let_def)
qed



text \<open>The planes are wrong for a matrix whose elements 3 and 12 differ: the code reads \<open>t[0+3*4]\<close>
  for the first coefficient where the row of \<open>w\<close> starts at \<open>t[3+0*4]\<close>. Under a translation by 3
  along x, the sphere around (-3, 0, 0), whose centre is mapped to the middle of the view volume, is
  classified as outside.\<close>

theorem planes_misread_element:
  "in_view [1, 0, 0, 0, 0, 1, 0, 0, 0, 0, 1, 0, 3, 0, 0, 1] (-3, 0, 0) \<and>
   isInsideFrustum (extract_frustum_planes
     (mat [1, 0, 0, 0, 0, 1, 0, 0, 0, 0, 1, 0, 3, 0, 0, 1])) (Fin 1) (vec3 (-3, 0, 0)) = -1"
proof
  show "in_view [1, 0, 0, 0, 0, 1, 0, 0, 0, 0, 1, 0, 3, 0, 0, 1] (-3, 0, 0)"
    by (simp add: in_view_def all_less_3 plane_value_def row_plane_def dot3_def Let_def)
  let ?t = "mat [1, 0, 0, 0, 0, 1, 0, 0, 0, 0, 1, 0, 3, 0, 0, 1]"
  have n: "normalized_plane (Fin 2) (Fin 0) (Fin 0) (Fin (-2)) = plane_array ((1, 0, 0), -1)"
    by (simp add: normalized_plane_def plane_array_def Let_def)
  obtain rest where "extract_frustum_planes ?t = plane_array ((1, 0, 0), -1) @ rest"
    unfolding extract_frustum_planes_def by (simp add: n)
  then have "plane_dist (extract_frustum_planes ?t) 0 (vec3 (-3, 0, 0)) < - Fin 1"
    by (simp add: plane_dist_def idx_append vec3_def plane_value_def eval_nat_numeral(2) [symmetric]
        numeral_2_eq_2 [symmetric])
  then show "isInsideFrustum (extract_frustum_planes ?t) (Fin 1) (vec3 (-3, 0, 0)) = -1"
    by (simp add: isInsideFrustum_def plane_indices_def)
qed

end
