(* ===== verification/Querier.thy ===== *)
theory Querier
  imports CellModel Frustum LruCache
begin

text \<open>
  The frustum query of \<open>js/frustum_querier.js\<close> (\<open>FrustumQuerier\<close>) with \<open>getCell\<close> of \<open>js/megatree.js\<close>: a
  breadth-first walk over the tree that asks for cells, some of which are in the cache and arrive at
  once, while others arrive later from the server.

  The record \<open>querier\<close> holds the fields of the object, the store of cells (objects that the queue, the
  cache and the \<open>parent_cell\<close> references share), the requests that are under way, the timers that
  are set and the results that were handed to the callbacks. A request remembers its continuation:
  the success callback with the variables it captures. Two of them are declared with \<open>var\<close> in a
  loop, so all callbacks of one call share them (\<open>tree_env\<close>, \<open>child_env\<close>) and a callback that runs
  later reads the last value.

  \<open>processQueue\<close> and \<open>processCell\<close> call each other through the callback of a cell that is in the
  cache, so they are mutually recursive and take fuel; running out of it is an error value of its own,
  apart from the exceptions of the code. \<open>handle\<close> is one event: a call of \<open>getFrustum\<close>, the end of a
  request, or a timer.
\<close>

section \<open>State\<close>

record tree_info =
  t_enabled :: bool
  t_override :: bool
  t_color :: farray
  t_root :: ident
  t_geom :: geom

text \<open>The globals that the query reads; \<open>trees_info\<close> has \<open>null\<close> where a tree was removed.\<close>

record config =
  store :: "jsnum \<Rightarrow> jsnum"
  desired_cell_count :: jsnum
  min_box_size_meters :: jsnum
  RUN_ON_CACHE_ONLY :: bool
  trees :: "nat \<Rightarrow> tree_info"
  trees_info :: "nat option list"

datatype cont = RootCont nat | ChildCont addr nat

record request =
  r_id :: ident
  r_geom :: geom
  r_cont :: cont

datatype timer = ProcessTimer | TriggerTimer int

datatype report = Progress "cell list" | Finished "cell list"

record querier =
  cells :: "addr \<Rightarrow> cell"
  next_cell :: addr
  cell_cache :: "addr lru"
  frustum_planes :: farray
  cameraMatrix :: farray
  inFlight :: int
  resolution_correction :: jsnum
  resolution_step :: jsnum
  cell_count :: jsnum
  completed_full :: bool
  g_m :: jsnum
  corrected_g_m :: jsnum
  corrected_g_m_sq :: jsnum
  last_trigger :: int
  queue :: "addr list"
  queue_index :: nat
  storageRequests :: "nat list"
  isProcessingQueue :: bool
  interrupt_query :: bool
  calls_in_a_row :: nat
  tree_env :: "nat \<Rightarrow> nat option"
  child_env :: "nat \<Rightarrow> int"
  next_env :: nat
  xhrs :: "nat \<rightharpoonup> request"
  next_xhr :: nat
  timers :: "timer list"
  outputs :: "report list"
  bytes_downloaded :: nat

datatype qerror = Out_of_fuel | Type_error | Range_error

definition bind_res :: "'e + 'a \<Rightarrow> ('a \<Rightarrow> 'e + 'b) \<Rightarrow> 'e + 'b" where
  "bind_res r f = (case r of Inl e \<Rightarrow> Inl e | Inr x \<Rightarrow> f x)"

lemma bind_res_simps [simp]: "bind_res (Inl e) f = Inl e" "bind_res (Inr x) f = f x"
  by (simp_all add: bind_res_def)

lemma bind_res_Inr_iff: "bind_res r f = Inr y \<longleftrightarrow> (\<exists>x. r = Inr x \<and> f x = Inr y)"
  by (cases r) simp_all

section \<open>Requests\<close>

text \<open>\<open>abort()\<close> of every request of this query; aborted requests have no event.\<close>

definition cancel :: "querier \<Rightarrow> querier" where
  "cancel s = s\<lparr>xhrs := xhrs s |` (- set (storageRequests s)), inFlight := 0\<rparr>"

text \<open>The two halves of \<open>getCell\<close>: the lookup in the cache, and the request.\<close>

definition cache_get :: "ident \<Rightarrow> querier \<Rightarrow> qerror + addr option \<times> querier" where
  "cache_get i s =
     (case LRUCache_get i (cell_cache s) of
        None \<Rightarrow> Inl Type_error
      | Some (r, c) \<Rightarrow> Inr (r, s\<lparr>cell_cache := c\<rparr>))"

definition send_request :: "config \<Rightarrow> ident \<Rightarrow> geom \<Rightarrow> cont \<Rightarrow> querier \<Rightarrow> querier" where
  "send_request cfg i g k s =
     (if RUN_ON_CACHE_ONLY cfg then s
      else s\<lparr>xhrs := (xhrs s)(next_xhr s \<mapsto> \<lparr>r_id = i, r_geom = g, r_cont = k\<rparr>),
             storageRequests := storageRequests s @ [next_xhr s], next_xhr := next_xhr s + 1\<rparr>)"

definition update_cell :: "addr \<Rightarrow> (cell \<Rightarrow> cell) \<Rightarrow> querier \<Rightarrow> querier" where
  "update_cell a f s = s\<lparr>cells := (cells s)(a := f (cells s a))\<rparr>"

text \<open>
  The success callbacks up to the call of \<open>processQueue\<close>: the cell is told its colour (and its parent
  and its place in the frustum) and put on the queue. The \<open>tree_info\<close> of a removed tree is \<open>null\<close>.
\<close>

definition deliver :: "config \<Rightarrow> cont \<Rightarrow> addr \<Rightarrow> querier \<Rightarrow> qerror + querier" where
  "deliver cfg k b s =
     (case k of
        RootCont e \<Rightarrow>
          (case tree_env s e of
             None \<Rightarrow> Inl Type_error
           | Some t \<Rightarrow>
               (let color = (if t_override (trees cfg t) then t_color (trees cfg t)
                             else [Fin (-1), Fin (-1), Fin (-1)]);
                    s = update_cell b (\<lambda>c. c\<lparr>override_color := color\<rparr>) s
                in Inr (s\<lparr>queue := queue s @ [b], inFlight := inFlight s - 1\<rparr>)))
      | ChildCont a e \<Rightarrow>
          (let s = update_cell b (\<lambda>c. c\<lparr>override_color := override_color (cells s a)\<rparr>) s;
               s = update_cell b (\<lambda>c. c\<lparr>parent_cell := Some a\<rparr>) s;
               s = update_cell b (\<lambda>c. c\<lparr>inside_frustum := child_env s e\<rparr>) s
           in Inr (s\<lparr>queue := queue s @ [b], inFlight := inFlight s - 1\<rparr>)))"

section \<open>Processing the queue\<close>

definition hide_child :: "addr \<Rightarrow> nat \<Rightarrow> querier \<Rightarrow> querier" where
  "hide_child a child = update_cell a (\<lambda>c. c\<lparr>show_children := show_children c AND NOT (bit_mask child)\<rparr>)"

text \<open>The shift by NaN of a cell whose id does not end in a digit is a shift by zero.\<close>

definition octant_no :: "cell \<Rightarrow> nat" where
  "octant_no c = (case which_child c of None \<Rightarrow> 0 | Some k \<Rightarrow> k)"

definition num_cells :: "querier \<Rightarrow> jsnum" where
  "num_cells s = cell_count s + Fin (of_int (inFlight s))"

text \<open>\<open>processCell\<close> up to its loop; the result says whether the loop is reached.\<close>

definition begin_cell :: "config \<Rightarrow> addr \<Rightarrow> querier \<Rightarrow> bool \<times> querier" where
  "begin_cell cfg a s =
     (if num_cells s > desired_cell_count cfg * Fin 1.5 then
        (let s = s\<lparr>interrupt_query := True, cell_count := num_cells s\<rparr>;
             s = cancel s
         in (False, s\<lparr>timers := timers s @ [TriggerTimer (-1)]\<rparr>))
      else
        (let s = s\<lparr>cell_count := cell_count s + 1\<rparr>;
             s = update_cell a (\<lambda>c. c\<lparr>show_children := Cell_getChildren c\<rparr>) s;
             s = (case parent_cell (cells s a) of None \<Rightarrow> s
                  | Some p \<Rightarrow> hide_child p (octant_no (cells s a)) s);
             cell = cells s a
         in if Cell_isLeaf cell then (False, s)
            else
              (let cell_in_camera =
                     V3_mul4x4 (store cfg) (cameraMatrix s) (Cell_getCenter (store cfg) cell);
                   dist_sq = V3_lengthSquared cell_in_camera
               in if node_size cell * node_size cell \<le> corrected_g_m_sq s * dist_sq then (False, s)
                  else (True, s))))"

definition child_id :: "cell \<Rightarrow> nat \<Rightarrow> ident" where
  "child_id c child = cid c @ [char_of (48 + child)]"

text \<open>The value that the loop assigns to \<open>child_in_frustum\<close>.\<close>

definition child_frustum :: "config \<Rightarrow> querier \<Rightarrow> cell \<Rightarrow> geom \<Rightarrow> int" where
  "child_frustum cfg s cell child_geom =
     (if inside_frustum cell < 1 then
        isInsideFrustum (frustum_planes s) (radius cell / 2)
          (V3_mul4x4 (store cfg) (cameraMatrix s) (NodeGeometry_getCenter (store cfg) child_geom))
      else inside_frustum cell)"

text \<open>The end of \<open>processQueue\<close>, which hands copies of the cells to one of the two callbacks.\<close>

definition end_queue :: "config \<Rightarrow> querier \<Rightarrow> querier" where
  "end_queue cfg s =
     (let s = s\<lparr>isProcessingQueue := False\<rparr>;
          result = map (\<lambda>a. Cell_shallowCopy (cells s a)) (queue s)
      in if inFlight s > 0 then s\<lparr>outputs := outputs s @ [Progress result]\<rparr>
         else
           (let s = (if cell_count s < desired_cell_count cfg / Fin 1.5 \<and>
                        min_box_size_meters cfg < corrected_g_m s / resolution_step s
                     then s\<lparr>timers := timers s @ [TriggerTimer 1]\<rparr> else s)
            in s\<lparr>completed_full := True, outputs := outputs s @ [Finished result]\<rparr>))"

function (sequential)
  queue_loop :: "config \<Rightarrow> nat \<Rightarrow> querier \<Rightarrow> qerror + querier" and
  processCell :: "config \<Rightarrow> nat \<Rightarrow> addr \<Rightarrow> querier \<Rightarrow> qerror + querier" and
  children_loop :: "config \<Rightarrow> nat \<Rightarrow> addr \<Rightarrow> nat \<Rightarrow> nat list \<Rightarrow> querier \<Rightarrow> qerror + querier" and
  on_success :: "config \<Rightarrow> nat \<Rightarrow> cont \<Rightarrow> addr \<Rightarrow> querier \<Rightarrow> qerror + querier"
where
  "queue_loop cfg n s =
     (if queue_index s < length (queue s) \<and> \<not> interrupt_query s then
        (case n of 0 \<Rightarrow> Inl Out_of_fuel
         | Suc m \<Rightarrow>
             bind_res (processCell cfg m (queue s ! queue_index s) s) (\<lambda>s.
               let s = s\<lparr>queue_index := queue_index s + 1\<rparr>
               in if calls_in_a_row s > 50 then Inr (s\<lparr>timers := timers s @ [ProcessTimer]\<rparr>)
                  else queue_loop cfg m s))
      else Inr (end_queue cfg s))"
| "processCell cfg n a s =
     (case begin_cell cfg a s of
        (False, s) \<Rightarrow> Inr s
      | (True, s) \<Rightarrow> children_loop cfg n a (next_env s) [0..<8] (s\<lparr>next_env := next_env s + 1\<rparr>))"
| "children_loop cfg n a e [] s = Inr s"
| "children_loop cfg n a e (child # cs) s =
     bind_res
       (let cell = cells s a in
        if Cell_hasChild cell child then
          (let child_geom = NodeGeometry_getChild (geometry cell) child;
               child_in_frustum = child_frustum cfg s cell child_geom;
               s = s\<lparr>child_env := (child_env s)(e := child_in_frustum)\<rparr>
           in if inside_frustum cell > 0 \<or> child_in_frustum > -1 then
                bind_res (cache_get (child_id cell child) (s\<lparr>inFlight := inFlight s + 1\<rparr>)) (\<lambda>(r, s).
                  case r of
                    Some b \<Rightarrow> on_success cfg n (ChildCont a e) b s
                  | None \<Rightarrow> Inr (send_request cfg (child_id cell child) child_geom (ChildCont a e) s))
              else Inr (hide_child a child s))
        else Inr (hide_child a child s))
       (children_loop cfg n a e cs)"
| "on_success cfg n k b s =
     bind_res (deliver cfg k b s) (\<lambda>s.
       if \<not> isProcessingQueue s then queue_loop cfg n (s\<lparr>calls_in_a_row := 0\<rparr>)
       else (case k of RootCont _ \<Rightarrow> Inr s
             | ChildCont _ _ \<Rightarrow> Inr (s\<lparr>calls_in_a_row := calls_in_a_row s + 1\<rparr>)))"
  by pat_completeness auto
termination
  by (relation "measures [
      \<lambda>x. case x of Inl (Inl (cfg, n, s)) \<Rightarrow> n | Inl (Inr (cfg, n, a, s)) \<Rightarrow> n
        | Inr (Inl (cfg, n, a, e, cs, s)) \<Rightarrow> n | Inr (Inr (cfg, n, k, b, s)) \<Rightarrow> n,
      \<lambda>x. case x of Inl (Inl _) \<Rightarrow> 0 | Inl (Inr _) \<Rightarrow> 3 | Inr (Inl _) \<Rightarrow> 2 | Inr (Inr _) \<Rightarrow> 1,
      \<lambda>x. case x of Inr (Inl (cfg, n, a, e, cs, s)) \<Rightarrow> length cs | _ \<Rightarrow> 0]") auto

declare queue_loop.simps [simp del] processCell.simps [simp del] children_loop.simps(2) [simp del]
  on_success.simps [simp del]

definition processQueue :: "config \<Rightarrow> nat \<Rightarrow> querier \<Rightarrow> qerror + querier" where
  "processQueue cfg n s = queue_loop cfg n (s\<lparr>calls_in_a_row := 0\<rparr>)"

section \<open>Starting a query\<close>

definition adapt_resolution :: "config \<Rightarrow> querier \<Rightarrow> jsnum" where
  "adapt_resolution cfg s =
     (if cell_count s > desired_cell_count cfg * resolution_step s * Fin 1.1 then
        resolution_correction s * resolution_step s
      else if cell_count s < desired_cell_count cfg / resolution_step s / Fin 1.1 \<and> completed_full s then
        (let rc = resolution_correction s / resolution_step s
         in if min_box_size_meters cfg > g_m s * rc then rc * resolution_step s else rc)
      else resolution_correction s)"

fun root_loop :: "config \<Rightarrow> nat \<Rightarrow> nat \<Rightarrow> nat option list \<Rightarrow> querier \<Rightarrow> qerror + querier" where
  "root_loop cfg n e [] s = Inr s"
| "root_loop cfg n e (t # ts) s =
     (let s = s\<lparr>tree_env := (tree_env s)(e := t)\<rparr>
      in bind_res
        (case t of
           None \<Rightarrow> Inr s
         | Some i \<Rightarrow>
             if t_enabled (trees cfg i) then
               bind_res (cache_get (t_root (trees cfg i)) (s\<lparr>inFlight := inFlight s + 1\<rparr>)) (\<lambda>(r, s).
                 case r of
                   Some b \<Rightarrow> on_success cfg n (RootCont e) b s
                 | None \<Rightarrow> Inr (send_request cfg (t_root (trees cfg i)) (t_geom (trees cfg i)) (RootCont e) s))
             else Inr s)
        (root_loop cfg n e ts))"

text \<open>\<open>triggerFrustum\<close> up to the loop over the roots, once it is clear that it goes on.\<close>

definition start_query :: "config \<Rightarrow> int \<Rightarrow> querier \<Rightarrow> querier" where
  "start_query cfg i s =
     (let s = s\<lparr>last_trigger := i\<rparr>;
          s = (if inFlight s > 0 then cancel s else s);
          s = s\<lparr>resolution_correction := adapt_resolution cfg s\<rparr>;
          s = s\<lparr>corrected_g_m := g_m s * resolution_correction s\<rparr>
      in s\<lparr>corrected_g_m_sq := corrected_g_m s * corrected_g_m s, completed_full := False,
           cell_count := 0, queue := [], queue_index := 0, storageRequests := [],
           isProcessingQueue := True, interrupt_query := False\<rparr>)"

definition triggerFrustum :: "config \<Rightarrow> nat \<Rightarrow> int \<Rightarrow> querier \<Rightarrow> qerror + querier" where
  "triggerFrustum cfg n i s =
     (if last_trigger s \<noteq> 0 \<and> i \<noteq> last_trigger s then Inr s
      else
        (let s = start_query cfg i s
         in bind_res (root_loop cfg n (next_env s) (trees_info cfg) (s\<lparr>next_env := next_env s + 1\<rparr>)) (\<lambda>s.
              if queue s \<noteq> [] then processQueue cfg n s else Inr (s\<lparr>isProcessingQueue := False\<rparr>))))"

definition getFrustum :: "config \<Rightarrow> nat \<Rightarrow> farray \<Rightarrow> jsnum \<Rightarrow> querier \<Rightarrow> qerror + querier" where
  "getFrustum cfg n camera gm s =
     triggerFrustum cfg n 0 (s\<lparr>cameraMatrix := camera, g_m := gm, last_trigger := 0\<rparr>)"

definition setProjectionMatrix :: "farray \<Rightarrow> querier \<Rightarrow> querier" where
  "setProjectionMatrix m s = s\<lparr>frustum_planes := extract_frustum_planes m\<rparr>"

section \<open>Events\<close>

text \<open>
  The \<open>onload\<close> handler of \<open>getCell\<close> for a response with status 200; the response may be \<open>null\<close>
  (\<open>None\<close>). The new cell goes into the cache before the callback runs.
\<close>

definition cell_loaded :: "config \<Rightarrow> nat \<Rightarrow> request \<Rightarrow> byte list option \<Rightarrow> querier \<Rightarrow> qerror + querier" where
  "cell_loaded cfg n r response s =
     (case response of
        None \<Rightarrow> Inl Type_error
      | Some buffer \<Rightarrow>
          (let s = s\<lparr>bytes_downloaded := bytes_downloaded s + length buffer\<rparr>
           in case Cell_new (store cfg) (r_id r) (r_geom r) buffer of
                None \<Rightarrow> Inl Range_error
              | Some c \<Rightarrow>
                  (let b = next_cell s;
                       s = s\<lparr>cells := (cells s)(b := c), next_cell := b + 1\<rparr>
                   in case LRUCache_put (r_id r) b (cell_cache s) of
                        None \<Rightarrow> Inl Type_error
                      | Some l \<Rightarrow> on_success cfg n (r_cont r) b (s\<lparr>cell_cache := l\<rparr>))))"

datatype event =
    GetFrustum farray jsnum
  | SetProjection farray
  | Loaded nat "byte list option"
  | LoadFailed nat
  | TimerFired nat

text \<open>An event of a request that is not under way, or of a timer that is not set, does not occur.\<close>

definition enabled :: "event \<Rightarrow> querier \<Rightarrow> bool" where
  "enabled ev s =
     (case ev of Loaded x _ \<Rightarrow> xhrs s x \<noteq> None | LoadFailed x \<Rightarrow> xhrs s x \<noteq> None
      | TimerFired i \<Rightarrow> i < length (timers s) | _ \<Rightarrow> True)"

definition handle :: "config \<Rightarrow> nat \<Rightarrow> event \<Rightarrow> querier \<Rightarrow> qerror + querier" where
  "handle cfg n ev s =
     (case ev of
        GetFrustum camera gm \<Rightarrow> getFrustum cfg n camera gm s
      | SetProjection m \<Rightarrow> Inr (setProjectionMatrix m s)
      | Loaded x response \<Rightarrow>
          (case xhrs s x of None \<Rightarrow> Inr s
           | Some r \<Rightarrow> cell_loaded cfg n r response (s\<lparr>xhrs := (xhrs s)(x := None)\<rparr>))
      | LoadFailed x \<Rightarrow> Inr (s\<lparr>xhrs := (xhrs s)(x := None)\<rparr>)
      | TimerFired i \<Rightarrow>
          (let s' = s\<lparr>timers := take i (timers s) @ drop (i + 1) (timers s)\<rparr>
           in case timers s ! i of
                ProcessTimer \<Rightarrow> processQueue cfg n s'
              | TriggerTimer k \<Rightarrow> triggerFrustum cfg n k s'))"

definition FrustumQuerier_new :: "config \<Rightarrow> farray \<Rightarrow> (addr \<Rightarrow> cell) \<Rightarrow> int \<Rightarrow> querier" where
  "FrustumQuerier_new cfg m cs cache_size =
     \<lparr>cells = cs, next_cell = 0, cell_cache = LRUCache_new cache_size,
      frustum_planes = extract_frustum_planes m, cameraMatrix = [], inFlight = 0,
      resolution_correction = 1, resolution_step = Fin 1.2, cell_count = desired_cell_count cfg,
      completed_full = False, g_m = NaN, corrected_g_m = NaN, corrected_g_m_sq = NaN,
      last_trigger = 0, queue = [], queue_index = 0, storageRequests = [],
      isProcessingQueue = False, interrupt_query = False, calls_in_a_row = 0,
      tree_env = (\<lambda>_. None), child_env = (\<lambda>_. 0), next_env = 0, xhrs = Map.empty, next_xhr = 0,
      timers = [], outputs = [], bytes_downloaded = 0\<rparr>"

section \<open>More fuel gives the same result\<close>

definition same_res :: "qerror + querier \<Rightarrow> qerror + querier \<Rightarrow> bool" where
  "same_res r r' \<longleftrightarrow> r = Inl Out_of_fuel \<or> r' = r"

lemma same_res_refl [simp]: "same_res r r"
  by (simp add: same_res_def)

lemma same_res_bind:
  "same_res r r' \<Longrightarrow> (\<And>s. same_res (f s) (g s)) \<Longrightarrow> same_res (bind_res r f) (bind_res r' g)"
  by (cases r) (auto simp: same_res_def)

lemma same_res_bind_same:
  "(\<And>x. same_res (f x) (g x)) \<Longrightarrow> same_res (bind_res r f) (bind_res r g)"
  by (cases r) simp_all

lemma on_success_more:
  assumes "\<forall>s. same_res (queue_loop cfg n s) (queue_loop cfg (Suc n) s)"
  shows "same_res (on_success cfg n k b s) (on_success cfg (Suc n) k b s)"
  unfolding on_success.simps using assms by (intro same_res_bind) (simp_all split: cont.split)

lemma arrived_more:
  assumes "\<forall>s. same_res (queue_loop cfg n s) (queue_loop cfg (Suc n) s)"
  shows "same_res
     (bind_res r (\<lambda>(x, s). case x of Some b \<Rightarrow> on_success cfg n k b s | None \<Rightarrow> Inr (f s)))
     (bind_res r (\<lambda>(x, s). case x of Some b \<Rightarrow> on_success cfg (Suc n) k b s | None \<Rightarrow> Inr (f s)))"
  by (intro same_res_bind_same) (auto intro: on_success_more [OF assms] split: option.split)

lemma children_loop_more:
  assumes "\<forall>s. same_res (queue_loop cfg n s) (queue_loop cfg (Suc n) s)"
  shows "same_res (children_loop cfg n a e cs s) (children_loop cfg (Suc n) a e cs s)"
proof (induction cs arbitrary: s)
  case (Cons child cs)
  then show ?case
    unfolding children_loop.simps(2) Let_def
    by (intro same_res_bind) (auto intro: arrived_more [OF assms])
qed simp

lemma processCell_more:
  assumes "\<forall>s. same_res (queue_loop cfg n s) (queue_loop cfg (Suc n) s)"
  shows "same_res (processCell cfg n a s) (processCell cfg (Suc n) a s)"
  using children_loop_more [OF assms] by (simp add: processCell.simps split: prod.split bool.split)

lemma queue_loop_more: "same_res (queue_loop cfg n s) (queue_loop cfg (Suc n) s)"
proof (induction n arbitrary: s)
  case 0
  show ?case by (simp add: queue_loop.simps [of cfg 0] queue_loop.simps [of cfg "Suc 0"] same_res_def)
next
  case (Suc n)
  then have "same_res (processCell cfg n a s) (processCell cfg (Suc n) a s)" for a s
    by (intro processCell_more) blast
  then show ?case
    by (simp only: queue_loop.simps [of cfg "Suc n"] queue_loop.simps [of cfg "Suc (Suc n)"])
      (auto intro!: same_res_bind intro: Suc simp: Let_def)
qed

lemma on_success_Suc: "same_res (on_success cfg n k b s) (on_success cfg (Suc n) k b s)"
  using queue_loop_more by (intro on_success_more) blast

lemma root_loop_more: "same_res (root_loop cfg n e ts s) (root_loop cfg (Suc n) e ts s)"
proof (induction ts arbitrary: s)
  case (Cons t ts)
  then show ?case
    unfolding root_loop.simps Let_def
    by (intro same_res_bind) (auto intro!: same_res_bind_same intro: on_success_Suc split: option.split)
qed simp

lemma triggerFrustum_more: "same_res (triggerFrustum cfg n i s) (triggerFrustum cfg (Suc n) i s)"
  unfolding triggerFrustum_def Let_def processQueue_def
  by (auto intro!: same_res_bind root_loop_more queue_loop_more)

lemma handle_more: "same_res (handle cfg n ev s) (handle cfg (Suc n) ev s)"
proof (cases ev)
  case (Loaded x response)
  then show ?thesis
    by (auto simp: handle_def cell_loaded_def Let_def intro: on_success_Suc split: option.split)
next
  case (TimerFired i)
  then show ?thesis
    by (auto simp: handle_def Let_def processQueue_def intro: triggerFrustum_more queue_loop_more
        split: timer.split)
qed (simp_all add: handle_def getFrustum_def triggerFrustum_more)

lemma handle_fuel_mono:
  assumes "handle cfg n ev s \<noteq> Inl Out_of_fuel" "n \<le> m"
  shows "handle cfg m ev s = handle cfg n ev s"
  using assms(2)
proof (induction m rule: dec_induct)
  case (step m)
  with handle_more [of cfg m ev s] assms(1) show ?case by (simp add: same_res_def)
qed simp

section \<open>Invariants of the walk\<close>

text \<open>
  What the walk asks for: the children of a cell for their parent, and the roots of the trees, whose
  callbacks then read the tree that is looped over.
\<close>

definition asked :: "config \<Rightarrow> querier \<Rightarrow> ident \<Rightarrow> cont \<Rightarrow> bool" where
  "asked cfg s i k \<longleftrightarrow>
     (case k of
        ChildCont a e \<Rightarrow> \<exists>child < 8. i = child_id (cells s a) child
      | RootCont e \<Rightarrow> \<exists>j. Some j \<in> set (trees_info cfg) \<and> i = t_root (trees cfg j) \<and> tree_env s e = Some j)"

lemma deliver_error: "deliver cfg k b s = Inl e \<Longrightarrow> e = Type_error"
  by (auto simp: deliver_def Let_def split: cont.splits option.splits)

lemma asked_delivers: "asked cfg s i k \<Longrightarrow> tree_env s' = tree_env s \<Longrightarrow> deliver cfg k b s' \<noteq> Inl e"
  by (auto simp: asked_def deliver_def Let_def split: cont.splits)

text \<open>
  The contract of a property \<open>I\<close> that the walk keeps, with the fuel that is left as its first argument,
  and of the errors \<open>E\<close> that the walk may end in: every atomic step keeps the property, and beginning a
  cell uses one unit of fuel. A cell that is found in the cache is counted and delivered in one step,
  as is a request that is counted and sent.
\<close>

locale query_walk =
  fixes cfg :: config and I :: "nat \<Rightarrow> querier \<Rightarrow> bool" and E :: "qerror \<Rightarrow> bool"
  assumes E_lookup: "I n s \<Longrightarrow> asked cfg s i kont \<Longrightarrow> LRUCache_get i (cell_cache s) = None \<Longrightarrow> E Type_error"
    and I_fuel: "I 0 s \<Longrightarrow> queue_index s < length (queue s) \<Longrightarrow> \<not> interrupt_query s \<Longrightarrow> E Out_of_fuel"
    and I_more: "I n s \<Longrightarrow> I (Suc n) s"
    and I_begin: "I (Suc n) s \<Longrightarrow> \<not> interrupt_query s \<Longrightarrow> begin_cell cfg a s = (go, s') \<Longrightarrow> I n s'"
    and I_index: "I n s \<Longrightarrow> I n (s\<lparr>queue_index := queue_index s + 1\<rparr>)"
    and I_pause: "I n s \<Longrightarrow> I n (s\<lparr>timers := timers s @ [ProcessTimer]\<rparr>)"
    and I_end: "I n s \<Longrightarrow> I n (end_queue cfg s)"
    and I_next_env: "I n s \<Longrightarrow> I n (s\<lparr>next_env := next_env s + 1\<rparr>)"
    and I_child_env: "I n s \<Longrightarrow> I n (s\<lparr>child_env := f\<rparr>)"
    and I_calls: "I n s \<Longrightarrow> I n (s\<lparr>calls_in_a_row := k\<rparr>)"
    and I_hide: "I n s \<Longrightarrow> I n (hide_child a child s)"
    and I_hit: "I n s \<Longrightarrow> asked cfg s i kont \<Longrightarrow> LRUCache_get i (cell_cache s) = Some (Some b, c) \<Longrightarrow>
      deliver cfg kont b (s\<lparr>inFlight := inFlight s + 1, cell_cache := c\<rparr>) = Inr s' \<Longrightarrow> I n s'"
    and I_miss: "I n s \<Longrightarrow> asked cfg s i kont \<Longrightarrow> LRUCache_get i (cell_cache s) = Some (None, c) \<Longrightarrow>
      I n (send_request cfg i g kont (s\<lparr>inFlight := inFlight s + 1, cell_cache := c\<rparr>))"
begin

definition holds :: "nat \<Rightarrow> qerror + querier \<Rightarrow> bool" where
  "holds n r \<longleftrightarrow> (case r of Inl e \<Rightarrow> E e | Inr s \<Rightarrow> I n s)"

lemma holds_simps [simp]: "holds n (Inl e) \<longleftrightarrow> E e" "holds n (Inr s) \<longleftrightarrow> I n s"
  by (simp_all add: holds_def)

lemma holds_bind: "holds n r \<Longrightarrow> (\<And>s. r = Inr s \<Longrightarrow> I n s \<Longrightarrow> holds n (f s)) \<Longrightarrow> holds n (bind_res r f)"
  by (cases r) auto

lemma on_success_holds:
  assumes Q: "\<forall>s. I n s \<longrightarrow> holds n (queue_loop cfg n s)"
    and "\<And>e. deliver cfg kont b s = Inl e \<Longrightarrow> E e"
    and "\<And>t. deliver cfg kont b s = Inr t \<Longrightarrow> I n t"
  shows "holds n (on_success cfg n kont b s)"
proof (cases "deliver cfg kont b s")
  case (Inl e)
  with assms(2) [OF Inl] show ?thesis by (simp add: on_success.simps)
next
  case (Inr t)
  with assms(3) [OF Inr] Q I_calls [of n t] show ?thesis
    by (simp add: on_success.simps split: cont.split)
qed

lemma cached_or_sent_holds:
  assumes Q: "\<forall>s. I n s \<longrightarrow> holds n (queue_loop cfg n s)" and "I n s" and a: "asked cfg s i kont"
  shows "holds n (bind_res (cache_get i (s\<lparr>inFlight := inFlight s + 1\<rparr>)) (\<lambda>(r, s).
           case r of Some b \<Rightarrow> on_success cfg n kont b s
           | None \<Rightarrow> Inr (send_request cfg i g kont s)))"
proof (cases "LRUCache_get i (cell_cache s)")
  case None
  then show ?thesis using E_lookup [OF assms(2) a] by (simp add: cache_get_def)
next
  case (Some rc)
  obtain r c where rc: "rc = (r, c)" by (cases rc)
  show ?thesis
  proof (cases r)
    case None
    with Some rc I_miss [OF assms(2) a] show ?thesis by (simp add: cache_get_def)
  next
    case hit: (Some b)
    have "holds n (on_success cfg n kont b (s\<lparr>inFlight := inFlight s + 1, cell_cache := c\<rparr>))"
      using Some rc hit I_hit [OF assms(2) a] asked_delivers [OF a]
      by (intro on_success_holds [OF Q]) simp_all
    with Some rc hit show ?thesis by (simp add: cache_get_def)
  qed
qed

lemma children_loop_holds:
  assumes Q: "\<forall>s. I n s \<longrightarrow> holds n (queue_loop cfg n s)"
  shows "I n s \<Longrightarrow> set cs \<subseteq> {..<8} \<Longrightarrow> holds n (children_loop cfg n a e cs s)"
proof (induction cs arbitrary: s)
  case Nil
  then show ?case by simp
next
  case (Cons child cs)
  note S = I_child_env [OF Cons.prems(1)]
  have "asked cfg (s\<lparr>child_env := f\<rparr>) (child_id (cells s a) child) (ChildCont a e)" for f
    using Cons.prems(2) by (auto simp: asked_def)
  note C = cached_or_sent_holds [OF Q S this, simplified]
  show ?case
    unfolding children_loop.simps(2) Let_def
  proof (rule holds_bind)
    fix t
    assume "I n t"
    then show "holds n (children_loop cfg n a e cs t)" using Cons.prems(2) by (intro Cons.IH) simp_all
  qed (simp add: C I_hide [OF S] I_hide [OF Cons.prems(1)])
qed

lemma processCell_holds:
  assumes Q: "\<forall>s. I n s \<longrightarrow> holds n (queue_loop cfg n s)" and "I (Suc n) s" "\<not> interrupt_query s"
  shows "holds n (processCell cfg n a s)"
proof -
  obtain go t where t: "begin_cell cfg a s = (go, t)" by fastforce
  have "I n t" by (rule I_begin [OF assms(2,3) t])
  moreover have "set [0..<8] \<subseteq> {..<(8 :: nat)}" by auto
  note children_loop_holds [OF Q _ this]
  ultimately show ?thesis using t I_next_env by (simp add: processCell.simps split: bool.split)
qed

lemma queue_loop_holds: "I n s \<Longrightarrow> holds n (queue_loop cfg n s)"
proof (induction n arbitrary: s)
  case 0
  then show ?case using I_end I_fuel by (simp add: queue_loop.simps [of cfg 0])
next
  case (Suc m)
  have up: "holds m r \<Longrightarrow> holds (Suc m) r" for r by (cases r) (simp_all add: I_more)
  show ?case
  proof (cases "queue_index s < length (queue s) \<and> \<not> interrupt_query s")
    case False
    with Suc.prems I_end show ?thesis by (auto simp: queue_loop.simps [of cfg "Suc m"])
  next
    case True
    have Q: "\<forall>s. I m s \<longrightarrow> holds m (queue_loop cfg m s)" using Suc.IH by blast
    have "holds m (bind_res (processCell cfg m (queue s ! queue_index s) s) (\<lambda>s.
        let s = s\<lparr>queue_index := queue_index s + 1\<rparr>
        in if calls_in_a_row s > 50 then Inr (s\<lparr>timers := timers s @ [ProcessTimer]\<rparr>)
           else queue_loop cfg m s))"
    proof (rule holds_bind)
      show "holds m (processCell cfg m (queue s ! queue_index s) s)"
        using True Suc.prems by (intro processCell_holds [OF Q]) simp_all
      fix t
      assume "I m t"
      then have I: "I m (t\<lparr>queue_index := queue_index t + 1\<rparr>)" by (rule I_index)
      with I_pause [OF I] Suc.IH [OF I]
      show "holds m (let s = t\<lparr>queue_index := queue_index t + 1\<rparr>
        in if calls_in_a_row s > 50 then Inr (s\<lparr>timers := timers s @ [ProcessTimer]\<rparr>)
           else queue_loop cfg m s)"
        by (simp add: Let_def)
    qed
    with True show ?thesis by (simp add: queue_loop.simps [of cfg "Suc m"] up)
  qed
qed

lemma walk: "\<forall>s. I n s \<longrightarrow> holds n (queue_loop cfg n s)"
  by (simp add: queue_loop_holds)

lemma processQueue_holds: "I n s \<Longrightarrow> holds n (processQueue cfg n s)"
  unfolding processQueue_def by (intro queue_loop_holds I_calls)

end

text \<open>The loop over the roots also writes the variable that the callbacks of the roots share.\<close>

locale query_roots = query_walk +
  assumes I_tree_env: "I n s \<Longrightarrow> t \<in> set (trees_info cfg) \<Longrightarrow> I n (s\<lparr>tree_env := (tree_env s)(e := t)\<rparr>)"
    and I_stopped: "I n s \<Longrightarrow> I n (s\<lparr>isProcessingQueue := False\<rparr>)"
begin

lemma root_loop_holds: "I n s \<Longrightarrow> set ts \<subseteq> set (trees_info cfg) \<Longrightarrow> holds n (root_loop cfg n e ts s)"
proof (induction ts arbitrary: s)
  case Nil
  then show ?case by simp
next
  case (Cons t ts)
  have t: "t \<in> set (trees_info cfg)"
    using Cons.prems(2) by simp
  note S = I_tree_env [OF Cons.prems(1) t]
  have "asked cfg (s\<lparr>tree_env := (tree_env s)(e := t)\<rparr>) (t_root (trees cfg j)) (RootCont e)" if "t = Some j" for j
    using t that by (simp add: asked_def)
  note C = cached_or_sent_holds [OF walk S this, simplified]
  show ?case
    unfolding root_loop.simps Let_def
  proof (rule holds_bind)
    fix u
    assume "I n u"
    then show "holds n (root_loop cfg n e ts u)" using Cons.prems(2) by (intro Cons.IH) simp_all
  qed (use C S in \<open>auto split: option.split\<close>)
qed

lemma triggerFrustum_holds:
  assumes "\<not> (last_trigger s \<noteq> 0 \<and> i \<noteq> last_trigger s)" "I n (start_query cfg i s)"
  shows "holds n (triggerFrustum cfg n i s)"
proof -
  have "triggerFrustum cfg n i s =
      bind_res (root_loop cfg n (next_env (start_query cfg i s)) (trees_info cfg)
          ((start_query cfg i s)\<lparr>next_env := next_env (start_query cfg i s) + 1\<rparr>))
        (\<lambda>s. if queue s \<noteq> [] then processQueue cfg n s else Inr (s\<lparr>isProcessingQueue := False\<rparr>))"
    using assms(1) by (simp only: triggerFrustum_def Let_def if_False)
  then show ?thesis
    using I_stopped processQueue_holds I_next_env [OF assms(2)]
    by (auto intro!: holds_bind root_loop_holds)
qed

end

text \<open>
  A property without fuel that also survives what happens between the walks: a reply that is taken out
  and delivered, the timers, and the variables that the caller sets. A query that starts anew may need
  more than the property, so that is a contract of its own.
\<close>

locale query_events = query_roots cfg "\<lambda>_. I" "\<lambda>_. True" for cfg and I :: "querier \<Rightarrow> bool" +
  assumes I_reply: "I s \<Longrightarrow> xhrs s x = Some r \<Longrightarrow>
      deliver cfg (r_cont r) b (s\<lparr>xhrs := (xhrs s)(x := None), bytes_downloaded := bytes,
        cells := cs, next_cell := nc, cell_cache := c\<rparr>) = Inr s' \<Longrightarrow> I s'"
    and I_timers: "I s \<Longrightarrow> I (s\<lparr>timers := ts\<rparr>)"
begin

lemma Loaded_keeps:
  assumes "I s" "handle cfg n (Loaded x response) s = Inr s'"
  shows "I s'"
proof (cases "xhrs s x")
  case None
  with assms show ?thesis by (simp add: handle_def)
next
  case (Some r)
  with assms(2) obtain b bytes cs nc c where
    "on_success cfg n (r_cont r) b (s\<lparr>xhrs := (xhrs s)(x := None), bytes_downloaded := bytes,
        cells := cs, next_cell := nc, cell_cache := c\<rparr>) = Inr s'"
    by (auto simp: handle_def cell_loaded_def Let_def split: option.splits)
  moreover have "holds n (on_success cfg n (r_cont r) b (s\<lparr>xhrs := (xhrs s)(x := None),
        bytes_downloaded := bytes, cells := cs, next_cell := nc, cell_cache := c\<rparr>))"
    by (intro on_success_holds walk) (simp, rule I_reply [OF assms(1) Some])
  ultimately show ?thesis by simp
qed

lemma ProcessTimer_keeps:
  assumes "I s" "timers s ! i = ProcessTimer" "handle cfg n (TimerFired i) s = Inr s'"
  shows "I s'"
  using processQueue_holds [OF I_timers [OF assms(1)]] assms(2,3)
  by (simp add: handle_def Let_def) (metis holds_simps(2))

end

locale query_restarts = query_events +
  assumes I_start: "I s \<Longrightarrow> I (start_query cfg i s)"
    and I_inputs: "I s \<Longrightarrow> I (s\<lparr>cameraMatrix := camera, g_m := gm, last_trigger := lt\<rparr>)"
    and I_planes: "I s \<Longrightarrow> I (s\<lparr>frustum_planes := planes\<rparr>)"
begin

lemma triggerFrustum_keeps: "I s \<Longrightarrow> triggerFrustum cfg n i s = Inr s' \<Longrightarrow> I s'"
  using triggerFrustum_holds [OF _ I_start, of s i n]
  by (cases "last_trigger s \<noteq> 0 \<and> i \<noteq> last_trigger s") (simp add: triggerFrustum_def, metis holds_simps(2))

lemma handle_keeps:
  assumes "I s" "handle cfg n ev s = Inr s'" "\<forall>x. ev \<noteq> LoadFailed x"
  shows "I s'"
proof (cases ev)
  case (TimerFired i)
  show ?thesis
  proof (cases "timers s ! i")
    case ProcessTimer
    with assms TimerFired ProcessTimer_keeps show ?thesis by blast
  next
    case (TriggerTimer k)
    with assms(2) TimerFired show ?thesis
      using triggerFrustum_keeps [OF I_timers [OF assms(1)]] by (simp add: handle_def Let_def)
  qed
next
  case (GetFrustum camera gm)
  with assms(2) show ?thesis
    using triggerFrustum_keeps [OF I_inputs [OF assms(1)]] by (simp add: handle_def getFrustum_def)
next
  case (SetProjection m)
  with assms(1,2) I_planes show ?thesis by (auto simp: handle_def setProjectionMatrix_def)
next
  case (Loaded x response)
  with assms(1,2) Loaded_keeps show ?thesis by blast
qed (use assms(3) in blast)

end

end
