(* ===== verification/QuerierInvariants.thy ===== *)
theory QuerierInvariants
  imports Querier
begin

text \<open>
  What every event of the frustum query keeps (\<open>Querier\<close>), by interpretations of the contract
  \<open>query_walk\<close>: \<open>inFlight\<close> counts the requests that are under way, the walk ends within a fuel that the
  cell budget gives, and a count that has leaked stays leaked. The properties are about \<open>handle\<close>, one
  event, and about the states that sequences of events reach.
\<close>

section \<open>What the atomic steps change\<close>

lemma begin_cell_cases:
  assumes "begin_cell cfg a s = (go, s')"
  obtains (stop) "num_cells s > desired_cell_count cfg * Fin 1.5" "\<not> go"
      "s' = (cancel (s\<lparr>interrupt_query := True, cell_count := num_cells s\<rparr>))
              \<lparr>timers := timers s @ [TriggerTimer (-1)]\<rparr>"
  | (pass) cs where "\<not> num_cells s > desired_cell_count cfg * Fin 1.5"
      "s' = s\<lparr>cell_count := cell_count s + 1, cells := cs\<rparr>"
proof (cases "num_cells s > desired_cell_count cfg * Fin 1.5")
  case True
  with assms stop show thesis by (auto simp: begin_cell_def Let_def cancel_def)
next
  case False
  with assms have "\<exists>cs. s' = s\<lparr>cell_count := cell_count s + 1, cells := cs\<rparr>"
    by (auto simp: begin_cell_def Let_def update_cell_def hide_child_def split: option.splits if_splits)
  with False pass show thesis by blast
qed

lemma deliver_cases:
  assumes "deliver cfg k b s = Inr s'"
  obtains cs where "s' = s\<lparr>cells := cs, queue := queue s @ [b], inFlight := inFlight s - 1\<rparr>"
  using assms by (auto simp: deliver_def update_cell_def Let_def split: cont.splits option.splits)

text \<open>The fields that the end of the queue leaves alone, as far as the invariants read them.\<close>

lemma end_queue_simps [simp]:
  "xhrs (end_queue cfg s) = xhrs s" "next_xhr (end_queue cfg s) = next_xhr s"
  "storageRequests (end_queue cfg s) = storageRequests s" "inFlight (end_queue cfg s) = inFlight s"
  "interrupt_query (end_queue cfg s) = interrupt_query s" "cell_count (end_queue cfg s) = cell_count s"
  "queue (end_queue cfg s) = queue s" "queue_index (end_queue cfg s) = queue_index s"
  by (simp_all add: end_queue_def Let_def)

section \<open>Counting the requests\<close>

definition flight_inv :: "(int \<Rightarrow> int \<Rightarrow> bool) \<Rightarrow> querier \<Rightarrow> bool" where
  "flight_inv R s \<longleftrightarrow>
     dom (xhrs s) \<subseteq> {..<next_xhr s} \<and> dom (xhrs s) \<subseteq> set (storageRequests s) \<and>
     R (int (card (dom (xhrs s)))) (inFlight s)"

lemma flight_inv_cong:
  "xhrs s' = xhrs s \<Longrightarrow> next_xhr s' = next_xhr s \<Longrightarrow> storageRequests s' = storageRequests s \<Longrightarrow>
     inFlight s' = inFlight s \<Longrightarrow> flight_inv R s' = flight_inv R s"
  by (simp add: flight_inv_def)

lemma flight_cancel:
  assumes "flight_inv R s" "Q 0 0"
  shows "flight_inv Q (cancel s)" "xhrs (cancel s) = Map.empty"
proof -
  show e: "xhrs (cancel s) = Map.empty"
    using assms(1) by (auto simp: cancel_def flight_inv_def restrict_map_def fun_eq_iff domIff)
  show "flight_inv Q (cancel s)"
    using assms(2) e by (simp add: flight_inv_def) (simp add: cancel_def)
qed

lemma flight_send:
  assumes "flight_inv R s" "R (int (card (dom (xhrs s))) + 1) (inFlight s + 1)"
    "RUN_ON_CACHE_ONLY cfg \<Longrightarrow> R (int (card (dom (xhrs s)))) (inFlight s + 1)"
  shows "flight_inv R (send_request cfg i g k (s\<lparr>inFlight := inFlight s + 1, cell_cache := c\<rparr>))"
proof -
  have "finite (dom (xhrs s))"
    using assms(1) finite_subset [of "dom (xhrs s)" "{..<next_xhr s}"] by (simp add: flight_inv_def)
  moreover have "next_xhr s \<notin> dom (xhrs s)" using assms(1) by (auto simp: flight_inv_def)
  ultimately have card: "int (card (insert (next_xhr s) (dom (xhrs s)))) = int (card (dom (xhrs s))) + 1"
    by simp
  have bounds: "dom (xhrs s) \<subseteq> {..<next_xhr s}" "dom (xhrs s) \<subseteq> set (storageRequests s)"
    using assms(1) by (simp_all add: flight_inv_def)
  show ?thesis
  proof (cases "RUN_ON_CACHE_ONLY cfg")
    case True
    with bounds assms(3) show ?thesis by (simp add: flight_inv_def send_request_def)
  next
    case False
    let ?s = "send_request cfg i g k (s\<lparr>inFlight := inFlight s + 1, cell_cache := c\<rparr>)"
    have "dom (xhrs ?s) = insert (next_xhr s) (dom (xhrs s))" "next_xhr ?s = next_xhr s + 1"
        "storageRequests ?s = storageRequests s @ [next_xhr s]" "inFlight ?s = inFlight s + 1"
      using False by (simp_all add: send_request_def)
    moreover have "insert (next_xhr s) (dom (xhrs s)) \<subseteq> {..<next_xhr s + 1}"
      using bounds(1) by (auto simp: subset_iff)
    moreover have "insert (next_xhr s) (dom (xhrs s)) \<subseteq> set (storageRequests s @ [next_xhr s])"
      using bounds(2) by auto
    ultimately show ?thesis using card assms(2) unfolding flight_inv_def by presburger
  qed
qed

lemma deliver_unchanged:
  assumes "deliver cfg k b s = Inr s'"
  shows "inFlight s' = inFlight s - 1" "interrupt_query s' = interrupt_query s"
    "cell_count s' = cell_count s" "outputs s' = outputs s" "xhrs s' = xhrs s" "next_xhr s' = next_xhr s"
    "tree_env s' = tree_env s" "isProcessingQueue s' = isProcessingQueue s"
    "queue_index s' = queue_index s" "queue s' = queue s @ [b]" "cell_cache s' = cell_cache s"
  using assms by (auto elim!: deliver_cases)

lemma hit_unchanged:
  assumes "deliver cfg k b (s\<lparr>inFlight := inFlight s + 1, cell_cache := c\<rparr>) = Inr s'"
  shows "inFlight s' = inFlight s" "interrupt_query s' = interrupt_query s"
    "cell_count s' = cell_count s" "outputs s' = outputs s" "xhrs s' = xhrs s"
  using assms by (auto elim!: deliver_cases)

lemma flight_hit:
  assumes "flight_inv R s" "deliver cfg k b (s\<lparr>inFlight := inFlight s + 1, cell_cache := c\<rparr>) = Inr s'"
  shows "flight_inv R s'"
  using assms(2,1) by (elim deliver_cases) (simp add: flight_inv_def)

lemma flight_begin:
  assumes "flight_inv R s" "Q 0 0" "begin_cell cfg a s = (go, s')"
  shows "interrupt_query s' \<and> flight_inv Q s' \<or> interrupt_query s' = interrupt_query s \<and> flight_inv R s'"
  using assms(3)
proof (cases rule: begin_cell_cases)
  case stop
  have "flight_inv R (s\<lparr>interrupt_query := True, cell_count := num_cells s\<rparr>)"
    using assms(1) by (simp add: flight_inv_def)
  from flight_cancel(1) [of _ _ Q, OF this assms(2)] stop show ?thesis
    by (simp add: flight_inv_def cancel_def)
next
  case (pass cs)
  with assms(1) show ?thesis by (simp add: flight_inv_def)
qed

lemma update_cell_simps [simp]:
  "flight_inv R (update_cell a f s) = flight_inv R s" "interrupt_query (update_cell a f s) = interrupt_query s"
  "cell_count (update_cell a f s) = cell_count s" "inFlight (update_cell a f s) = inFlight s"
  "outputs (update_cell a f s) = outputs s" "xhrs (update_cell a f s) = xhrs s"
  by (simp_all add: update_cell_def flight_inv_def)

lemma flight_end [simp]: "flight_inv R (end_queue cfg s) = flight_inv R s"
  by (simp add: flight_inv_def)

lemma flight_updates [simp]:
  "flight_inv R (s\<lparr>queue_index := qi\<rparr>) = flight_inv R s" "flight_inv R (s\<lparr>timers := ts\<rparr>) = flight_inv R s"
  "flight_inv R (s\<lparr>next_env := ne\<rparr>) = flight_inv R s" "flight_inv R (s\<lparr>child_env := ce\<rparr>) = flight_inv R s"
  "flight_inv R (s\<lparr>tree_env := te\<rparr>) = flight_inv R s" "flight_inv R (s\<lparr>calls_in_a_row := ca\<rparr>) = flight_inv R s"
  "flight_inv R (s\<lparr>isProcessingQueue := p\<rparr>) = flight_inv R s"
  "flight_inv R (s\<lparr>cameraMatrix := cm\<rparr>) = flight_inv R s" "flight_inv R (s\<lparr>g_m := gm\<rparr>) = flight_inv R s"
  "flight_inv R (s\<lparr>last_trigger := lt\<rparr>) = flight_inv R s"
  "flight_inv R (s\<lparr>frustum_planes := fp\<rparr>) = flight_inv R s"
  by (simp_all add: flight_inv_def)

lemma send_simps [simp]:
  "interrupt_query (send_request cfg i g k s) = interrupt_query s"
  "cell_count (send_request cfg i g k s) = cell_count s"
  "inFlight (send_request cfg i g k s) = inFlight s"
  "outputs (send_request cfg i g k s) = outputs s"
  by (simp_all add: send_request_def)

lemma flight_reply:
  assumes "flight_inv R s" "xhrs s x = Some r" "\<And>a b. R (a + 1) b \<Longrightarrow> R a (b - 1)"
    "deliver cfg k b (s\<lparr>xhrs := (xhrs s)(x := None), bytes_downloaded := bytes,
        cells := cs, next_cell := nc, cell_cache := c\<rparr>) = Inr s'"
  shows "flight_inv R s'"
proof -
  from assms(1) have "finite (dom (xhrs s))"
    using finite_subset [of "dom (xhrs s)" "{..<next_xhr s}"] by (simp add: flight_inv_def)
  moreover have "x \<in> dom (xhrs s)" using assms(2) by blast
  ultimately have "int (card (dom (xhrs s))) = int (card (dom (xhrs s) - {x})) + 1"
    using card.remove [of "dom (xhrs s)" x] by simp
  with assms(1,3) have R: "R (int (card (dom (xhrs s) - {x}))) (inFlight s - 1)"
    by (simp add: flight_inv_def)
  have dom: "dom (xhrs s) - {x} \<subseteq> {..<next_xhr s}" "dom (xhrs s) - {x} \<subseteq> set (storageRequests s)"
    using assms(1) by (auto simp: flight_inv_def)
  let ?t = "s\<lparr>xhrs := (xhrs s)(x := None), bytes_downloaded := bytes, cells := cs, next_cell := nc,
      cell_cache := c\<rparr>"
  obtain cs' where "s' = ?t\<lparr>cells := cs', queue := queue ?t @ [b], inFlight := inFlight ?t - 1\<rparr>"
    using assms(4) by (rule deliver_cases)
  with R dom show ?thesis by (simp add: flight_inv_def)
qed

lemma flight_start:
  assumes "flight_inv (\<le>) s" "Q 0 0"
  shows "flight_inv Q (start_query cfg i s)"
proof (cases "inFlight s > 0")
  case True
  from flight_cancel [of "(\<le>)" "s\<lparr>last_trigger := i\<rparr>" Q, OF _ assms(2)] assms(1) True
  show ?thesis using assms(2) by (simp add: flight_inv_def start_query_def Let_def cancel_def)
next
  case False
  from assms(1) have "finite (dom (xhrs s))"
    using finite_subset [of "dom (xhrs s)" "{..<next_xhr s}"] by (simp add: flight_inv_def)
  moreover have "card (dom (xhrs s)) = 0" "inFlight s = 0"
    using assms(1) False by (simp_all add: flight_inv_def)
  ultimately have "dom (xhrs s) = {}" "inFlight s = 0" by simp_all
  with assms(2) show ?thesis by (simp add: flight_inv_def start_query_def Let_def)
qed

lemma start_query_simps [simp]:
  "cell_count (start_query cfg i s) = 0" "interrupt_query (start_query cfg i s) = False"
  "tree_env (start_query cfg i s) = tree_env s" "next_env (start_query cfg i s) = next_env s"
  by (simp_all add: start_query_def Let_def cancel_def)

text \<open>\<open>inFlight\<close> is never less than the number of requests, and equal to it when no count can leak.\<close>

interpretation requests: query_restarts cfg "flight_inv (\<le>)" for cfg
proof unfold_locales
  fix a s go s'
  assume "flight_inv (\<le>) s" "begin_cell cfg a s = (go, s')"
  with flight_begin [of "(\<le>)" s "(\<le>)"] show "flight_inv (\<le>) s'" by auto
next
  fix s i b c kont s'
  assume "flight_inv (\<le>) s" "deliver cfg kont b (s\<lparr>inFlight := inFlight s + 1, cell_cache := c\<rparr>) = Inr s'"
  then show "flight_inv (\<le>) s'" by (rule flight_hit)
next
  fix s i c g kont
  assume "flight_inv (\<le>) s"
  then show "flight_inv (\<le>) (send_request cfg i g kont (s\<lparr>inFlight := inFlight s + 1, cell_cache := c\<rparr>))"
    by (intro flight_send) (simp_all add: flight_inv_def)
next
  fix s x r b bytes cs nc c s'
  assume "flight_inv (\<le>) s" "xhrs s x = Some r" "deliver cfg (r_cont r) b (s\<lparr>xhrs := (xhrs s)(x := None),
      bytes_downloaded := bytes, cells := cs, next_cell := nc, cell_cache := c\<rparr>) = Inr s'"
  then show "flight_inv (\<le>) s'" by (elim flight_reply [rotated 3]) simp_all
qed (simp_all add: hide_child_def flight_start)

interpretation exact_requests: query_restarts cfg "\<lambda>s. RUN_ON_CACHE_ONLY cfg \<or> flight_inv (=) s" for cfg
proof unfold_locales
  fix a s go s'
  assume "RUN_ON_CACHE_ONLY cfg \<or> flight_inv (=) s" "begin_cell cfg a s = (go, s')"
  with flight_begin [of "(=)" s "(=)"] show "RUN_ON_CACHE_ONLY cfg \<or> flight_inv (=) s'" by auto
next
  fix s i b c kont s'
  assume "RUN_ON_CACHE_ONLY cfg \<or> flight_inv (=) s"
    "deliver cfg kont b (s\<lparr>inFlight := inFlight s + 1, cell_cache := c\<rparr>) = Inr s'"
  then show "RUN_ON_CACHE_ONLY cfg \<or> flight_inv (=) s'" using flight_hit by blast
next
  fix s i c g kont
  assume "RUN_ON_CACHE_ONLY cfg \<or> flight_inv (=) s"
  then show "RUN_ON_CACHE_ONLY cfg \<or>
      flight_inv (=) (send_request cfg i g kont (s\<lparr>inFlight := inFlight s + 1, cell_cache := c\<rparr>))"
    using flight_send [of "(=)" s cfg i g kont c] by (auto simp: flight_inv_def [of _ s])
next
  fix s x r b bytes cs nc c s'
  assume "RUN_ON_CACHE_ONLY cfg \<or> flight_inv (=) s" "xhrs s x = Some r"
    "deliver cfg (r_cont r) b (s\<lparr>xhrs := (xhrs s)(x := None),
      bytes_downloaded := bytes, cells := cs, next_cell := nc, cell_cache := c\<rparr>) = Inr s'"
  then show "RUN_ON_CACHE_ONLY cfg \<or> flight_inv (=) s'"
    using flight_reply [of "(=)" s x r cfg "r_cont r" b] by auto
next
  fix s i
  assume "RUN_ON_CACHE_ONLY cfg \<or> flight_inv (=) s"
  then show "RUN_ON_CACHE_ONLY cfg \<or> flight_inv (=) (start_query cfg i s)"
    using flight_start [of s "(=)"] by (auto simp: flight_inv_def [of _ s])
qed (auto simp: hide_child_def)

section \<open>The fuel\<close>

text \<open>
  A walk can begin as many cells as are left of one and a half times the desired count, and one more
  that stops it; an interrupted walk begins none.
\<close>

definition fuel_needed :: "real \<Rightarrow> real \<Rightarrow> nat" where
  "fuel_needed d x = nat (\<lfloor>d * 1.5 - x\<rfloor> + 1) + 1"

definition fuel_ok :: "config \<Rightarrow> nat \<Rightarrow> querier \<Rightarrow> bool" where
  "fuel_ok cfg n s \<longleftrightarrow>
     flight_inv (\<le>) s \<and>
     (interrupt_query s \<or>
      (\<exists>d x. desired_cell_count cfg = Fin d \<and> cell_count s = Fin x \<and> fuel_needed d x \<le> n))"

lemma fuel_begin:
  assumes "fuel_ok cfg (Suc n) s" "\<not> interrupt_query s" "begin_cell cfg a s = (go, s')"
  shows "fuel_ok cfg n s'"
proof -
  have f: "flight_inv (\<le>) s" using assms(1) by (simp add: fuel_ok_def)
  from assms(1,2) obtain d x where dx: "desired_cell_count cfg = Fin d" "cell_count s = Fin x"
      "fuel_needed d x \<le> Suc n" by (auto simp: fuel_ok_def)
  from assms(3) show ?thesis
  proof (cases rule: begin_cell_cases)
    case stop
    from flight_begin [OF f _ assms(3), of "(\<le>)"] stop show ?thesis
      by (auto simp: fuel_ok_def cancel_def)
  next
    case (pass cs)
    have "0 \<le> inFlight s" using f by (auto simp: flight_inv_def)
    then have "x \<le> d * 1.5" using pass(1) dx by (simp add: num_cells_def not_less)
    then have "0 \<le> \<lfloor>d * 1.5 - x\<rfloor>" by simp
    moreover have "\<lfloor>d * 1.5 - (x + 1)\<rfloor> = \<lfloor>d * 1.5 - x\<rfloor> - 1" by linarith
    ultimately have "fuel_needed d (x + 1) \<le> n"
      using dx(3) unfolding fuel_needed_def by linarith
    with f pass(2) dx show ?thesis by (simp add: fuel_ok_def flight_inv_def)
  qed
qed

interpretation fuel: query_roots cfg "fuel_ok cfg" "\<lambda>e. e = Type_error" for cfg
proof unfold_locales
  fix n a s go s'
  assume "fuel_ok cfg (Suc n) s" "\<not> interrupt_query s" "begin_cell cfg a s = (go, s')"
  then show "fuel_ok cfg n s'" by (rule fuel_begin)
next
  fix n s i b c kont s'
  assume "fuel_ok cfg n s" and d: "deliver cfg kont b (s\<lparr>inFlight := inFlight s + 1, cell_cache := c\<rparr>) = Inr s'"
  then show "fuel_ok cfg n s'"
    using flight_hit [OF _ d] hit_unchanged [OF d] by (auto simp: fuel_ok_def)
next
  fix n s i c g kont
  assume "fuel_ok cfg n s"
  then show "fuel_ok cfg n (send_request cfg i g kont (s\<lparr>inFlight := inFlight s + 1, cell_cache := c\<rparr>))"
    using flight_send [of "(\<le>)" s cfg i g kont c]
    by (auto simp: fuel_ok_def flight_inv_def [of _ s] send_simps)
qed (auto simp: fuel_ok_def hide_child_def fuel_needed_def)

end
