(* ===== verification/QuerierProperties.thy ===== *)
theory QuerierProperties
  imports QuerierInvariants
begin

text \<open>
  The properties of the frustum query (\<open>Querier\<close>) over all the states that sequences of events reach:
  counting of requests, termination, the budget of cells, and the behaviours where the code falls
  short: a failed request, callbacks that share a variable, and a walk that enters itself.
\<close>

section \<open>Reachable states\<close>

text \<open>
  A fresh object, then events; the globals may change between the events within \<open>C\<close>, and only the
  events in \<open>ok\<close> occur. An event that ends in an exception leads nowhere.
\<close>

inductive reachable :: "config set \<Rightarrow> (event \<Rightarrow> bool) \<Rightarrow> querier \<Rightarrow> bool" for C ok where
  new: "cfg \<in> C \<Longrightarrow> reachable C ok (FrustumQuerier_new cfg m cs cache_size)"
| event: "reachable C ok s \<Longrightarrow> cfg \<in> C \<Longrightarrow> ok ev \<Longrightarrow> enabled ev s \<Longrightarrow> handle cfg n ev s = Inr s' \<Longrightarrow>
    reachable C ok s'"

lemma flight_new: "R 0 0 \<Longrightarrow> flight_inv R (FrustumQuerier_new cfg m cs msz)"
  by (simp add: FrustumQuerier_new_def flight_inv_def)

lemma flight_failed: "flight_inv (\<le>) s \<Longrightarrow> flight_inv (\<le>) (s\<lparr>xhrs := (xhrs s)(x := None)\<rparr>)"
proof -
  assume f: "flight_inv (\<le>) s"
  then have "finite (dom (xhrs s))"
    using finite_subset [of "dom (xhrs s)" "{..<next_xhr s}"] by (simp add: flight_inv_def)
  then have "card (dom (xhrs s) - {x}) \<le> card (dom (xhrs s))" by (intro card_mono) auto
  with f show ?thesis by (auto simp: flight_inv_def)
qed

lemma flight_handle:
  assumes "flight_inv (\<le>) s" "handle cfg n ev s = Inr s'"
  shows "flight_inv (\<le>) s'"
proof (cases "\<exists>x. ev = LoadFailed x")
  case True
  with assms flight_failed show ?thesis by (auto simp: handle_def)
next
  case False
  with assms requests.handle_keeps show ?thesis by blast
qed

lemma reachable_flight: "reachable C ok s \<Longrightarrow> flight_inv (\<le>) s"
  by (induction rule: reachable.induct) (simp_all add: flight_new flight_handle)

section \<open>The count of cells\<close>

definition counted :: "querier \<Rightarrow> bool" where
  "counted s \<longleftrightarrow> flight_inv (\<le>) s \<and> (\<exists>x \<ge> 0. cell_count s = Fin x)"

lemma counted_flight: "counted s \<Longrightarrow> 0 \<le> inFlight s"
  by (auto simp: counted_def flight_inv_def)

lemma counted_begin:
  assumes "counted s" "begin_cell cfg a s = (go, s')"
  shows "counted s'"
proof -
  have f: "flight_inv (\<le>) s'"
    using assms flight_begin [of "(\<le>)" s "(\<le>)" cfg a] by (auto simp: counted_def)
  from assms(1) obtain x where x: "0 \<le> x" "cell_count s = Fin x" by (auto simp: counted_def)
  from assms(2) show ?thesis
  proof (cases rule: begin_cell_cases)
    case stop
    with f x counted_flight [OF assms(1)] show ?thesis
      by (simp add: counted_def cancel_def num_cells_def)
  next
    case (pass cs)
    with f x show ?thesis by (simp add: counted_def)
  qed
qed

interpretation counting: query_restarts cfg counted for cfg
proof unfold_locales
  fix a s go s'
  assume "counted s" "begin_cell cfg a s = (go, s')"
  then show "counted s'" by (rule counted_begin)
next
  fix s i b c kont s'
  assume "counted s" and d: "deliver cfg kont b (s\<lparr>inFlight := inFlight s + 1, cell_cache := c\<rparr>) = Inr s'"
  then show "counted s'" using flight_hit [OF _ d] hit_unchanged [OF d] by (auto simp: counted_def)
next
  fix s i c g kont
  assume "counted s"
  then show "counted (send_request cfg i g kont (s\<lparr>inFlight := inFlight s + 1, cell_cache := c\<rparr>))"
    using requests.I_miss [of s] flight_send [of "(\<le>)" s cfg i g kont c]
    by (auto simp: counted_def flight_inv_def [of _ s])
next
  fix s x r b bytes cs nc c s'
  assume "counted s" "xhrs s x = Some r" and d: "deliver cfg (r_cont r) b (s\<lparr>xhrs := (xhrs s)(x := None),
      bytes_downloaded := bytes, cells := cs, next_cell := nc, cell_cache := c\<rparr>) = Inr s'"
  then show "counted s'" using requests.I_reply [OF _ _ d] deliver_unchanged [OF d] by (auto simp: counted_def)
qed (auto simp: counted_def hide_child_def flight_start)

lemma reachable_counted:
  assumes "reachable C ok s" "\<forall>cfg \<in> C. \<exists>d \<ge> 0. desired_cell_count cfg = Fin d"
  shows "counted s"
  using assms(1)
proof induction
  case (new cfg m cs msz)
  with assms(2) flight_new [of "(\<le>)" cfg m cs msz] show ?case
    by (auto simp: counted_def FrustumQuerier_new_def)
next
  case (event s cfg ev n s')
  show ?case
  proof (cases "\<exists>x. ev = LoadFailed x")
    case True
    with event flight_failed show ?thesis by (auto simp: handle_def counted_def)
  next
    case False
    with event counting.handle_keeps show ?thesis by blast
  qed
qed

text \<open>A walk that is not interrupted has counted at most one cell over the budget.\<close>

definition in_budget :: "real \<Rightarrow> querier \<Rightarrow> bool" where
  "in_budget d s \<longleftrightarrow>
     flight_inv (\<le>) s \<and> (interrupt_query s \<or> (\<exists>x. cell_count s = Fin x \<and> x \<le> d * 1.5 + 1))"

lemma budget_begin:
  assumes "in_budget d s" "desired_cell_count cfg = Fin d" "begin_cell cfg a s = (go, s')"
  shows "in_budget d s'"
proof -
  have f: "flight_inv (\<le>) s" "0 \<le> inFlight s" "flight_inv (\<le>) s'"
    using assms flight_begin [of "(\<le>)" s "(\<le>)" cfg a]
    by (auto simp: in_budget_def) (auto simp: flight_inv_def)
  from assms(3) show ?thesis
  proof (cases rule: begin_cell_cases)
    case stop
    with f(3) show ?thesis by (simp add: in_budget_def cancel_def)
  next
    case (pass cs)
    with f assms(1,2) show ?thesis by (auto simp: in_budget_def num_cells_def not_less)
  qed
qed

interpretation budget: query_restarts cfg
  "\<lambda>s. in_budget d s \<or> desired_cell_count cfg \<noteq> Fin d \<or> d < 0" for cfg d
proof unfold_locales
  let ?I = "\<lambda>s. in_budget d s \<or> desired_cell_count cfg \<noteq> Fin d \<or> d < 0"
  fix a s go s'
  assume "?I s" "begin_cell cfg a s = (go, s')"
  with budget_begin show "?I s'" by blast
next
  let ?I = "\<lambda>s. in_budget d s \<or> desired_cell_count cfg \<noteq> Fin d \<or> d < 0"
  fix s i b c kont s'
  assume "?I s" and e: "deliver cfg kont b (s\<lparr>inFlight := inFlight s + 1, cell_cache := c\<rparr>) = Inr s'"
  then show "?I s'" using flight_hit [OF _ e] hit_unchanged [OF e] by (auto simp: in_budget_def)
next
  let ?I = "\<lambda>s. in_budget d s \<or> desired_cell_count cfg \<noteq> Fin d \<or> d < 0"
  fix s i c g kont
  assume "?I s"
  then show "?I (send_request cfg i g kont (s\<lparr>inFlight := inFlight s + 1, cell_cache := c\<rparr>))"
    using flight_send [of "(\<le>)" s cfg i g kont c]
    by (auto simp: in_budget_def flight_inv_def [of _ s])
next
  let ?I = "\<lambda>s. in_budget d s \<or> desired_cell_count cfg \<noteq> Fin d \<or> d < 0"
  fix s x r b bytes cs nc c s'
  assume "?I s" "xhrs s x = Some r" and e: "deliver cfg (r_cont r) b (s\<lparr>xhrs := (xhrs s)(x := None),
      bytes_downloaded := bytes, cells := cs, next_cell := nc, cell_cache := c\<rparr>) = Inr s'"
  then show "?I s'" using requests.I_reply [OF _ _ e] deliver_unchanged [OF e] by (auto simp: in_budget_def)
qed (auto simp: in_budget_def hide_child_def flight_start)

section \<open>Requests of a new query\<close>

definition fresh :: "nat \<Rightarrow> querier \<Rightarrow> bool" where
  "fresh k s \<longleftrightarrow> (\<forall>x. xhrs s x \<noteq> None \<longrightarrow> k \<le> x) \<and> k \<le> next_xhr s"

interpretation new_requests: query_roots cfg "\<lambda>_. fresh k" "\<lambda>_. True" for cfg k
proof unfold_locales
  fix a s go s'
  assume I: "fresh k s" and "begin_cell cfg a s = (go, s')"
  from this(2) show "fresh k s'"
    by (cases rule: begin_cell_cases) (use I in \<open>auto simp: fresh_def cancel_def restrict_map_def split: if_splits\<close>)
next
  fix s i b c kont s'
  assume "fresh k s" and d: "deliver cfg kont b (s\<lparr>inFlight := inFlight s + 1, cell_cache := c\<rparr>) = Inr s'"
  then show "fresh k s'" using deliver_unchanged [OF d] by (simp add: fresh_def)
qed (auto simp: fresh_def hide_child_def send_request_def update_cell_def)

lemma fresh_start: "flight_inv (\<le>) s \<Longrightarrow> fresh (next_xhr s) (start_query cfg i s)"
proof -
  assume f: "flight_inv (\<le>) s"
  have "dom (xhrs (start_query cfg i s)) = {}"
    using flight_start [of s "(=)" cfg i] f by (auto simp: flight_inv_def start_query_def Let_def)
  then show ?thesis by (simp add: fresh_def dom_def) (simp add: start_query_def Let_def cancel_def)
qed

section \<open>A count that has leaked\<close>

definition finished :: "querier \<Rightarrow> nat" where
  "finished s = length (filter (\<lambda>r. case r of Finished _ \<Rightarrow> True | Progress _ \<Rightarrow> False) (outputs s))"

definition stuck_count :: "nat \<Rightarrow> querier \<Rightarrow> bool" where
  "stuck_count k s \<longleftrightarrow> interrupt_query s \<or> flight_inv (<) s \<and> finished s = k"

lemma stuck_end: "stuck_count k s \<Longrightarrow> stuck_count k (end_queue cfg s)"
  by (auto simp: stuck_count_def finished_def end_queue_def Let_def flight_inv_def)

interpretation leak: query_events cfg "stuck_count k" for cfg k
proof unfold_locales
  fix a s go s'
  assume I: "stuck_count k s" and b: "\<not> interrupt_query s" "begin_cell cfg a s = (go, s')"
  from b(2) show "stuck_count k s'"
    by (cases rule: begin_cell_cases) (use I b(1) in \<open>auto simp: stuck_count_def finished_def flight_inv_def cancel_def\<close>)
next
  fix s i b c kont s'
  assume "stuck_count k s" and d: "deliver cfg kont b (s\<lparr>inFlight := inFlight s + 1, cell_cache := c\<rparr>) = Inr s'"
  then show "stuck_count k s'"
    using flight_hit [OF _ d] hit_unchanged [OF d] by (auto simp: stuck_count_def finished_def)
next
  fix s i c g kont
  assume "stuck_count k s"
  then show "stuck_count k (send_request cfg i g kont (s\<lparr>inFlight := inFlight s + 1, cell_cache := c\<rparr>))"
    using flight_send [of "(<)" s cfg i g kont c]
    by (auto simp: stuck_count_def finished_def flight_inv_def [of _ s])
next
  fix s x r b bytes cs nc c s'
  assume "stuck_count k s" "xhrs s x = Some r" and d: "deliver cfg (r_cont r) b (s\<lparr>xhrs := (xhrs s)(x := None),
      bytes_downloaded := bytes, cells := cs, next_cell := nc, cell_cache := c\<rparr>) = Inr s'"
  then show "stuck_count k s'"
    using flight_reply [OF _ _ _ d] deliver_unchanged [OF d]
    by (auto simp: stuck_count_def finished_def)
next
  fix s
  assume "stuck_count k s"
  then show "stuck_count k (end_queue cfg s)" by (rule stuck_end)
qed (auto simp: hide_child_def stuck_count_def finished_def)

section \<open>The variable that the callbacks of the roots share\<close>

interpretation shared: query_walk cfg "\<lambda>_ s. tree_env s = h" "\<lambda>_. True" for cfg h
proof unfold_locales
  fix a s go s'
  assume I: "tree_env s = h" and "begin_cell cfg a s = (go, s')"
  from this(2) show "tree_env s' = h"
    by (cases rule: begin_cell_cases) (use I in \<open>simp_all add: cancel_def\<close>)
next
  fix s i b c kont s'
  assume "tree_env s = h" and d: "deliver cfg kont b (s\<lparr>inFlight := inFlight s + 1, cell_cache := c\<rparr>) = Inr s'"
  then show "tree_env s' = h" using deliver_unchanged [OF d] by simp
qed (simp_all add: hide_child_def send_request_def update_cell_def end_queue_def Let_def)

lemma root_loop_env:
  assumes "root_loop cfg n e (ts @ [t]) s = Inr s'" and t: "t \<in> set (trees_info cfg)"
  shows "tree_env s' e = t"
  using assms(1)
proof (induction ts arbitrary: s)
  case Nil
  let ?s = "s\<lparr>tree_env := (tree_env s)(e := t)\<rparr>"
  have "shared.holds (tree_env ?s) n (bind_res (cache_get (t_root (trees cfg j)) (?s\<lparr>inFlight := inFlight ?s + 1\<rparr>)) (\<lambda>(r, s).
           case r of Some b \<Rightarrow> on_success cfg n (RootCont e) b s
           | None \<Rightarrow> Inr (send_request cfg (t_root (trees cfg j)) g (RootCont e) s)))" if "t = Some j" for j g
    using t that by (intro shared.cached_or_sent_holds shared.walk) (simp_all add: asked_def)
  then have "shared.holds (tree_env ?s) n (root_loop cfg n e [t] s)"
    by (auto simp: Let_def intro!: shared.holds_bind split: option.split)
  with Nil show ?case by simp
next
  case (Cons u ts)
  then show ?case by (auto simp: Let_def bind_res_Inr_iff)
qed

lemma trigger_env:
  assumes "triggerFrustum cfg n i s = Inr s'" "last_trigger s = 0 \<or> i = last_trigger s"
    "trees_info cfg = ts @ [t]"
  shows "tree_env s' (next_env s) = t"
proof -
  from assms obtain u where u:
      "root_loop cfg n (next_env s) (ts @ [t]) ((start_query cfg i s)\<lparr>next_env := next_env s + 1\<rparr>) = Inr u"
      "(if queue u \<noteq> [] then processQueue cfg n u else Inr (u\<lparr>isProcessingQueue := False\<rparr>)) = Inr s'"
    by (auto simp: triggerFrustum_def Let_def bind_res_Inr_iff)
  have "tree_env s' = tree_env u"
    using shared.processQueue_holds [of u "tree_env u" n cfg] u(2) by (auto split: if_splits)
  with root_loop_env [OF u(1)] assms(3) show ?thesis by simp
qed

section \<open>A walk that enters itself\<close>

definition expands :: "config \<Rightarrow> querier \<Rightarrow> addr \<Rightarrow> bool" where
  "expands cfg s a \<longleftrightarrow>
     \<not> Cell_isLeaf (cells s a) \<and>
     \<not> node_size (cells s a) * node_size (cells s a) \<le> corrected_g_m_sq s *
         V3_lengthSquared (V3_mul4x4 (store cfg) (cameraMatrix s) (Cell_getCenter (store cfg) (cells s a)))"

definition visible :: "config \<Rightarrow> querier \<Rightarrow> addr \<Rightarrow> nat \<Rightarrow> bool" where
  "visible cfg s a k \<longleftrightarrow>
     Cell_hasChild (cells s a) k \<and>
     (inside_frustum (cells s a) > 0 \<or>
      child_frustum cfg s (cells s a) (NodeGeometry_getChild (geometry (cells s a)) k) > -1)"

text \<open>
  The cell that is next in the queue has a visible child \<open>k\<close> in the cache, and the flag that should
  say that the queue is being processed is not set.
\<close>

definition cached_children :: "querier \<Rightarrow> addr \<Rightarrow> nat \<Rightarrow> bool" where
  "cached_children s a k \<longleftrightarrow>
     (\<exists>xs. lru_rel (cell_cache s) xs \<and> child_id (cells s a) k \<in> dom (map_of xs) \<and>
        (\<forall>j < 8. map_of xs (child_id (cells s a) j) \<noteq> Some a))"

definition looping :: "config \<Rightarrow> addr \<Rightarrow> nat \<Rightarrow> querier \<Rightarrow> bool" where
  "looping cfg a k s \<longleftrightarrow>
     \<not> isProcessingQueue s \<and> \<not> interrupt_query s \<and>
     queue_index s < length (queue s) \<and> queue s ! queue_index s = a \<and>
     expands cfg s a \<and> visible cfg s a k \<and> cached_children s a k"

lemma child_id_ordinary: "j < 8 \<Longrightarrow> child_id c j \<notin> set Object_prototype_names"
proof
  assume j: "j < 8" and "child_id c j \<in> set Object_prototype_names"
  then have "char_of (48 + j) \<in> last ` set Object_prototype_names"
    by (intro image_eqI [of _ _ "child_id c j"]) (simp_all add: child_id_def)
  moreover have "\<forall>x \<in> last ` set Object_prototype_names. (of_char x :: nat) \<notin> {48..<56}"
    by (simp add: Object_prototype_names_def)
  ultimately have "(of_char (char_of (48 + j) :: char) :: nat) \<notin> {48..<56}" by blast
  with j show False by simp
qed

lemma map_of_touch: "distinct (map fst xs) \<Longrightarrow> map_of (lru_touch k xs) = map_of xs"
proof (cases "map_of xs k")
  case (Some v)
  have "map_of (filter (\<lambda>p. fst p \<noteq> k) xs) j = map_of xs j" if "j \<noteq> k" for j
    using that by (induction xs) auto
  with Some show ?thesis by (auto simp: lru_touch_def)
qed (simp add: lru_touch_def)

lemma looping_cong:
  assumes "cells s' a = cells s a" "isProcessingQueue s' = isProcessingQueue s"
    "interrupt_query s' = interrupt_query s" "queue_index s' = queue_index s"
    "queue s' = queue s @ bs" "cameraMatrix s' = cameraMatrix s" "frustum_planes s' = frustum_planes s"
    "corrected_g_m_sq s' = corrected_g_m_sq s" "cell_cache s' = cell_cache s" "looping cfg a k s"
  shows "looping cfg a k s'"
  using assms
  by (auto simp: looping_def expands_def visible_def child_frustum_def cached_children_def nth_append)

lemma looping_updates:
  "looping cfg a k (update_cell b (\<lambda>c. c\<lparr>show_children := h c\<rparr>) s) = looping cfg a k s"
  "looping cfg a k (s\<lparr>cell_count := n\<rparr>) = looping cfg a k s"
  "looping cfg a k (s\<lparr>inFlight := i\<rparr>) = looping cfg a k s"
  "looping cfg a k (s\<lparr>child_env := ce\<rparr>) = looping cfg a k s"
  "looping cfg a k (s\<lparr>next_env := ne\<rparr>) = looping cfg a k s"
  "looping cfg a k (s\<lparr>calls_in_a_row := ca\<rparr>) = looping cfg a k s"
  by (simp_all add: looping_def expands_def visible_def child_frustum_def child_id_def Cell_hasChild_def
      Cell_isLeaf_def Cell_getCenter_def update_cell_def cached_children_def)

definition told :: "addr \<Rightarrow> querier \<Rightarrow> querier" where
  "told a s =
     (let s = s\<lparr>cell_count := cell_count s + 1\<rparr>;
          s = update_cell a (\<lambda>c. c\<lparr>show_children := Cell_getChildren c\<rparr>) s
      in case parent_cell (cells s a) of None \<Rightarrow> s
         | Some p \<Rightarrow> hide_child p (octant_no (cells s a)) s)"

lemma looping_begin:
  assumes "looping cfg a k s" "begin_cell cfg a s = (go, s')"
  shows "interrupt_query s' \<and> TriggerTimer (-1) \<in> set (timers s') \<or> go \<and> looping cfg a k s'"
proof (cases "num_cells s > desired_cell_count cfg * Fin 1.5")
  case True
  with assms(2) show ?thesis by (auto simp: begin_cell_def Let_def cancel_def)
next
  case False
  then have "begin_cell cfg a s = (expands cfg (told a s) a, told a s)"
    by (simp add: begin_cell_def told_def expands_def Let_def)
  moreover have "looping cfg a k (told a s)"
    using assms(1) by (auto simp: told_def Let_def hide_child_def looping_updates split: option.split)
  ultimately show ?thesis using assms(2) by (simp add: looping_def)
qed

lemma looping_get:
  assumes "looping cfg a k s" "j < 8"
  obtains r c where "LRUCache_get (child_id (cells s a) j) (cell_cache s) = Some (r, c)" "r \<noteq> Some a"
    "j = k \<longrightarrow> r \<noteq> None" "\<forall>fl. looping cfg a k (s\<lparr>inFlight := fl, cell_cache := c\<rparr>)"
proof -
  from assms(1) obtain xs where xs: "lru_rel (cell_cache s) xs" "child_id (cells s a) k \<in> dom (map_of xs)"
      "\<forall>j < 8. map_of xs (child_id (cells s a) j) \<noteq> Some a"
    by (auto simp: looping_def cached_children_def)
  let ?j = "child_id (cells s a) j"
  from LRUCache_get_rel [OF xs(1) child_id_ordinary [OF assms(2)]] obtain c where
    c: "LRUCache_get ?j (cell_cache s) = Some (map_of xs ?j, c)" "lru_rel c (lru_touch ?j xs)"
    by blast
  have m: "map_of (lru_touch ?j xs) = map_of xs" by (rule map_of_touch [OF lru_rel_distinct [OF xs(1)]])
  show thesis
  proof (rule that [OF c(1)])
    show "map_of xs ?j \<noteq> Some a" using xs(3) assms(2) by blast
    show "j = k \<longrightarrow> map_of xs ?j \<noteq> None" using xs(2) by blast
    show "\<forall>fl. looping cfg a k (s\<lparr>inFlight := fl, cell_cache := c\<rparr>)"
    proof
    fix fl
    have "cached_children (s\<lparr>inFlight := fl, cell_cache := c\<rparr>) a k"
      unfolding cached_children_def
      by (rule exI [of _ "lru_touch ?j xs"]) (use c(2) xs(2,3) m in simp)
    with assms(1) show "looping cfg a k (s\<lparr>inFlight := fl, cell_cache := c\<rparr>)"
      by (auto simp: looping_def expands_def visible_def child_frustum_def)
    qed
  qed
qed

lemma looping_deliver:
  assumes "looping cfg a k s" "deliver cfg (ChildCont d e) b s = Inr s'" "b \<noteq> a"
  shows "looping cfg a k s'"
  using assms(2)
  by (intro looping_cong [OF _ _ _ _ _ _ _ _ _ assms(1), of s' "[b]"])
    (use assms(3) in \<open>auto simp: deliver_def Let_def update_cell_def\<close>)

definition gave_up :: "querier \<Rightarrow> bool" where
  "gave_up s \<longleftrightarrow> interrupt_query s \<and> TriggerTimer (-1) \<in> set (timers s)"

interpretation interrupted: query_walk cfg "\<lambda>_. gave_up" "\<lambda>_. True" for cfg
proof unfold_locales
  fix s i b c kont s'
  assume "gave_up s" and d: "deliver cfg kont b (s\<lparr>inFlight := inFlight s + 1, cell_cache := c\<rparr>) = Inr s'"
  from d show "gave_up s'" using \<open>gave_up s\<close> by (elim deliver_cases) (simp add: gave_up_def)
qed (simp_all add: gave_up_def hide_child_def send_request_def update_cell_def end_queue_def Let_def)

lemma looping_child:
  assumes IH: "\<forall>s s'. looping cfg a k s \<longrightarrow> queue_loop cfg n s = Inr s' \<longrightarrow> gave_up s'"
    and L: "looping cfg a k s" and "j < 8" "visible cfg s a j"
    and r: "bind_res (cache_get (child_id (cells s a) j) (s\<lparr>inFlight := inFlight s + 1\<rparr>)) (\<lambda>(r, t).
        case r of Some b \<Rightarrow> on_success cfg n (ChildCont a e) b t
        | None \<Rightarrow> Inr (send_request cfg (child_id (cells s a) j) g (ChildCont a e) t)) = Inr s'"
  shows "gave_up s' \<or> j \<noteq> k \<and> looping cfg a k s'"
proof -
  from L \<open>j < 8\<close> obtain r c where c: "LRUCache_get (child_id (cells s a) j) (cell_cache s) = Some (r, c)"
      "r \<noteq> Some a" "j = k \<longrightarrow> r \<noteq> None" "\<forall>fl. looping cfg a k (s\<lparr>inFlight := fl, cell_cache := c\<rparr>)"
    by (rule looping_get)
  let ?s = "s\<lparr>inFlight := inFlight s + 1, cell_cache := c\<rparr>"
  show ?thesis
  proof (cases r)
    case None
    with r c(1) have "s' = send_request cfg (child_id (cells s a) j) g (ChildCont a e) ?s"
      by (simp add: cache_get_def)
    then have "looping cfg a k s'"
      by (intro looping_cong [OF _ _ _ _ _ _ _ _ _ c(4) [rule_format], of _ _ "[]"]) (simp_all add: send_request_def)
    with c(3) None show ?thesis by blast
  next
    case (Some b)
    with r c(1) have "on_success cfg n (ChildCont a e) b ?s = Inr s'" by (simp add: cache_get_def)
    then obtain t where t: "deliver cfg (ChildCont a e) b ?s = Inr t"
        "(if \<not> isProcessingQueue t then queue_loop cfg n (t\<lparr>calls_in_a_row := 0\<rparr>)
          else Inr (t\<lparr>calls_in_a_row := calls_in_a_row t + 1\<rparr>)) = Inr s'"
        unfolding on_success.simps bind_res_Inr_iff cont.case by blast
    have "looping cfg a k t" using c(2,4) Some t(1) looping_deliver by blast
    then have "\<not> isProcessingQueue t" "looping cfg a k (t\<lparr>calls_in_a_row := 0\<rparr>)"
      by (simp_all only: looping_updates) (simp add: looping_def)
    with IH t(2) show ?thesis by auto
  qed
qed

text \<open>One child, by whether it is visible; the loop variable is written for every child that exists.\<close>

definition with_child :: "config \<Rightarrow> addr \<Rightarrow> nat \<Rightarrow> nat \<Rightarrow> querier \<Rightarrow> querier" where
  "with_child cfg a e j s = s\<lparr>child_env := (child_env s)(e := child_frustum cfg s (cells s a)
      (NodeGeometry_getChild (geometry (cells s a)) j))\<rparr>"

lemma children_step:
  "children_loop cfg n a e (j # js) s =
     bind_res
       (if visible cfg s a j then
          bind_res (cache_get (child_id (cells s a) j)
              ((with_child cfg a e j s)\<lparr>inFlight := inFlight (with_child cfg a e j s) + 1\<rparr>)) (\<lambda>(r, t).
            case r of Some b \<Rightarrow> on_success cfg n (ChildCont a e) b t
            | None \<Rightarrow> Inr (send_request cfg (child_id (cells s a) j)
                (NodeGeometry_getChild (geometry (cells s a)) j) (ChildCont a e) t))
        else Inr (hide_child a j (if Cell_hasChild (cells s a) j then with_child cfg a e j s else s)))
       (children_loop cfg n a e js)"
  by (simp add: children_loop.simps(2) Let_def visible_def with_child_def)

lemma with_child_cells [simp]: "cells (with_child cfg a e j s) = cells s"
  by (simp add: with_child_def)

lemma looping_children:
  assumes IH: "\<forall>s s'. looping cfg a k s \<longrightarrow> queue_loop cfg n s = Inr s' \<longrightarrow> gave_up s'"
  shows "looping cfg a k s \<Longrightarrow> set js \<subseteq> {..<8} \<Longrightarrow> children_loop cfg n a e js s = Inr s' \<Longrightarrow>
    gave_up s' \<or> k \<notin> set js \<and> looping cfg a k s'"
proof (induction js arbitrary: s)
  case (Cons j js)
  let ?s = "with_child cfg a e j s"
  have vis: "visible cfg s a k" "visible cfg ?s a j = visible cfg s a j" "looping cfg a k ?s"
    using Cons.prems(1)
    by (simp_all add: looping_updates with_child_def) (auto simp: looping_def visible_def child_frustum_def)
  from Cons.prems(3) obtain t where rest: "children_loop cfg n a e js t = Inr s'"
    and first: "(if visible cfg s a j then
          bind_res (cache_get (child_id (cells s a) j) (?s\<lparr>inFlight := inFlight ?s + 1\<rparr>)) (\<lambda>(r, t).
            case r of Some b \<Rightarrow> on_success cfg n (ChildCont a e) b t
            | None \<Rightarrow> Inr (send_request cfg (child_id (cells s a) j)
                (NodeGeometry_getChild (geometry (cells s a)) j) (ChildCont a e) t))
        else Inr (hide_child a j (if Cell_hasChild (cells s a) j then ?s else s))) = Inr t"
    unfolding children_step bind_res_Inr_iff [of _ "children_loop cfg n a e js"] by blast
  have t: "gave_up t \<or> j \<noteq> k \<and> looping cfg a k t"
  proof (cases "visible cfg s a j")
    case True
    have "j < 8" using Cons.prems(2) by simp
    from first have "bind_res (cache_get (child_id (cells ?s a) j) (?s\<lparr>inFlight := inFlight ?s + 1\<rparr>)) (\<lambda>(r, t).
            case r of Some b \<Rightarrow> on_success cfg n (ChildCont a e) b t
            | None \<Rightarrow> Inr (send_request cfg (child_id (cells ?s a) j)
                (NodeGeometry_getChild (geometry (cells s a)) j) (ChildCont a e) t)) = Inr t"
      using True by (simp only: if_True with_child_cells)
    then show ?thesis by (rule looping_child [OF IH vis(3) \<open>j < 8\<close>, rotated]) (use vis(2) True in simp)
  next
    case False
    with vis(1) have "j \<noteq> k" by blast
    with first False Cons.prems(1) vis(3) show ?thesis
      by (auto simp: hide_child_def looping_updates split: if_splits)
  qed
  from t show ?case
  proof
    assume "gave_up t"
    then have "interrupted.holds n (children_loop cfg n a e js t)"
      using Cons.prems(2) by (intro interrupted.children_loop_holds [OF interrupted.walk]) simp_all
    with rest show ?case by simp
  next
    assume "j \<noteq> k \<and> looping cfg a k t"
    with Cons.IH [of t] Cons.prems(2) rest show ?case by auto
  qed
qed simp

lemma looping_gives_up:
  assumes "k < 8"
  shows "looping cfg a k s \<Longrightarrow> queue_loop cfg n s = Inr s' \<Longrightarrow> gave_up s'"
proof (induction n arbitrary: s s')
  case 0
  then show ?case by (simp add: queue_loop.simps [of cfg 0] looping_def)
next
  case (Suc n)
  then have IH: "\<forall>s s'. looping cfg a k s \<longrightarrow> queue_loop cfg n s = Inr s' \<longrightarrow> gave_up s'" by blast
  from Suc.prems have "queue_index s < length (queue s) \<and> \<not> interrupt_query s" "queue s ! queue_index s = a"
    by (simp_all add: looping_def)
  with Suc.prems(2) obtain t where t: "processCell cfg n a s = Inr t"
      "(let s = t\<lparr>queue_index := queue_index t + 1\<rparr>
        in if calls_in_a_row s > 50 then Inr (s\<lparr>timers := timers s @ [ProcessTimer]\<rparr>)
           else queue_loop cfg n s) = Inr s'"
    by (auto simp: queue_loop.simps [of cfg "Suc n"] bind_res_Inr_iff)
  obtain go u where u: "begin_cell cfg a s = (go, u)" by fastforce
  have "gave_up t"
  proof (cases "go \<and> looping cfg a k u")
    case True
    with t(1) u have c: "children_loop cfg n a (next_env u) [0..<8] (u\<lparr>next_env := next_env u + 1\<rparr>) = Inr t"
      by (simp add: processCell.simps)
    have "set [0..<8] \<subseteq> {..<(8 :: nat)}" by auto
    with looping_children [OF IH _ _ c] True \<open>k < 8\<close> show ?thesis by (auto simp: looping_updates)
  next
    case False
    with looping_begin [OF Suc.prems(1) u] have "gave_up u" by (auto simp: gave_up_def)
    moreover from this have "gave_up (u\<lparr>next_env := next_env u + 1\<rparr>)" by (simp add: gave_up_def)
    moreover have "set [0..<8] \<subseteq> {..<(8 :: nat)}" by auto
    note interrupted.children_loop_holds [OF interrupted.walk _ this]
    ultimately show ?thesis
      using t(1) u by (auto simp: processCell.simps split: bool.splits) (metis interrupted.holds_simps(2))
  qed
  then have "gave_up (t\<lparr>queue_index := queue_index t + 1\<rparr>)" by (simp add: gave_up_def)
  with t(2) interrupted.queue_loop_holds [OF this, where n = n and cfg = cfg] show ?case
    by (auto simp: gave_up_def Let_def split: if_splits)
qed

section \<open>Properties\<close>

lemma fuel_needed_mono: "0 \<le> x \<Longrightarrow> fuel_needed d x \<le> fuel_needed d 0"
  by (simp add: fuel_needed_def) linarith

lemma fuel_of_counted: "counted s \<Longrightarrow> desired_cell_count cfg = Fin d \<Longrightarrow> fuel_needed d 0 \<le> n \<Longrightarrow> fuel_ok cfg n s"
  using fuel_needed_mono le_trans unfolding counted_def fuel_ok_def by blast

lemma fuel_updates:
  "fuel_ok cfg n (s\<lparr>timers := ts\<rparr>) = fuel_ok cfg n s" "counted (s\<lparr>timers := ts\<rparr>) = counted s"
  by (simp_all add: fuel_ok_def counted_def)

lemma trigger_terminates:
  assumes "flight_inv (\<le>) s" "desired_cell_count cfg = Fin d" "fuel_needed d 0 \<le> n"
  shows "triggerFrustum cfg n i s \<noteq> Inl Out_of_fuel"
proof (cases "last_trigger s \<noteq> 0 \<and> i \<noteq> last_trigger s")
  case False
  have "fuel_ok cfg n (start_query cfg i s)"
    using assms flight_start [of s "(\<le>)"] by (simp add: fuel_ok_def zero_jsnum_def)
  from fuel.triggerFrustum_holds [OF False this] show ?thesis by auto
qed (simp add: triggerFrustum_def)

lemma loaded_terminates:
  assumes "counted s" "xhrs s x = Some r" "desired_cell_count cfg = Fin d" "fuel_needed d 0 \<le> n"
    and t: "t = s\<lparr>xhrs := (xhrs s)(x := None), bytes_downloaded := bytes, cells := cs, next_cell := nc, cell_cache := c\<rparr>"
  shows "on_success cfg n (r_cont r) b t \<noteq> Inl Out_of_fuel"
proof -
  have "fuel.holds cfg n (on_success cfg n (r_cont r) b t)"
  proof (rule fuel.on_success_holds [OF fuel.walk])
    fix u
    assume "deliver cfg (r_cont r) b t = Inr u"
    from counting.I_reply [OF assms(1,2) this [unfolded t]] show "fuel_ok cfg n u"
      using assms(3,4) by (rule fuel_of_counted)
  qed (rule deliver_error)
  then show ?thesis by auto
qed

lemma handle_terminates:
  assumes "counted s" "desired_cell_count cfg = Fin d" "fuel_needed d 0 \<le> n"
  shows "handle cfg n ev s \<noteq> Inl Out_of_fuel"
proof (cases ev)
  case (GetFrustum camera gm)
  with assms show ?thesis
    by (simp add: handle_def getFrustum_def trigger_terminates counted_def)
next
  case (TimerFired i)
  let ?s = "s\<lparr>timers := take i (timers s) @ drop (i + 1) (timers s)\<rparr>"
  have "triggerFrustum cfg n k ?s \<noteq> Inl Out_of_fuel" for k
    using assms by (intro trigger_terminates [of _ cfg d]) (simp_all add: counted_def)
  moreover have "processQueue cfg n ?s \<noteq> Inl Out_of_fuel"
    using fuel.processQueue_holds [of cfg n ?s] fuel_of_counted [OF assms] by (auto simp: fuel_updates)
  ultimately show ?thesis using TimerFired by (simp add: handle_def Let_def split: timer.split)
next
  case (Loaded x response)
  show ?thesis
  proof (cases "xhrs s x")
    case (Some r)
    with Loaded loaded_terminates [OF assms(1) Some assms(2,3)] show ?thesis
      by (auto simp: handle_def cell_loaded_def Let_def split: option.split)
  qed (simp add: handle_def Loaded)
qed (simp_all add: handle_def)

text \<open>What may follow within one query: replies, failures, and the timer that continues a long walk.\<close>

definition restarts :: "event \<Rightarrow> querier \<Rightarrow> bool" where
  "restarts ev s =
     (case ev of GetFrustum _ _ \<Rightarrow> True | TimerFired i \<Rightarrow> timers s ! i \<noteq> ProcessTimer | _ \<Rightarrow> False)"

inductive replies :: "config set \<Rightarrow> querier \<Rightarrow> querier \<Rightarrow> bool" for C where
  none: "replies C s s"
| more: "replies C s t \<Longrightarrow> cfg \<in> C \<Longrightarrow> \<not> restarts ev t \<Longrightarrow> handle cfg n ev t = Inr u \<Longrightarrow> replies C s u"

lemma replies_stuck: "replies C s u \<Longrightarrow> stuck_count k s \<Longrightarrow> stuck_count k u"
proof (induction rule: replies.induct)
  case (more s t cfg ev n u)
  then have t: "stuck_count k t" by blast
  show ?case
  proof (cases ev)
    case (LoadFailed x)
    have "flight_inv (<) (t\<lparr>xhrs := (xhrs t)(x := None)\<rparr>)" if f: "flight_inv (<) t"
    proof -
      from f have "finite (dom (xhrs t))"
        using finite_subset [of "dom (xhrs t)" "{..<next_xhr t}"] by (simp add: flight_inv_def)
      then have "card (dom (xhrs t) - {x}) \<le> card (dom (xhrs t))" by (intro card_mono) auto
      with f show ?thesis by (auto simp: flight_inv_def)
    qed
    with t more.hyps LoadFailed show ?thesis by (auto simp: handle_def stuck_count_def finished_def)
  next
    case (SetProjection m)
    with t more.hyps show ?thesis
      by (auto simp: handle_def setProjectionMatrix_def stuck_count_def finished_def)
  next
    case (Loaded x response)
    with t more.hyps leak.Loaded_keeps show ?thesis by blast
  next
    case (TimerFired i)
    with t more.hyps leak.ProcessTimer_keeps show ?thesis by (auto simp: restarts_def)
  qed (use more.hyps in \<open>simp add: restarts_def\<close>)
qed

lemma flight_lost:
  assumes "flight_inv (\<le>) s" "xhrs s x \<noteq> None"
  shows "flight_inv (<) (s\<lparr>xhrs := (xhrs s)(x := None)\<rparr>)"
proof -
  from assms(1) have "finite (dom (xhrs s))"
    using finite_subset [of "dom (xhrs s)" "{..<next_xhr s}"] by (simp add: flight_inv_def)
  moreover have "x \<in> dom (xhrs s)" using assms(2) by blast
  ultimately have "card (dom (xhrs s)) = Suc (card (dom (xhrs s) - {x}))"
    by (rule card.remove)
  with assms(1) show ?thesis by (auto simp: flight_inv_def)
qed

text \<open>C13. As long as no request fails and the client is not restricted to its cache, the counter
  \<open>inFlight\<close> is the number of the requests that are under way, in every state that events reach:
  whether cells come from the cache or the server, and through cancellations and restarts.\<close>

theorem inflight_counts_requests:
  assumes "reachable C ok s" "\<forall>cfg \<in> C. \<not> RUN_ON_CACHE_ONLY cfg" "\<forall>x. \<not> ok (LoadFailed x)"
  shows "inFlight s = int (card (dom (xhrs s)))"
proof -
  have "flight_inv (=) s"
    using assms(1)
  proof induction
    case (new cfg m cs msz)
    then show ?case by (simp add: flight_new)
  next
    case (event s cfg ev n s')
    with assms(2,3) exact_requests.handle_keeps [of cfg s n ev s'] show ?case by auto
  qed
  then show ?thesis by (simp add: flight_inv_def)
qed

text \<open>C27. A query that starts aborts every request of the queries before it: none of them is still
  under way when \<open>getFrustum\<close> returns, so none of their cells can arrive in the new query's queue.\<close>

theorem new_query_aborts_old:
  assumes "reachable C ok s" "handle cfg n (GetFrustum camera gm) s = Inr s'"
  shows "dom (xhrs s) \<inter> dom (xhrs s') = {}"
proof -
  let ?s = "s\<lparr>cameraMatrix := camera, g_m := gm, last_trigger := 0\<rparr>"
  have f: "flight_inv (\<le>) s" by (rule reachable_flight [OF assms(1)])
  then have "fresh (next_xhr ?s) (start_query cfg 0 ?s)" by (intro fresh_start) simp
  from new_requests.triggerFrustum_holds [OF _ this, of n] assms(2) have "fresh (next_xhr s) s'"
    by (simp add: handle_def getFrustum_def)
  with f show ?thesis by (force simp: fresh_def flight_inv_def)
qed

text \<open>C3. Every event of the query ends: with a finite desired number of cells the walk over the
  queue, with all the walks that callbacks start inside it, takes no more steps than the budget allows,
  in every reachable state. From that fuel on the result does not depend on the fuel.\<close>

theorem query_events_terminate:
  assumes "reachable C ok s" "\<forall>cfg \<in> C. \<exists>d \<ge> 0. desired_cell_count cfg = Fin d"
    and "desired_cell_count cfg = Fin d" "fuel_needed d 0 \<le> n"
  shows "handle cfg n ev s \<noteq> Inl Out_of_fuel \<and> handle cfg n ev s = handle cfg (fuel_needed d 0) ev s"
proof -
  have c: "counted s" by (rule reachable_counted [OF assms(1,2)])
  from handle_terminates [OF c assms(3)] have "handle cfg (fuel_needed d 0) ev s \<noteq> Inl Out_of_fuel" by simp
  with handle_fuel_mono [OF this assms(4)] show ?thesis by (simp only: simp_thms)
qed


text \<open>C29. The callback for a failed request does not decrease \<open>inFlight\<close>. After one failure no
  sequence of further replies (or failures, or continued walks) makes the query report that it has
  finished: until the next query starts, or the walk exceeds its budget, \<open>inFlight\<close> stays positive
  and every result is reported as progress.\<close>

theorem failed_request_never_finishes:
  assumes "reachable C ok s" "xhrs s x \<noteq> None" "handle cfg n (LoadFailed x) s = Inr t"
    and "replies D t u" "\<not> interrupt_query u"
  shows "0 < inFlight u \<and> finished u = finished t"
proof -
  have "flight_inv (<) t"
    using flight_lost [OF reachable_flight [OF assms(1)] assms(2)] assms(3) by (auto simp: handle_def)
  then have "stuck_count (finished t) t" by (simp add: stuck_count_def)
  from replies_stuck [OF assms(4) this] assms(5) show ?thesis
    by (auto simp: stuck_count_def flight_inv_def)
qed

text \<open>The success callbacks of all root cells of a query share the variable \<open>tree_info\<close> of the
  loop, so a root that arrives after the call gets the colour of the last tree of the list, whichever
  tree it belongs to.\<close>

theorem root_callbacks_share:
  assumes "triggerFrustum cfg n i s = Inr s'" "last_trigger s = 0 \<or> i = last_trigger s"
    and "trees_info cfg = ts @ [Some t]"
  shows "\<exists>u. deliver cfg (RootCont (next_env s)) b s' = Inr u \<and>
           override_color (cells u b) = (if t_override (trees cfg t) then t_color (trees cfg t)
                                         else [Fin (-1), Fin (-1), Fin (-1)])"
  using trigger_env [OF assms] by (simp add: deliver_def update_cell_def Let_def)

text \<open>If the last tree of the list was removed (its entry is \<open>null\<close>), every root cell that arrives
  after the call makes its callback fail with an exception, also a root of a tree that is still there.\<close>

theorem removed_tree_fails:
  assumes "triggerFrustum cfg n i s = Inr s'" "last_trigger s = 0 \<or> i = last_trigger s"
    and "trees_info cfg = ts @ [None]" "xhrs s' x = Some r" "r_cont r = RootCont (next_env s)"
  shows "\<exists>e. handle cfg m (Loaded x response) s' = Inl e"
  using trigger_env [OF assms(1-3)] assms(4,5)
  by (auto simp: handle_def cell_loaded_def Let_def on_success.simps deliver_def split: option.split)


section \<open>Witnesses\<close>

text \<open>One tree whose root is requested from the server, with a second tree that was removed.\<close>

definition demo_config :: config where
  "demo_config =
     \<lparr>store = \<lambda>x. x, desired_cell_count = 100, min_box_size_meters = 1, RUN_ON_CACHE_ONLY = False,
      trees = \<lambda>_. \<lparr>t_enabled = True, t_override = True, t_color = [1, 0, 0], t_root = ''f'', t_geom = unit_root\<rparr>,
      trees_info = [Some 0, None]\<rparr>"

definition demo_start :: querier where
  "demo_start = FrustumQuerier_new demo_config [] (\<lambda>_. demo_cell) 10"

definition demo_sent :: querier where
  "demo_sent = (case handle demo_config 0 (GetFrustum [] 1) demo_start of Inr s \<Rightarrow> s | Inl _ \<Rightarrow> demo_start)"

lemmas demo_defs = demo_config_def demo_start_def demo_sent_def handle_def getFrustum_def triggerFrustum_def
  start_query_def FrustumQuerier_new_def adapt_resolution_def cache_get_def LRUCache_get_def LRUCache_new_def
  get_prop_def Object_prototype_names_def send_request_def Let_def

lemma demo_sent:
  "handle demo_config 0 (GetFrustum [] 1) demo_start = Inr demo_sent"
  "xhrs demo_sent = [0 \<mapsto> \<lparr>r_id = ''f'', r_geom = unit_root, r_cont = RootCont 0\<rparr>]"
  "inFlight demo_sent = 1" "last_trigger demo_sent = 0" "interrupt_query demo_sent = False"
  "next_env demo_start = 0" "last_trigger demo_start = 0"
  by (simp_all add: demo_defs)

lemma demo_reach: "reachable {demo_config} (\<lambda>ev. \<exists>camera gm. ev = GetFrustum camera gm) demo_sent"
proof (rule reachable.event [OF _ _ _ _ demo_sent(1)])
  show "reachable {demo_config} (\<lambda>ev. \<exists>camera gm. ev = GetFrustum camera gm) demo_start"
    unfolding demo_start_def by (rule reachable.new) simp
qed (simp_all add: enabled_def)

lemma demo_config_simps [simp]:
  "desired_cell_count demo_config = Fin 100" "RUN_ON_CACHE_ONLY demo_config = False"
  "trees_info demo_config = [Some 0, None]" "fuel_needed 100 0 = 152"
  by (simp_all add: demo_config_def fuel_needed_def)

lemma inflight_counts_witness: "inFlight demo_sent = int (card (dom (xhrs demo_sent)))"
  by (rule inflight_counts_requests [OF demo_reach]) simp_all

lemma new_query_aborts_witness:
  "\<exists>n s'. handle demo_config n (GetFrustum [] 2) demo_sent = Inr s' \<and> dom (xhrs demo_sent) \<inter> dom (xhrs s') = {}"
proof -
  have "\<exists>s'. handle demo_config 0 (GetFrustum [] 2) demo_sent = Inr s'"
    by (simp add: demo_defs cancel_def)
  then obtain s' where s': "handle demo_config 0 (GetFrustum [] 2) demo_sent = Inr s'" ..
  from new_query_aborts_old [OF demo_reach this] s' show ?thesis by blast
qed

lemma query_events_terminate_witness:
  "handle demo_config 200 (Loaded 0 (Some [0])) demo_sent \<noteq> Inl Out_of_fuel"
  by (rule query_events_terminate [OF demo_reach, where d = 100, THEN conjunct1]) simp_all


lemma failed_request_witness:
  "\<exists>t. handle demo_config 0 (LoadFailed 0) demo_sent = Inr t \<and> 0 < inFlight t \<and> finished t = finished t"
proof -
  obtain t where t: "handle demo_config 0 (LoadFailed 0) demo_sent = Inr t" "\<not> interrupt_query t"
    using demo_sent(5) by (simp add: handle_def)
  from failed_request_never_finishes [OF demo_reach _ t(1) replies.none [of "{}"] t(2)] t(1) demo_sent(2)
  show ?thesis by simp
qed

definition demo_config2 :: config where
  "demo_config2 = demo_config\<lparr>trees_info := [Some 0]\<rparr>"

lemma root_callbacks_witness:
  "\<exists>s' u. triggerFrustum demo_config2 0 0 demo_start = Inr s' \<and>
     deliver demo_config2 (RootCont 0) 0 s' = Inr u \<and> override_color (cells u 0) = [1, 0, 0]"
proof -
  have "\<exists>s'. triggerFrustum demo_config2 0 0 demo_start = Inr s'"
    by (simp add: demo_config2_def demo_defs)
  then obtain s' where s': "triggerFrustum demo_config2 0 0 demo_start = Inr s'" ..
  from root_callbacks_share [OF this, of "[]" 0 0] s' show ?thesis
    by (simp add: demo_sent) (simp add: demo_config2_def demo_config_def)
qed

lemma removed_tree_witness: "\<exists>e. handle demo_config 200 (Loaded 0 (Some [0])) demo_sent = Inl e"
proof -
  let ?s = "demo_start\<lparr>cameraMatrix := [], g_m := 1, last_trigger := 0\<rparr>"
  have "triggerFrustum demo_config 0 0 ?s = Inr demo_sent"
    using demo_sent(1) by (simp add: handle_def getFrustum_def)
  from removed_tree_fails [OF this, of "[Some 0]" 0] show ?thesis
    using demo_sent by simp
qed

text \<open>A cell with one visible child in the cache, about to be processed by a reply.\<close>

definition demo_looping :: querier where
  "demo_looping =
     demo_start\<lparr>cells := \<lambda>_. demo_cell\<lparr>inside_frustum := 1\<rparr>, queue := [0], corrected_g_m_sq := 0,
       cameraMatrix := replicate 16 0, cell_count := 0,
       cell_cache := the (LRUCache_put ''t/f10'' 1 (LRUCache_new 10))\<rparr>"

lemma demo_looping: "looping demo_config 0 0 demo_looping"
proof -
  have "cached_children demo_looping 0 0"
    unfolding cached_children_def
  proof (intro exI [of _ "[(''t/f10'', 1)]"] conjI)
    show "lru_rel (cell_cache demo_looping) [(''t/f10'', 1)]"
      using LRUCache_put_rel [OF LRUCache_new_rel [of 10], of "''t/f10''" "1 :: nat"]
      by (auto simp: demo_looping_def lru_insert_def Object_prototype_names_def LRUCache_new_def)
    have "child_id (cells demo_looping 0) 0 = ''t/f10''"
      by (simp add: demo_looping_def demo_cell_def Cell_new_def Let_def child_id_def) code_simp
    then show "child_id (cells demo_looping 0) 0 \<in> dom (map_of [(''t/f10'', 1)])" by simp
  qed simp
  moreover have "\<not> Fin (1 / 4096) \<le> Fin 0 * x" for x
    by (cases x) (simp_all add: inf_of_def)
  ultimately show ?thesis
    by (simp add: looping_def demo_looping_def demo_start_def FrustumQuerier_new_def expands_def visible_def
        Cell_isLeaf_def Cell_hasChild_iff demo_cell_def Cell_new_def Let_def unit_root_def NodeGeometry_def)
qed


end
