(* ===== verification/VelocityProfiles.thy ===== *)
theory VelocityProfiles
  imports Vectors
begin

text \<open>
  The velocity profiles that move the camera (\<open>js/velocityprofile_*.js\<close>): a position as a function of
  time, built so that the velocity starts and ends at zero. Each profile is the record of the fields of
  its object; the constructor, \<open>setProfileDuration\<close>, \<open>getPos\<close> and \<open>getVel\<close> are its operations. A method
  that a prototype does not have, and a failed \<open>assert\<close>, are exceptions (\<open>None\<close>).

  The locale \<open>velocity_profile\<close> is what the camera relies on: the profile starts at the start, has
  arrived when its duration is over, and a change of the duration keeps both.
\<close>

section \<open>The trapezoidal profile\<close>

definition sign :: "jsnum \<Rightarrow> jsnum" where
  "sign v = (if v < 0 then Fin (-1) else 1)"

record trap =
  maxvel :: jsnum
  maxacc :: jsnum
  startpos :: jsnum
  endpos :: jsnum
  time1 :: jsnum
  time2 :: jsnum
  duration :: jsnum
  coef_a1 :: jsnum
  coef_a2 :: jsnum
  coef_a3 :: jsnum
  coef_b1 :: jsnum
  coef_b2 :: jsnum
  coef_b3 :: jsnum
  coef_c1 :: jsnum
  coef_c2 :: jsnum
  coef_c3 :: jsnum

text \<open>The end of the first phase, the start of the last phase, and the duration.\<close>

definition trap_times :: "jsnum \<Rightarrow> jsnum \<Rightarrow> jsnum \<Rightarrow> jsnum \<Rightarrow> jsnum \<times> jsnum \<times> jsnum" where
  "trap_times pos1 pos2 mv ma =
     (let t1 = mv / ma;
          s = sign (pos2 - pos1);
          deltax1 = s * ma * t1 * t1 / 2;
          deltaT = (pos2 - pos1 - 2 * deltax1) / (s * mv)
      in if deltaT > 0 then (let d = 2 * t1 + deltaT in (t1, d - t1, d))
         else (let t1 = Math_sqrt ((pos2 - pos1) / s / ma) in (t1, t1, t1 * 2)))"

definition VelocityProfileTrap :: "jsnum \<Rightarrow> jsnum \<Rightarrow> jsnum \<Rightarrow> jsnum \<Rightarrow> trap" where
  "VelocityProfileTrap pos1 pos2 mv ma =
     (let s = sign (pos2 - pos1);
          (t1, t2, d) = trap_times pos1 pos2 mv ma;
          a3 = s * ma / 2; a2 = 0; a1 = pos1;
          b3 = 0;
          b2 = a2 + 2 * a3 * t1 - 2 * b3 * t1;
          b1 = a1 + t1 * (a2 + a3 * t1) - t1 * (b2 + t1 * b3);
          c3 = - s * ma / 2;
          c2 = b2 + 2 * b3 * t2 - 2 * c3 * t2;
          c1 = b1 + t2 * (b2 + b3 * t2) - t2 * (c2 + t2 * c3)
      in \<lparr>maxvel = mv, maxacc = ma, startpos = pos1, endpos = pos2, time1 = t1, time2 = t2, duration = d,
          coef_a1 = a1, coef_a2 = a2, coef_a3 = a3, coef_b1 = b1, coef_b2 = b2, coef_b3 = b3,
          coef_c1 = c1, coef_c2 = c2, coef_c3 = c3\<rparr>)"

definition trap_setProfileDuration :: "jsnum \<Rightarrow> trap \<Rightarrow> trap" where
  "trap_setProfileDuration newduration p =
     (if js_eq newduration (duration p) then p
      else
        (let factor = duration p / newduration
         in p\<lparr>coef_a2 := coef_a2 p * factor, coef_a3 := coef_a3 p * (factor * factor),
              coef_b2 := coef_b2 p * factor, coef_b3 := coef_b3 p * (factor * factor),
              coef_c2 := coef_c2 p * factor, coef_c3 := coef_c3 p * (factor * factor),
              duration := newduration, time1 := time1 p / factor, time2 := time2 p / factor\<rparr>))"

definition trap_getPos :: "trap \<Rightarrow> jsnum \<Rightarrow> jsnum" where
  "trap_getPos p t =
     (if t < 0 then startpos p
      else if t < time1 p then coef_a1 p + t * (coef_a2 p + coef_a3 p * t)
      else if t < time2 p then coef_b1 p + t * (coef_b2 p + coef_b3 p * t)
      else if t \<le> duration p then coef_c1 p + t * (coef_c2 p + coef_c3 p * t)
      else endpos p)"

definition trap_getVel :: "trap \<Rightarrow> jsnum \<Rightarrow> jsnum" where
  "trap_getVel p t =
     (if t < 0 then 0
      else if t < time1 p then coef_a2 p + 2 * coef_a3 p * t
      else if t < time2 p then coef_b2 p + 2 * coef_b3 p * t
      else if t \<le> duration p then coef_c2 p + 2 * coef_c3 p * t
      else 0)"

section \<open>The trapezoidal profile of a vector\<close>

record trap3d =
  axis0 :: trap
  axis1 :: trap
  axis2 :: trap
  duration3d :: jsnum

definition trap3d_setProfileDuration :: "jsnum \<Rightarrow> trap3d \<Rightarrow> trap3d" where
  "trap3d_setProfileDuration newduration p =
     p\<lparr>axis0 := trap_setProfileDuration newduration (axis0 p),
       axis1 := trap_setProfileDuration newduration (axis1 p),
       axis2 := trap_setProfileDuration newduration (axis2 p),
       duration3d := newduration\<rparr>"

definition VelocityProfileTrap3D :: "farray \<Rightarrow> farray \<Rightarrow> jsnum \<Rightarrow> jsnum \<Rightarrow> trap3d" where
  "VelocityProfileTrap3D pos1 pos2 mv ma =
     (let p0 = VelocityProfileTrap (idx pos1 0) (idx pos2 0) mv ma;
          p1 = VelocityProfileTrap (idx pos1 1) (idx pos2 1) mv ma;
          p2 = VelocityProfileTrap (idx pos1 2) (idx pos2 2) mv ma;
          d = Math_max (Math_max (duration p0) (duration p1)) (duration p2)
      in \<lparr>axis0 = trap_setProfileDuration d p0, axis1 = trap_setProfileDuration d p1,
          axis2 = trap_setProfileDuration d p2, duration3d = d\<rparr>)"

definition trap3d_getPos :: "(jsnum \<Rightarrow> jsnum) \<Rightarrow> trap3d \<Rightarrow> jsnum \<Rightarrow> farray" where
  "trap3d_getPos st p t =
     [st (trap_getPos (axis0 p) t), st (trap_getPos (axis1 p) t), st (trap_getPos (axis2 p) t)]"

definition trap3d_getVel :: "(jsnum \<Rightarrow> jsnum) \<Rightarrow> trap3d \<Rightarrow> jsnum \<Rightarrow> farray" where
  "trap3d_getVel st p t =
     [st (trap_getVel (axis0 p) t), st (trap_getVel (axis1 p) t), st (trap_getVel (axis2 p) t)]"

section \<open>The cubic profiles\<close>

definition generatePowers :: "nat \<Rightarrow> jsnum \<Rightarrow> jsnum list" where
  "generatePowers n x = foldl (\<lambda>powers i. powers @ [idx powers (i - 1) * x]) [1] [1..<n + 1]"

record cubic_profile =
  cpos1 :: jsnum
  cpos2 :: jsnum
  cvel1 :: jsnum
  cvel2 :: jsnum
  cduration :: jsnum
  coefficients :: "jsnum list"

definition getCubicSplineCoefficients :: "jsnum \<Rightarrow> jsnum \<Rightarrow> jsnum \<Rightarrow> jsnum \<Rightarrow> jsnum \<Rightarrow> jsnum list" where
  "getCubicSplineCoefficients pos1 pos2 vel1 vel2 t =
     (if js_eq t 0 then [pos2, vel2, 0, 0]
      else
        (let T = generatePowers 3 t
         in [pos1, vel1,
             (Fin (-3) * pos1 + 3 * pos2 - 2 * vel1 * idx T 1 - vel2 * idx T 1) / idx T 2,
             (2 * pos1 - 2 * pos2 + vel1 * idx T 1 + vel2 * idx T 1) / idx T 3]))"

definition VelocityProfileCubic :: "jsnum \<Rightarrow> jsnum \<Rightarrow> jsnum \<Rightarrow> cubic_profile" where
  "VelocityProfileCubic pos1 pos2 d =
     \<lparr>cpos1 = pos1, cpos2 = pos2, cvel1 = 0, cvel2 = 0, cduration = d,
      coefficients = getCubicSplineCoefficients pos1 pos2 0 0 d\<rparr>"

definition cubic_getVel :: "cubic_profile \<Rightarrow> jsnum \<Rightarrow> jsnum" where
  "cubic_getVel p t =
     (let T = generatePowers 3 t
      in idx T 0 * idx (coefficients p) 1 + 2 * idx T 1 * idx (coefficients p) 2
         + 3 * idx T 2 * idx (coefficients p) 3)"

definition cubic_setProfileDuration :: "jsnum \<Rightarrow> cubic_profile \<Rightarrow> cubic_profile" where
  "cubic_setProfileDuration d p =
     p\<lparr>cduration := d,
       coefficients := getCubicSplineCoefficients (cpos1 p) (cpos2 p) (cvel1 p) (cvel2 p) d\<rparr>"

record cubic3d =
  cubic0 :: cubic_profile
  cubic1 :: cubic_profile
  cubic2 :: cubic_profile
  cduration3d :: jsnum

definition VelocityProfileCubic3D :: "farray \<Rightarrow> farray \<Rightarrow> jsnum \<Rightarrow> cubic3d" where
  "VelocityProfileCubic3D pos1 pos2 d =
     \<lparr>cubic0 = VelocityProfileCubic (idx pos1 0) (idx pos2 0) d,
      cubic1 = VelocityProfileCubic (idx pos1 1) (idx pos2 1) d,
      cubic2 = VelocityProfileCubic (idx pos1 2) (idx pos2 2) d, cduration3d = d\<rparr>"

definition cubic3d_setProfileDuration :: "jsnum \<Rightarrow> cubic3d \<Rightarrow> cubic3d" where
  "cubic3d_setProfileDuration d p =
     p\<lparr>cubic0 := cubic_setProfileDuration d (cubic0 p), cubic1 := cubic_setProfileDuration d (cubic1 p),
       cubic2 := cubic_setProfileDuration d (cubic2 p), cduration3d := d\<rparr>"

definition cubic3d_getVel :: "(jsnum \<Rightarrow> jsnum) \<Rightarrow> cubic3d \<Rightarrow> jsnum \<Rightarrow> farray" where
  "cubic3d_getVel st p t =
     [st (cubic_getVel (cubic0 p) t), st (cubic_getVel (cubic1 p) t), st (cubic_getVel (cubic2 p) t)]"

record double_cubic =
  dist1 :: jsnum
  dist2 :: jsnum
  first_cubic :: cubic_profile
  second_cubic :: cubic_profile
  dcduration :: jsnum

definition VelocityProfileDoubleCubic :: "jsnum \<Rightarrow> jsnum \<Rightarrow> jsnum \<Rightarrow> jsnum \<Rightarrow> double_cubic" where
  "VelocityProfileDoubleCubic pos1 pos2 pos3 d =
     (let d1 = Math_abs (pos1 - pos2); d2 = Math_abs (pos2 - pos3)
      in \<lparr>dist1 = d1, dist2 = d2, first_cubic = VelocityProfileCubic pos1 pos2 (d * d1 / (d1 + d2)),
          second_cubic = VelocityProfileCubic pos2 pos3 (d * d2 / (d1 + d2)), dcduration = d\<rparr>)"

definition double_cubic_setProfileDuration :: "jsnum \<Rightarrow> double_cubic \<Rightarrow> double_cubic" where
  "double_cubic_setProfileDuration d p =
     p\<lparr>first_cubic := cubic_setProfileDuration (d * dist1 p / (dist1 p + dist2 p)) (first_cubic p),
       second_cubic := cubic_setProfileDuration (d * dist2 p / (dist1 p + dist2 p)) (second_cubic p),
       dcduration := d\<rparr>"

definition double_cubic_getVel :: "double_cubic \<Rightarrow> jsnum \<Rightarrow> jsnum" where
  "double_cubic_getVel p t =
     (if t < dcduration p * dist1 p / (dist1 p + dist2 p) then cubic_getVel (first_cubic p) t
      else cubic_getVel (second_cubic p) t)"

text \<open>\<open>VelocityProfileCubic\<close> has no method \<open>getPos\<close>, so the calls of it throw.\<close>

definition cubic3d_getPos :: "cubic3d \<Rightarrow> jsnum \<Rightarrow> farray option" where
  "cubic3d_getPos p t = None"

definition double_cubic_getPos :: "double_cubic \<Rightarrow> jsnum \<Rightarrow> jsnum option" where
  "double_cubic_getPos p t = None"

section \<open>The slowdown profile\<close>

record slowdown =
  sl_startpos :: jsnum
  sl_startvel :: jsnum
  sl_maxacc :: jsnum
  sl_sign :: jsnum
  sl_duration :: jsnum
  sl_endpos :: jsnum

definition VelocityProfileSlowdown :: "jsnum \<Rightarrow> jsnum \<Rightarrow> jsnum \<Rightarrow> slowdown" where
  "VelocityProfileSlowdown pos1 vel1 ma =
     (let s = sign vel1; d = s * vel1 / ma
      in \<lparr>sl_startpos = pos1, sl_startvel = vel1, sl_maxacc = ma, sl_sign = s, sl_duration = d,
          sl_endpos = pos1 + vel1 * d - s * d * d * ma / 2\<rparr>)"

definition slowdown_setProfileDuration :: "jsnum \<Rightarrow> slowdown \<Rightarrow> slowdown option" where
  "slowdown_setProfileDuration newduration p =
     (let factor = sl_duration p / newduration
      in if factor \<le> 1 then Some (p\<lparr>sl_maxacc := sl_maxacc p * factor, sl_duration := newduration\<rparr>)
         else None)"

definition slowdown_getPos :: "slowdown \<Rightarrow> jsnum \<Rightarrow> jsnum" where
  "slowdown_getPos p t =
     (if t < 0 then sl_startpos p
      else if t < sl_duration p then
        sl_startpos p + sl_startvel p * t - sl_sign p * t * t * sl_maxacc p / 2
      else sl_endpos p)"

definition slowdown_getVel :: "slowdown \<Rightarrow> jsnum \<Rightarrow> jsnum" where
  "slowdown_getVel p t =
     (if t < 0 then sl_startvel p
      else if t < sl_duration p then sl_startvel p - sl_sign p * t * sl_maxacc p
      else 0)"

section \<open>The mapped profiles\<close>

text \<open>
  A profile of length zero has neither \<open>dir\<close> nor \<open>profile\<close>; its other operations do not read them, so
  the record has the values they would get.
\<close>

record mapped =
  mapping :: "jsnum \<Rightarrow> jsnum"
  mlength :: jsnum
  moffset :: jsnum
  mdir :: jsnum
  mprofile :: trap
  mduration :: jsnum

definition VelocityProfileMapped :: "jsnum \<Rightarrow> jsnum \<Rightarrow> (jsnum \<Rightarrow> jsnum) \<Rightarrow> jsnum \<Rightarrow> jsnum \<Rightarrow> mapped" where
  "VelocityProfileMapped pos1 pos2 m mv ma =
     (let len = Math_abs (pos2 - pos1); p = VelocityProfileTrap 0 1 mv ma
      in \<lparr>mapping = m, mlength = len, moffset = pos1, mdir = sign (pos2 - pos1), mprofile = p,
          mduration = (if js_eq len 0 then 0 else duration p)\<rparr>)"

definition mapped_setProfileDuration :: "jsnum \<Rightarrow> mapped \<Rightarrow> mapped" where
  "mapped_setProfileDuration newduration p =
     (let p = p\<lparr>mduration := newduration\<rparr>
      in if \<not> js_eq (mlength p) 0
         then p\<lparr>mprofile := trap_setProfileDuration newduration (mprofile p)\<rparr> else p)"

definition mapped_getPos :: "mapped \<Rightarrow> jsnum \<Rightarrow> jsnum" where
  "mapped_getPos p t =
     (if js_eq (mlength p) 0 then moffset p
      else (let v = trap_getPos (mprofile p) t
            in mapping p v * mlength p * mdir p + moffset p))"

record mapped3d =
  mlength3d :: jsnum
  mdir3d :: farray
  moffset3d :: farray
  mprofile3d :: mapped
  mduration3d :: jsnum

definition VelocityProfileMapped3D ::
    "(jsnum \<Rightarrow> jsnum) \<Rightarrow> farray \<Rightarrow> farray \<Rightarrow> (jsnum \<Rightarrow> jsnum) \<Rightarrow> jsnum \<Rightarrow> jsnum \<Rightarrow> mapped3d" where
  "VelocityProfileMapped3D st pos1 pos2 m mv ma =
     (let len = V3_length (V3_sub st pos2 pos1);
          p = VelocityProfileMapped 0 len m mv ma
      in \<lparr>mlength3d = len, mdir3d = V3_scale st (V3_sub st pos2 pos1) (1 / len),
          moffset3d = V3_clone st pos1, mprofile3d = p, mduration3d = mduration p\<rparr>)"

definition mapped3d_setProfileDuration :: "jsnum \<Rightarrow> mapped3d \<Rightarrow> mapped3d" where
  "mapped3d_setProfileDuration newduration p =
     p\<lparr>mduration3d := newduration, mprofile3d := mapped_setProfileDuration newduration (mprofile3d p)\<rparr>"

definition mapped3d_getPos :: "(jsnum \<Rightarrow> jsnum) \<Rightarrow> mapped3d \<Rightarrow> jsnum \<Rightarrow> farray" where
  "mapped3d_getPos st p t =
     (if js_eq (mlength3d p) 0 then moffset3d p
      else (let m = mapped_getPos (mprofile3d p) t
            in V3_add st (V3_scale st (mdir3d p) m) (moffset3d p)))"

record mapped_double =
  first_mapped :: mapped
  second_mapped :: mapped
  mdduration :: jsnum

definition VelocityProfileMappedDouble ::
    "jsnum \<Rightarrow> jsnum \<Rightarrow> jsnum \<Rightarrow> (jsnum \<Rightarrow> jsnum) \<Rightarrow> (jsnum \<Rightarrow> jsnum) \<Rightarrow> jsnum \<Rightarrow> jsnum \<Rightarrow> mapped_double" where
  "VelocityProfileMappedDouble pos1 pos2 pos3 m1 m2 mv ma =
     (let p0 = VelocityProfileMapped pos1 pos2 m1 mv ma;
          p1 = VelocityProfileMapped pos2 pos3 m2 mv ma
      in \<lparr>first_mapped = p0, second_mapped = p1, mdduration = mduration p0 + mduration p1\<rparr>)"

definition mapped_double_setProfileDuration :: "jsnum \<Rightarrow> mapped_double \<Rightarrow> mapped_double" where
  "mapped_double_setProfileDuration newduration p =
     (let factor = newduration / mdduration p
      in p\<lparr>first_mapped := mapped_setProfileDuration (mduration (first_mapped p) * factor) (first_mapped p),
           second_mapped := mapped_setProfileDuration (mduration (second_mapped p) * factor) (second_mapped p),
           mdduration := newduration\<rparr>)"

definition mapped_double_getPos :: "mapped_double \<Rightarrow> jsnum \<Rightarrow> jsnum" where
  "mapped_double_getPos p t =
     (if t < mduration (first_mapped p) then mapped_getPos (first_mapped p) t
      else mapped_getPos (second_mapped p) (t - mduration (first_mapped p)))"

text \<open>\<open>VelocityProfileMapped\<close> has no method \<open>getVel\<close>.\<close>

definition mapped_double_getVel :: "mapped_double \<Rightarrow> jsnum \<Rightarrow> jsnum option" where
  "mapped_double_getVel p t = None"

end
