(* ===== verification/ProfileMotion.thy ===== *)
theory ProfileMotion
  imports VelocityProfiles
begin

text \<open>
  What the velocity profiles (\<open>VelocityProfiles\<close>) promise: the trapezoidal profile on finite numbers is a
  continuously differentiable motion from the start to the end with \<open>getVel\<close> as its derivative, at any
  duration it is stretched to; the mapped profiles inherit its ends. The contract
  \<open>velocity_profile\<close> states what the camera needs of a profile.
\<close>

section \<open>Clipped squares\<close>

definition ramp :: "real \<Rightarrow> real" where
  "ramp u = max 0 u"

lemma ramp_simps [simp]: "u \<le> 0 \<Longrightarrow> ramp u = 0" "0 \<le> u \<Longrightarrow> ramp u = u"
  by (simp_all add: ramp_def)

lemma ramp_square_deriv: "((\<lambda>u. (ramp u)\<^sup>2) has_real_derivative 2 * ramp x) (at x)"
proof -
  consider "x < 0" | "x = 0" | "x > 0" by linarith
  then show ?thesis
  proof cases
    case 1
    have "\<forall>\<^sub>F u in nhds x. (ramp u)\<^sup>2 = 0"
      by (rule eventually_mono [OF eventually_nhds_in_open [of "{..<0}"]]) (use 1 in auto)
    then have "((\<lambda>u. (ramp u)\<^sup>2) has_real_derivative 0) (at x) \<longleftrightarrow> ((\<lambda>u. 0 :: real) has_real_derivative 0) (at x)"
      by (intro DERIV_cong_ev) auto
    with 1 show ?thesis by simp
  next
    case 2
    have "(ramp h)\<^sup>2 / h = ramp h" for h
      by (cases "h \<le> 0") (simp_all add: power2_eq_square)
    moreover have "(ramp \<longlongrightarrow> ramp 0) (at 0)"
      unfolding ramp_def by (intro tendsto_intros)
    ultimately have "((\<lambda>h. (ramp h)\<^sup>2 / h) \<longlongrightarrow> 0) (at 0)" by simp
    with 2 show ?thesis by (simp add: DERIV_def)
  next
    case 3
    have "\<forall>\<^sub>F u in nhds x. (ramp u)\<^sup>2 = u\<^sup>2"
      by (rule eventually_mono [OF eventually_nhds_in_open [of "{0<..}"]]) (use 3 in auto)
    then have "((\<lambda>u. (ramp u)\<^sup>2) has_real_derivative 2 * x) (at x) \<longleftrightarrow> ((\<lambda>u. u\<^sup>2) has_real_derivative 2 * x) (at x)"
      by (intro DERIV_cong_ev) auto
    moreover have "((\<lambda>u. u\<^sup>2) has_real_derivative 2 * x) (at x)"
      by (auto intro!: derivative_eq_intros)
    ultimately show ?thesis using 3 by simp
  qed
qed

lemma ramp_square_shift: "((\<lambda>u. (ramp (u - c))\<^sup>2) has_real_derivative 2 * ramp (x - c)) (at x)"
  using DERIV_shift [of "\<lambda>u. (ramp u)\<^sup>2" _ x "- c"] ramp_square_deriv [of "x - c"] by simp

section \<open>The trapezoidal profile as a motion\<close>

text \<open>The distance and the speed of a unit acceleration of two, with phases \<open>t1\<close>, \<open>t2\<close>, \<open>t1 + t2\<close>.\<close>

definition travelled :: "real \<Rightarrow> real \<Rightarrow> real \<Rightarrow> real" where
  "travelled t1 t2 t = (ramp t)\<^sup>2 - (ramp (t - t1))\<^sup>2 - (ramp (t - t2))\<^sup>2 + (ramp (t - (t1 + t2)))\<^sup>2"

definition speed :: "real \<Rightarrow> real \<Rightarrow> real \<Rightarrow> real" where
  "speed t1 t2 t = 2 * (ramp t - ramp (t - t1) - ramp (t - t2) + ramp (t - (t1 + t2)))"

lemma travelled_deriv: "(travelled t1 t2 has_real_derivative speed t1 t2 t) (at t)"
  unfolding travelled_def speed_def
  by (rule DERIV_cong [OF DERIV_add [OF DERIV_diff [OF DERIV_diff [OF ramp_square_deriv
      ramp_square_shift] ramp_square_shift] ramp_square_shift]]) simp

lemma travelled_phases:
  assumes "0 \<le> t1" "t1 \<le> t2"
  shows "t \<le> 0 \<Longrightarrow> travelled t1 t2 t = 0" "0 \<le> t \<Longrightarrow> t \<le> t1 \<Longrightarrow> travelled t1 t2 t = t\<^sup>2"
    "t1 \<le> t \<Longrightarrow> t \<le> t2 \<Longrightarrow> travelled t1 t2 t = 2 * t1 * t - t1\<^sup>2"
    "t2 \<le> t \<Longrightarrow> t \<le> t1 + t2 \<Longrightarrow> travelled t1 t2 t = 2 * t1 * t2 - (t1 + t2 - t)\<^sup>2"
    "t1 + t2 \<le> t \<Longrightarrow> travelled t1 t2 t = 2 * t1 * t2"
  using assms by (simp_all add: travelled_def) (simp_all add: power2_eq_square algebra_simps)

lemma speed_phases:
  assumes "0 \<le> t1" "t1 \<le> t2"
  shows "t \<le> 0 \<Longrightarrow> speed t1 t2 t = 0" "0 \<le> t \<Longrightarrow> t \<le> t1 \<Longrightarrow> speed t1 t2 t = 2 * t"
    "t1 \<le> t \<Longrightarrow> t \<le> t2 \<Longrightarrow> speed t1 t2 t = 2 * t1"
    "t2 \<le> t \<Longrightarrow> t \<le> t1 + t2 \<Longrightarrow> speed t1 t2 t = 2 * (t1 + t2 - t)"
    "t1 + t2 \<le> t \<Longrightarrow> speed t1 t2 t = 0"
  using assms by (simp_all add: speed_def)

lemma speed_bounds:
  assumes "0 \<le> t1" "t1 \<le> t2"
  shows "0 \<le> speed t1 t2 t" "speed t1 t2 t \<le> 2 * t1"
proof -
  consider "t \<le> 0" | "0 \<le> t" "t \<le> t1" | "t1 \<le> t" "t \<le> t2" | "t2 \<le> t" "t \<le> t1 + t2" | "t1 + t2 \<le> t"
    by linarith
  then have "0 \<le> speed t1 t2 t \<and> speed t1 t2 t \<le> 2 * t1"
    by cases (use assms in \<open>simp_all add: speed_phases\<close>)
  then show "0 \<le> speed t1 t2 t" "speed t1 t2 t \<le> 2 * t1" by simp_all
qed

text \<open>The motion is symmetric in time, and what is left of it shortly before the end is small.\<close>

lemma ramp_reflect: "(ramp u)\<^sup>2 = u\<^sup>2 - (ramp (- u))\<^sup>2"
  by (cases "0 \<le> u") simp_all

lemma travelled_reflect: "travelled t1 t2 (t1 + t2 - r) = 2 * t1 * t2 - travelled t1 t2 r"
proof -
  have "(ramp (t1 + t2 - r))\<^sup>2 = (t1 + t2 - r)\<^sup>2 - (ramp (r - (t1 + t2)))\<^sup>2"
    "(ramp (t2 - r))\<^sup>2 = (t2 - r)\<^sup>2 - (ramp (r - t2))\<^sup>2" "(ramp (t1 - r))\<^sup>2 = (t1 - r)\<^sup>2 - (ramp (r - t1))\<^sup>2"
    "(ramp (- r))\<^sup>2 = r\<^sup>2 - (ramp r)\<^sup>2"
    using ramp_reflect [of "t1 + t2 - r"] ramp_reflect [of "t2 - r"] ramp_reflect [of "t1 - r"] ramp_reflect [of "- r"]
    by simp_all
  moreover have "t1 + t2 - r - t1 = t2 - r" "t1 + t2 - r - t2 = t1 - r" "t1 + t2 - r - (t1 + t2) = - r" by simp_all
  ultimately have "travelled t1 t2 (t1 + t2 - r) =
      (t1 + t2 - r)\<^sup>2 - (t2 - r)\<^sup>2 - (t1 - r)\<^sup>2 + r\<^sup>2 - travelled t1 t2 r"
    unfolding travelled_def by simp
  also have "(t1 + t2 - r)\<^sup>2 - (t2 - r)\<^sup>2 - (t1 - r)\<^sup>2 + r\<^sup>2 = 2 * t1 * t2" by algebra
  finally show ?thesis .
qed

lemma ramp_mono: "u \<le> w \<Longrightarrow> (ramp u)\<^sup>2 \<le> (ramp w)\<^sup>2"
  by (intro power_mono) (simp_all add: ramp_def)

lemma travelled_le:
  assumes "0 \<le> t1" "0 \<le> r"
  shows "travelled t1 t2 r \<le> r\<^sup>2"
proof -
  have "(ramp (r - (t1 + t2)))\<^sup>2 \<le> (ramp (r - t2))\<^sup>2" using assms(1) by (intro ramp_mono) simp
  moreover have "0 \<le> (ramp (r - t1))\<^sup>2" "(ramp r)\<^sup>2 = r\<^sup>2" using assms(2) by simp_all
  ultimately show ?thesis unfolding travelled_def by linarith
qed

lemma travelled_pos:
  assumes "0 < t1" "t1 \<le> t2" "0 < r"
  shows "0 < travelled t1 t2 r"
proof -
  note P = travelled_phases [OF less_imp_le [OF assms(1)] assms(2), of r]
  consider "r \<le> t1" | "t1 \<le> r" "r \<le> t2" | "t2 \<le> r" "r \<le> t1 + t2" | "t1 + t2 \<le> r" by linarith
  then show ?thesis
  proof cases
    case 2
    have "t1 * t1 \<le> t1 * r" using assms(1) 2(1) by simp
    moreover have "0 < t1 * t1" using assms(1) by simp
    ultimately show ?thesis using P(3) 2 by (simp add: power2_eq_square)
  next
    case 3
    have "(t1 + t2 - r)\<^sup>2 \<le> t1\<^sup>2" using 3 by (intro power_mono) simp_all
    moreover have "t1 * t1 \<le> t1 * t2" "0 < t1 * t2" using assms by simp_all
    ultimately show ?thesis using P(4) 3 by (simp add: power2_eq_square)
  qed (use assms P in simp_all)
qed

text \<open>The fields of a profile with acceleration \<open>2 * s * k\<close>.\<close>

definition trap_shape :: "real \<Rightarrow> real \<Rightarrow> real \<Rightarrow> real \<Rightarrow> trap \<Rightarrow> bool" where
  "trap_shape x0 k t1 t2 p \<longleftrightarrow>
     0 < t1 \<and> t1 \<le> t2 \<and> startpos p = Fin x0 \<and> endpos p = Fin (x0 + k * (2 * t1 * t2)) \<and>
     time1 p = Fin t1 \<and> time2 p = Fin t2 \<and> duration p = Fin (t1 + t2) \<and>
     coef_a1 p = Fin x0 \<and> coef_a2 p = Fin 0 \<and> coef_a3 p = Fin k \<and>
     coef_b1 p = Fin (x0 - k * t1\<^sup>2) \<and> coef_b2 p = Fin (2 * k * t1) \<and> coef_b3 p = Fin 0 \<and>
     coef_c1 p = Fin (x0 + k * (2 * t1 * t2 - (t1 + t2)\<^sup>2)) \<and> coef_c2 p = Fin (2 * k * (t1 + t2)) \<and>
     coef_c3 p = Fin (- k)"

lemma phase_terms:
  "x0 + k * (2 * t1 * t2 - (t1 + t2 - t)\<^sup>2) =
     x0 + k * (2 * t1 * t2 - (t1 + t2)\<^sup>2) + t * (2 * k * (t1 + t2) + - k * (t :: real))"
  "x0 + k * (2 * t1 * t - t1\<^sup>2) = x0 - k * t1\<^sup>2 + t * (2 * k * t1)"
  "x0 + k * t\<^sup>2 = x0 + t * (k * t)"
  by algebra+

lemma shape_getPos:
  assumes "trap_shape x0 k t1 t2 p"
  shows "trap_getPos p (Fin t) = Fin (x0 + k * travelled t1 t2 t)"
proof -
  have T: "0 \<le> t1" "t1 \<le> t2" using assms by (simp_all add: trap_shape_def)
  note P = travelled_phases [OF T, of t]
  consider "t < 0" | "0 \<le> t" "t < t1" | "t1 \<le> t" "t < t2" | "t2 \<le> t" "t \<le> t1 + t2" | "t1 + t2 < t"
    by linarith
  then show ?thesis
    by cases (use assms T P in \<open>simp_all add: trap_getPos_def trap_shape_def phase_terms\<close>)
qed

lemma phase_speeds:
  "k * (2 * t) = 2 * k * t" "k * (2 * t1 + 2 * t2 - 2 * t) = 2 * k * (t1 + t2) - 2 * k * (t :: real)"
  by algebra+

lemma shape_getVel:
  assumes "trap_shape x0 k t1 t2 p"
  shows "trap_getVel p (Fin t) = Fin (k * speed t1 t2 t)"
proof -
  have T: "0 \<le> t1" "t1 \<le> t2" using assms by (simp_all add: trap_shape_def)
  note P = speed_phases [OF T, of t]
  consider "t < 0" | "0 \<le> t" "t < t1" | "t1 \<le> t" "t < t2" | "t2 \<le> t" "t \<le> t1 + t2" | "t1 + t2 < t"
    by linarith
  then show ?thesis
    by cases (use assms T P in \<open>simp_all add: trap_getVel_def trap_shape_def phase_speeds\<close>)
qed

lemma shape_stretch:
  assumes "trap_shape x0 k t1 t2 p" "0 < d"
  defines "f \<equiv> (t1 + t2) / d"
  shows "trap_shape x0 (k * f\<^sup>2) (t1 / f) (t2 / f) (trap_setProfileDuration (Fin d) p)"
proof -
  have T: "0 < t1" "t1 \<le> t2" "0 < f" "t1 + t2 = f * d"
    using assms by (auto simp: trap_shape_def f_def)
  then have d: "t1 / f + t2 / f = d" by (simp add: add_divide_distrib [symmetric])
  obtain u1 u2 where u: "t1 / f = u1" "t2 / f = u2" "t1 = f * u1" "t2 = f * u2"
    using T(3) that [of "t1 / f" "t2 / f"] by simp
  have e: "k * f\<^sup>2 * (2 * u1 * u2) = k * (2 * t1 * t2)" "k * f\<^sup>2 * u1\<^sup>2 = k * t1\<^sup>2"
    "k * f\<^sup>2 * (2 * u1 * u2 - (u1 + u2)\<^sup>2) = k * (2 * t1 * t2 - (t1 + t2)\<^sup>2)"
    "2 * (k * f\<^sup>2) * u1 = 2 * k * t1 * f" "2 * (k * f\<^sup>2) * (u1 + u2) = 2 * k * (t1 + t2) * f"
    unfolding u(3,4) by algebra+
  have le: "0 < u1" "u1 \<le> u2" using T u by (auto simp: zero_less_mult_iff)
  have fields: "startpos p = Fin x0" "coef_a1 p = Fin x0" "coef_a2 p = Fin 0" "coef_a3 p = Fin k" "coef_b3 p = Fin 0"
    "coef_c3 p = Fin (- k)" "time1 p = Fin t1" "time2 p = Fin t2" "duration p = Fin (t1 + t2)"
    "endpos p = Fin (x0 + k * f\<^sup>2 * (2 * u1 * u2))" "coef_b1 p = Fin (x0 - k * f\<^sup>2 * u1\<^sup>2)"
    "coef_c1 p = Fin (x0 + k * f\<^sup>2 * (2 * u1 * u2 - (u1 + u2)\<^sup>2))"
    "coef_b2 p = Fin (2 * k * t1)" "coef_c2 p = Fin (2 * k * (t1 + t2))"
    using assms(1) unfolding trap_shape_def e by simp_all
  show ?thesis
  proof (cases "d = t1 + t2")
    case True
    have "d = f * d" using T(4) True by (rule trans [rotated])
    then have f1: "f = 1" using assms(2) by simp
    show ?thesis using assms(1) True unfolding f1 by (simp add: trap_setProfileDuration_def trap_shape_def)
  next
    case False
    with T(3) assms(2) have "trap_setProfileDuration (Fin d) p =
        p\<lparr>coef_a2 := Fin 0, coef_a3 := Fin (k * f\<^sup>2), coef_b2 := Fin (2 * (k * f\<^sup>2) * u1), coef_b3 := Fin 0,
          coef_c2 := Fin (2 * (k * f\<^sup>2) * (u1 + u2)), coef_c3 := Fin (- (k * f\<^sup>2)), duration := Fin d,
          time1 := Fin u1, time2 := Fin u2\<rparr>"
      unfolding e trap_setProfileDuration_def fields by (simp add: f_def [symmetric] u(1,2) power2_eq_square)
    with le d u(1,2) fields show ?thesis unfolding trap_shape_def by simp
  qed
qed

text \<open>The constructor: the profile saturates at the maximal velocity or turns before it is reached.\<close>

lemma trap_times_real:
  assumes "x0 \<noteq> x1" "0 < v" "0 < a"
  obtains t1 t2 where "trap_times (Fin x0) (Fin x1) (Fin v) (Fin a) = (Fin t1, Fin t2, Fin (t1 + t2))"
    "0 < t1" "t1 \<le> t2" "a * t1 * t2 = \<bar>x1 - x0\<bar>" "a * t1 \<le> v"
proof -
  define s :: real where "s = (if x1 < x0 then -1 else 1)"
  define l where "l = \<bar>x1 - x0\<bar>"
  have s: "sign (Fin x1 - Fin x0) = Fin s" "s * l = x1 - x0" "s * s = 1" "s \<noteq> 0"
    by (simp_all add: s_def l_def sign_def)
  have l: "0 < l" using assms(1) by (simp add: l_def)
  have div: "(x1 - x0) / s = l" using s(3,4) unfolding s(2) [symmetric] by simp
  define w where "w = (x1 - x0 - 2 * (s * a * (v / a) * (v / a) / 2)) / (s * v)"
  have "x1 - x0 - 2 * (s * a * (v / a) * (v / a) / 2) = s * (l - a * (v / a) * (v / a))"
    unfolding s(2) [symmetric] by (simp add: right_diff_distrib)
  then have w: "w = (l - a * (v / a) * (v / a)) / v" using s(4) unfolding w_def by simp
  have mid: "(Fin x1 - Fin x0 - 2 * (Fin s * Fin a * (Fin v / Fin a) * (Fin v / Fin a) / 2)) / (Fin s * Fin v) = Fin w"
    using assms(2,3) s(4) by (simp add: w_def)
  have top: "Math_sqrt ((Fin x1 - Fin x0) / Fin s / Fin a) = Fin (sqrt (l / a))"
    using assms(3) s(4) l by (simp add: div not_less)
  have "Fin v / Fin a = Fin (v / a)" using assms(3) by simp
  then have times: "trap_times (Fin x0) (Fin x1) (Fin v) (Fin a) =
      (if w > 0 then (Fin (v / a), Fin (v / a + w), Fin (2 * (v / a) + w))
       else (Fin (sqrt (l / a)), Fin (sqrt (l / a)), Fin (sqrt (l / a) * 2)))"
    unfolding trap_times_def s(1) Let_def mid top by simp
  show thesis
  proof (cases "w > 0")
    case True
    have "a * (v / a) * (v / a + w) = a * (v / a) * (v / a) + v * w"
      using assms(3) by (simp add: distrib_left)
    also have "v * w = l - a * (v / a) * (v / a)" using w assms(2) by simp
    finally have "a * (v / a) * (v / a + w) = l" by simp
    with True times assms(2,3) show thesis by (intro that [of "v / a" "v / a + w"]) (simp_all add: l_def)
  next
    case False
    have "l - a * (v / a) * (v / a) \<le> 0"
      using False assms(2) unfolding w by (simp add: not_less divide_le_0_iff)
    then have "l / a \<le> (v / a)\<^sup>2" using assms(3) by (simp add: divide_le_eq power2_eq_square)
    then have "sqrt (l / a) \<le> v / a" using assms(2,3) by (intro real_le_lsqrt) simp_all
    then have "a * sqrt (l / a) \<le> v" using assms(3) by (simp add: pos_le_divide_eq mult.commute)
    moreover have "sqrt (l / a) * sqrt (l / a) = l / a" using l assms(3) by simp
    from this have "a * sqrt (l / a) * sqrt (l / a) = l" using assms(3) by (simp only: mult.assoc) simp
    moreover have "0 < sqrt (l / a)" using l assms(3) by simp
    ultimately show thesis using False times
      by (intro that [of "sqrt (l / a)" "sqrt (l / a)"]) (simp_all add: l_def)
  qed
qed

lemma trap_shape_new:
  assumes "x0 \<noteq> x1" "0 < v" "0 < a"
  obtains k t1 t2 where "trap_shape x0 k t1 t2 (VelocityProfileTrap (Fin x0) (Fin x1) (Fin v) (Fin a))"
    "x0 + k * (2 * t1 * t2) = x1" "\<bar>k\<bar> * (2 * t1) \<le> v" "\<bar>k\<bar> = a / 2" "0 \<le> (x1 - x0) * k"
proof -
  obtain t1 t2 where t: "trap_times (Fin x0) (Fin x1) (Fin v) (Fin a) = (Fin t1, Fin t2, Fin (t1 + t2))"
      "0 < t1" "t1 \<le> t2" "a * t1 * t2 = \<bar>x1 - x0\<bar>" "a * t1 \<le> v"
    by (rule trap_times_real [OF assms])
  define s :: real where "s = (if x1 < x0 then -1 else 1)"
  define k where "k = s * a / 2"
  have s: "sign (Fin x1 - Fin x0) = Fin s" "s * \<bar>x1 - x0\<bar> = x1 - x0" "\<bar>s\<bar> = 1"
    by (simp_all add: s_def sign_def)
  have "k * (2 * t1 * t2) = s * (a * t1 * t2)" by (simp add: k_def)
  then have e: "x0 + k * (2 * t1 * t2) = x1" using s(2) unfolding t(4) by simp
  have b: "2 * (s * a / 2) * t1 = 2 * k * t1" "- s * a / 2 = - k" by (simp_all add: k_def)
  have c: "x0 + t1 * (0 + k * t1) - t1 * (2 * k * t1 + t1 * 0) = x0 - k * t1\<^sup>2"
    "2 * k * t1 - 2 * - k * t2 = 2 * k * (t1 + t2)"
    "x0 - k * t1\<^sup>2 + t2 * (2 * k * t1 + 0 * t2) - t2 * (2 * k * (t1 + t2) + t2 * - k) =
      x0 + k * (2 * t1 * t2 - (t1 + t2)\<^sup>2)"
    by algebra+
  have "trap_shape x0 k t1 t2 (VelocityProfileTrap (Fin x0) (Fin x1) (Fin v) (Fin a))"
    using t(2,3) e c unfolding trap_shape_def VelocityProfileTrap_def t(1) s(1) Let_def
    by (simp add: k_def [symmetric] power2_eq_square)
  moreover have "\<bar>k\<bar> = a / 2" using assms(3) s(3) by (simp add: k_def abs_mult)
  moreover from this have "\<bar>k\<bar> * (2 * t1) = a * t1" by simp
  then have "\<bar>k\<bar> * (2 * t1) \<le> v" using t(5) by (simp only:)
  moreover have "0 \<le> (x1 - x0) * k" using assms(3) by (auto simp: k_def s_def mult_nonpos_nonneg)
  ultimately show thesis using that e by blast
qed

text \<open>Shortly before the end of its duration a profile is close to its goal, and not there.\<close>

lemma trap_short:
  assumes "x0 \<noteq> x1" "0 < v" "0 < a" "duration (VelocityProfileTrap (Fin x0) (Fin x1) (Fin v) (Fin a)) = Fin d0"
    "d0 \<le> d" "0 < r"
  defines "p \<equiv> trap_setProfileDuration (Fin d) (VelocityProfileTrap (Fin x0) (Fin x1) (Fin v) (Fin a))"
  shows "\<exists>e. trap_getPos p (Fin (d - r)) = Fin e \<and> e \<noteq> x1 \<and> \<bar>x1 - e\<bar> \<le> a / 2 * r\<^sup>2 \<and>
           min x0 x1 \<le> e \<and> e \<le> max x0 x1"
proof -
  obtain k t1 t2 where k: "trap_shape x0 k t1 t2 (VelocityProfileTrap (Fin x0) (Fin x1) (Fin v) (Fin a))"
      "x0 + k * (2 * t1 * t2) = x1" "\<bar>k\<bar> = a / 2"
    by (rule trap_shape_new [OF assms(1-3)])
  then have t: "0 < t1" "t1 \<le> t2" "d0 = t1 + t2" using assms(4) by (auto simp: trap_shape_def)
  then have d: "0 < d" using assms(5) by linarith
  define f where "f = (t1 + t2) / d"
  have f: "0 < f" "f \<le> 1" using t d assms(5) by (simp_all add: f_def divide_le_eq)
  let ?u1 = "t1 / f" and ?u2 = "t2 / f"
  have s: "trap_shape x0 (k * f\<^sup>2) ?u1 ?u2 p" unfolding f_def p_def by (rule shape_stretch [OF k(1) d])
  have u: "0 < ?u1" "?u1 \<le> ?u2" using t f by (simp_all add: divide_right_mono)
  have "t1 + t2 = f * d" using d by (simp add: f_def)
  then have "?u1 + ?u2 = d" using f(1) by (simp add: add_divide_distrib [symmetric])
  then have refl: "travelled ?u1 ?u2 (d - r) = 2 * ?u1 * ?u2 - travelled ?u1 ?u2 r"
    using travelled_reflect [of ?u1 ?u2 r] by simp
  have goal: "k * f\<^sup>2 * (2 * ?u1 * ?u2) = k * (2 * t1 * t2)" using f(1) by (simp add: power2_eq_square)
  let ?e = "x0 + k * f\<^sup>2 * travelled ?u1 ?u2 (d - r)"
  have e: "x1 - ?e = k * f\<^sup>2 * travelled ?u1 ?u2 r"
    unfolding refl right_diff_distrib goal using k(2) by simp
  have pos: "0 < travelled ?u1 ?u2 r" by (rule travelled_pos [OF u assms(6)])
  have "k \<noteq> 0" using k(3) assms(3) by auto
  then have "x1 - ?e \<noteq> 0" using pos f(1) unfolding e by simp
  moreover have "\<bar>x1 - ?e\<bar> \<le> a / 2 * r\<^sup>2"
  proof -
    have "\<bar>x1 - ?e\<bar> = a / 2 * (f\<^sup>2 * travelled ?u1 ?u2 r)"
      unfolding e using pos k(3) by (simp add: abs_mult)
    also have "f\<^sup>2 * travelled ?u1 ?u2 r \<le> 1 * r\<^sup>2"
      using f pos travelled_le [of ?u1 r ?u2] u(1) assms(6)
      by (intro mult_mono) (simp_all add: power_le_one)
    finally show ?thesis using assms(3) by (simp add: mult_left_mono)
  qed
  moreover have "min x0 x1 \<le> ?e \<and> ?e \<le> max x0 x1"
  proof -
    have "0 \<le> travelled ?u1 ?u2 (d - r)"
      using travelled_pos [OF u, of "d - r"] travelled_phases(1) [of ?u1 ?u2 "d - r"] u
      by (cases "0 < d - r") auto
    then have f0: "0 \<le> f\<^sup>2 * travelled ?u1 ?u2 (d - r)" "0 \<le> f\<^sup>2 * travelled ?u1 ?u2 r" using pos by simp_all
    have x: "?e = x0 + k * (f\<^sup>2 * travelled ?u1 ?u2 (d - r))" "x1 = ?e + k * (f\<^sup>2 * travelled ?u1 ?u2 r)"
      using e by (simp_all add: algebra_simps)
    show ?thesis
    proof (cases "0 \<le> k")
      case True
      with f0 have "x0 \<le> ?e" "?e \<le> x1" using x mult_nonneg_nonneg [OF True f0(1)] mult_nonneg_nonneg [OF True f0(2)]
        by linarith+
      then show ?thesis by simp
    next
      case False
      then have "x1 \<le> ?e" "?e \<le> x0" using x mult_nonpos_nonneg [OF _ f0(1), of k] mult_nonpos_nonneg [OF _ f0(2), of k]
        by linarith+
      then show ?thesis by simp
    qed
  qed
  ultimately show ?thesis using shape_getPos [OF s, of "d - r"] by (intro exI [of _ ?e]) auto
qed

section \<open>The contract of a profile\<close>

text \<open>
  \<open>start\<close> and \<open>goal\<close> are where the profile is before and after its motion; \<open>dur\<close> is its duration.
\<close>

locale velocity_profile =
  fixes getPos :: "'p \<Rightarrow> jsnum \<Rightarrow> 'v" and setDur :: "jsnum \<Rightarrow> 'p \<Rightarrow> 'p" and dur :: "'p \<Rightarrow> jsnum"
    and start :: "'p \<Rightarrow> 'v" and goal :: "'p \<Rightarrow> 'v" and ok :: "'p \<Rightarrow> bool"
  assumes at_start: "ok p \<Longrightarrow> t \<le> 0 \<Longrightarrow> getPos p (Fin t) = start p"
    and at_goal: "ok p \<Longrightarrow> dur p = Fin d \<Longrightarrow> d \<le> t \<Longrightarrow> getPos p (Fin t) = goal p"
    and has_duration: "ok p \<Longrightarrow> \<exists>d \<ge> 0. dur p = Fin d"
    and stretch_ok: "ok p \<Longrightarrow> 0 < d \<Longrightarrow> ok (setDur (Fin d) p)"
    and stretch_duration: "ok p \<Longrightarrow> 0 < d \<Longrightarrow> dur (setDur (Fin d) p) = Fin d"
    and stretch_ends: "ok p \<Longrightarrow> 0 < d \<Longrightarrow> start (setDur (Fin d) p) = start p \<and> goal (setDur (Fin d) p) = goal p"
begin

lemma stretched:
  assumes "ok p" "0 < d"
  shows "t \<le> 0 \<Longrightarrow> getPos (setDur (Fin d) p) (Fin t) = start p"
    "d \<le> t \<Longrightarrow> getPos (setDur (Fin d) p) (Fin t) = goal p"
  using at_start [OF stretch_ok [OF assms]] at_goal [OF stretch_ok [OF assms] stretch_duration [OF assms]]
    stretch_ends [OF assms] by simp_all

end

text \<open>
  A profile whose ends coincide has no phases; stretching it divides zero by zero in its phase times,
  but all its polynomials are constant.
\<close>

definition trap_still :: "real \<Rightarrow> trap \<Rightarrow> bool" where
  "trap_still x p \<longleftrightarrow>
     startpos p = Fin x \<and> endpos p = Fin x \<and> coef_a1 p = Fin x \<and> coef_b1 p = Fin x \<and> coef_c1 p = Fin x \<and>
     coef_a2 p = Fin 0 \<and> coef_b2 p = Fin 0 \<and> coef_b3 p = Fin 0 \<and> coef_c2 p = Fin 0 \<and>
     (\<exists>k. coef_a3 p = Fin k \<and> coef_c3 p = Fin (- k) \<and>
        (time1 p = Fin 0 \<and> time2 p = Fin 0 \<and> duration p = Fin 0 \<or>
         k = 0 \<and> time1 p = NaN \<and> time2 p = NaN \<and> (\<exists>d > 0. duration p = Fin d)))"

definition trap_ok :: "trap \<Rightarrow> bool" where
  "trap_ok p \<longleftrightarrow> (\<exists>x0 k t1 t2. trap_shape x0 k t1 t2 p) \<or> (\<exists>x. trap_still x p)"

lemma still_getPos: "trap_still x p \<Longrightarrow> trap_getPos p (Fin t) = Fin x"
  by (cases "t = 0") (auto simp: trap_still_def trap_getPos_def)

lemma still_stretch: "trap_still x p \<Longrightarrow> 0 < d \<Longrightarrow> trap_still x (trap_setProfileDuration (Fin d) p)"
  by (auto simp: trap_still_def trap_setProfileDuration_def Let_def)

lemma still_new: "0 < v \<Longrightarrow> 0 < a \<Longrightarrow> trap_still x (VelocityProfileTrap (Fin x) (Fin x) (Fin v) (Fin a))"
proof -
  assume va: "0 < v" "0 < a"
  then have "trap_times (Fin x) (Fin x) (Fin v) (Fin a) = (Fin 0, Fin 0, Fin 0)"
    by (simp add: trap_times_def sign_def Let_def not_less)
  with va show ?thesis by (simp add: VelocityProfileTrap_def trap_still_def sign_def Let_def exI [of _ "a / 2"])
qed

lemma trap_ok_new:
  assumes "0 < v" "0 < a"
  shows "trap_ok (VelocityProfileTrap (Fin x0) (Fin x1) (Fin v) (Fin a))"
proof (cases "x0 = x1")
  case True
  with still_new [OF assms] show ?thesis unfolding trap_ok_def by blast
next
  case False
  with trap_shape_new [OF False assms] show ?thesis unfolding trap_ok_def by metis
qed

interpretation trap: velocity_profile trap_getPos trap_setProfileDuration duration startpos endpos trap_ok
proof unfold_locales
  fix p and t :: real
  assume "trap_ok p" "t \<le> 0"
  then show "trap_getPos p (Fin t) = startpos p"
    unfolding trap_ok_def
  proof (elim disjE exE)
    fix x0 k t1 t2
    assume s: "trap_shape x0 k t1 t2 p" and "t \<le> 0"
    with travelled_phases(1) [of t1 t2 t] shape_getPos [OF s, of t] show ?thesis by (simp add: trap_shape_def)
  next
    fix x
    assume "trap_still x p"
    with still_getPos show ?thesis by (simp add: trap_still_def)
  qed
next
  fix p and d t :: real
  assume "trap_ok p" "duration p = Fin d" "d \<le> t"
  then show "trap_getPos p (Fin t) = endpos p"
    unfolding trap_ok_def
  proof (elim disjE exE)
    fix x0 k t1 t2
    assume s: "trap_shape x0 k t1 t2 p" and "duration p = Fin d" "d \<le> t"
    with travelled_phases(5) [of t1 t2 t] shape_getPos [OF s, of t] show ?thesis by (simp add: trap_shape_def)
  next
    fix x
    assume "trap_still x p"
    with still_getPos show ?thesis by (simp add: trap_still_def)
  qed
next
  fix p :: trap
  assume "trap_ok p"
  then show "\<exists>d \<ge> 0. duration p = Fin d"
    by (auto simp: trap_ok_def trap_shape_def trap_still_def)
next
  fix p and d :: real
  assume ok: "trap_ok p" and d: "0 < d"
  from ok d shape_stretch still_stretch show "trap_ok (trap_setProfileDuration (Fin d) p)"
    unfolding trap_ok_def by metis
  show "duration (trap_setProfileDuration (Fin d) p) = Fin d"
    using ok by (auto simp: trap_setProfileDuration_def Let_def js_eq_def)
  show "startpos (trap_setProfileDuration (Fin d) p) = startpos p \<and>
      endpos (trap_setProfileDuration (Fin d) p) = endpos p"
    by (simp add: trap_setProfileDuration_def Let_def)
qed

section \<open>Mapped profiles\<close>

definition maps_unit :: "(jsnum \<Rightarrow> jsnum) \<Rightarrow> bool" where
  "maps_unit m \<longleftrightarrow> m (Fin 0) = Fin 0 \<and> m (Fin 1) = Fin 1"

definition mapped_ok :: "mapped \<Rightarrow> bool" where
  "mapped_ok p \<longleftrightarrow>
     (\<exists>x len dir. moffset p = Fin x \<and> mlength p = Fin len \<and> mdir p = Fin dir \<and>
        (len = 0 \<and> (\<exists>d \<ge> 0. mduration p = Fin d) \<or>
         len \<noteq> 0 \<and> maps_unit (mapping p) \<and> trap_ok (mprofile p) \<and> startpos (mprofile p) = Fin 0 \<and>
           endpos (mprofile p) = Fin 1 \<and> mduration p = duration (mprofile p)))"

definition mapped_goal :: "mapped \<Rightarrow> jsnum" where
  "mapped_goal p = (if js_eq (mlength p) 0 then moffset p else mlength p * mdir p + moffset p)"

lemma mapped_okE:
  assumes "mapped_ok p"
  obtains (still) x d where "mlength p = Fin 0" "moffset p = Fin x" "0 \<le> d" "mduration p = Fin d"
  | (moving) x len dir where "mlength p = Fin len" "len \<noteq> 0" "moffset p = Fin x" "mdir p = Fin dir"
      "maps_unit (mapping p)" "trap_ok (mprofile p)" "startpos (mprofile p) = Fin 0"
      "endpos (mprofile p) = Fin 1" "mduration p = duration (mprofile p)"
  using assms unfolding mapped_ok_def by blast

lemma mapped_stretch:
  assumes "mapped_ok p" "0 < d"
  shows "mapped_ok (mapped_setProfileDuration (Fin d) p)"
  using assms(1)
proof (cases rule: mapped_okE)
  case (still x d')
  with assms show ?thesis by (auto simp: mapped_ok_def mapped_setProfileDuration_def)
next
  case (moving x len dir)
  with assms(2) trap.stretch_ok trap.stretch_duration trap.stretch_ends show ?thesis
    by (auto simp: mapped_ok_def mapped_setProfileDuration_def)
qed

interpretation mapped: velocity_profile mapped_getPos mapped_setProfileDuration mduration moffset
  mapped_goal mapped_ok
proof unfold_locales
  fix p and t :: real
  assume "mapped_ok p" "t \<le> 0"
  then show "mapped_getPos p (Fin t) = moffset p"
    by (cases rule: mapped_okE) (auto simp: mapped_getPos_def maps_unit_def trap.at_start)
next
  fix p and d t :: real
  assume "mapped_ok p" "mduration p = Fin d" "d \<le> t"
  then show "mapped_getPos p (Fin t) = mapped_goal p"
    by (cases rule: mapped_okE) (auto simp: mapped_getPos_def maps_unit_def trap.at_goal mapped_goal_def)
next
  fix p :: mapped
  assume "mapped_ok p"
  then show "\<exists>d \<ge> 0. mduration p = Fin d"
    by (cases rule: mapped_okE) (auto dest: trap.has_duration)
next
  fix p and d :: real
  assume "mapped_ok p" "0 < d"
  then show "mapped_ok (mapped_setProfileDuration (Fin d) p)" by (rule mapped_stretch)
  show "mduration (mapped_setProfileDuration (Fin d) p) = Fin d"
    "moffset (mapped_setProfileDuration (Fin d) p) = moffset p \<and>
     mapped_goal (mapped_setProfileDuration (Fin d) p) = mapped_goal p"
    by (simp_all add: mapped_setProfileDuration_def mapped_goal_def Let_def)
qed

lemma mapped_new:
  assumes "x0 = x1 \<or> (maps_unit m \<and> (\<exists>v > 0. mv = Fin v) \<and> (\<exists>a > 0. ma = Fin a))"
  shows "mapped_ok (VelocityProfileMapped (Fin x0) (Fin x1) m mv ma)"
    "mapped_goal (VelocityProfileMapped (Fin x0) (Fin x1) m mv ma) = Fin x1"
    "moffset (VelocityProfileMapped (Fin x0) (Fin x1) m mv ma) = Fin x0"
    "x0 \<noteq> x1 \<Longrightarrow> \<exists>d > 0. mduration (VelocityProfileMapped (Fin x0) (Fin x1) m mv ma) = Fin d"
proof -
  have ok: "x0 \<noteq> x1 \<Longrightarrow> trap_ok (VelocityProfileTrap 0 1 mv ma)"
    using assms trap_ok_new by fastforce
  have ends: "startpos (VelocityProfileTrap 0 1 mv ma) = Fin 0" "endpos (VelocityProfileTrap 0 1 mv ma) = Fin 1"
    by (simp_all add: VelocityProfileTrap_def Let_def split: prod.split)
  show "mapped_ok (VelocityProfileMapped (Fin x0) (Fin x1) m mv ma)"
    using assms ok ends
    by (cases "x0 = x1") (auto simp: mapped_ok_def VelocityProfileMapped_def Let_def sign_def)
  show "mapped_goal (VelocityProfileMapped (Fin x0) (Fin x1) m mv ma) = Fin x1"
    "moffset (VelocityProfileMapped (Fin x0) (Fin x1) m mv ma) = Fin x0"
    by (auto simp: mapped_goal_def VelocityProfileMapped_def Let_def sign_def)
  assume ne: "x0 \<noteq> x1"
  with assms obtain v a where va: "0 < v" "0 < a" "mv = Fin v" "ma = Fin a" by blast
  obtain t1 t2 where "trap_times (Fin 0) (Fin 1) (Fin v) (Fin a) = (Fin t1, Fin t2, Fin (t1 + t2))" "0 < t1" "t1 \<le> t2"
    by (rule trap_times_real [of 0 1 v a]) (use va in auto)
  with ne va(3,4) show "\<exists>d > 0. mduration (VelocityProfileMapped (Fin x0) (Fin x1) m mv ma) = Fin d"
    by (auto simp: VelocityProfileMapped_def VelocityProfileTrap_def Let_def intro!: exI [of _ "t1 + t2"])
qed

subsection \<open>Two profiles in a row\<close>

definition mapped_double_ok :: "mapped_double \<Rightarrow> bool" where
  "mapped_double_ok p \<longleftrightarrow>
     mapped_ok (first_mapped p) \<and> mapped_ok (second_mapped p) \<and>
     (\<exists>d0 > 0. \<exists>d1 > 0. mduration (first_mapped p) = Fin d0 \<and> mduration (second_mapped p) = Fin d1 \<and>
        mdduration p = Fin (d0 + d1))"

lemma mapped_double_stretch:
  assumes "mapped_double_ok p" "0 < d"
  shows "mapped_double_ok (mapped_double_setProfileDuration (Fin d) p)"
    "mapped_goal (second_mapped (mapped_double_setProfileDuration (Fin d) p)) = mapped_goal (second_mapped p)"
    "moffset (first_mapped (mapped_double_setProfileDuration (Fin d) p)) = moffset (first_mapped p)"
proof -
  obtain d0 d1 where d: "0 < d0" "0 < d1" "mduration (first_mapped p) = Fin d0" "mduration (second_mapped p) = Fin d1"
      "mdduration p = Fin (d0 + d1)" and ok: "mapped_ok (first_mapped p)" "mapped_ok (second_mapped p)"
    using assms(1) unfolding mapped_double_ok_def by blast
  have pos: "0 < d0 * d / (d0 + d1)" "0 < d1 * d / (d0 + d1)" "d0 * d / (d0 + d1) + d1 * d / (d0 + d1) = d"
    using d(1,2) assms(2) by (simp_all add: add_divide_distrib [symmetric] distrib_right [symmetric])
  have e: "mapped_double_setProfileDuration (Fin d) p =
      p\<lparr>first_mapped := mapped_setProfileDuration (Fin (d0 * d / (d0 + d1))) (first_mapped p),
        second_mapped := mapped_setProfileDuration (Fin (d1 * d / (d0 + d1))) (second_mapped p),
        mdduration := Fin d\<rparr>"
    using d(1,2) by (simp add: mapped_double_setProfileDuration_def Let_def d(3-5))
  show "mapped_double_ok (mapped_double_setProfileDuration (Fin d) p)"
    using pos mapped.stretch_ok [OF ok(1) pos(1)] mapped.stretch_ok [OF ok(2) pos(2)]
      mapped.stretch_duration [OF ok(1) pos(1)] mapped.stretch_duration [OF ok(2) pos(2)]
    unfolding mapped_double_ok_def e by auto
  show "mapped_goal (second_mapped (mapped_double_setProfileDuration (Fin d) p)) = mapped_goal (second_mapped p)"
    "moffset (first_mapped (mapped_double_setProfileDuration (Fin d) p)) = moffset (first_mapped p)"
    using mapped.stretch_ends [OF ok(1) pos(1)] mapped.stretch_ends [OF ok(2) pos(2)] by (simp_all add: e)
qed

interpretation mapped_double: velocity_profile mapped_double_getPos mapped_double_setProfileDuration
  mdduration "\<lambda>p. moffset (first_mapped p)" "\<lambda>p. mapped_goal (second_mapped p)" mapped_double_ok
proof unfold_locales
  fix p and t :: real
  assume "mapped_double_ok p" "t \<le> 0"
  then show "mapped_double_getPos p (Fin t) = moffset (first_mapped p)"
    by (auto simp: mapped_double_ok_def mapped_double_getPos_def mapped.at_start)
next
  fix p and d t :: real
  assume "mapped_double_ok p" "mdduration p = Fin d" "d \<le> t"
  then obtain d0 d1 where "mapped_ok (second_mapped p)" "mduration (first_mapped p) = Fin d0"
      "mduration (second_mapped p) = Fin d1" "0 < d1" "d0 + d1 \<le> t"
    by (auto simp: mapped_double_ok_def)
  with mapped.at_goal [of "second_mapped p" d1 "t - d0"]
  show "mapped_double_getPos p (Fin t) = mapped_goal (second_mapped p)"
    by (simp add: mapped_double_getPos_def)
next
  fix p :: mapped_double
  assume "mapped_double_ok p"
  then show "\<exists>d \<ge> 0. mdduration p = Fin d" by (force simp: mapped_double_ok_def)
next
  fix p and d :: real
  assume "mapped_double_ok p" "0 < d"
  then show "mapped_double_ok (mapped_double_setProfileDuration (Fin d) p)"
    "moffset (first_mapped (mapped_double_setProfileDuration (Fin d) p)) = moffset (first_mapped p) \<and>
     mapped_goal (second_mapped (mapped_double_setProfileDuration (Fin d) p)) = mapped_goal (second_mapped p)"
    using mapped_double_stretch by auto
  show "mdduration (mapped_double_setProfileDuration (Fin d) p) = Fin d"
    by (simp add: mapped_double_setProfileDuration_def Let_def)
qed

lemma mapped_double_new:
  assumes "x0 \<noteq> x1" "x1 \<noteq> x2" "maps_unit m1" "maps_unit m2" "\<exists>v > 0. mv = Fin v" "\<exists>a > 0. ma = Fin a"
  defines "p \<equiv> VelocityProfileMappedDouble (Fin x0) (Fin x1) (Fin x2) m1 m2 mv ma"
  shows "mapped_double_ok p" "moffset (first_mapped p) = Fin x0" "mapped_goal (second_mapped p) = Fin x2"
proof -
  have "x0 = x1 \<or> maps_unit m1 \<and> (\<exists>v > 0. mv = Fin v) \<and> (\<exists>a > 0. ma = Fin a)"
    "x1 = x2 \<or> maps_unit m2 \<and> (\<exists>v > 0. mv = Fin v) \<and> (\<exists>a > 0. ma = Fin a)"
    using assms by simp_all
  note M = mapped_new [OF this(1)] mapped_new [OF this(2)]
  obtain d0 d1 where "0 < d0" "0 < d1" "mduration (VelocityProfileMapped (Fin x0) (Fin x1) m1 mv ma) = Fin d0"
      "mduration (VelocityProfileMapped (Fin x1) (Fin x2) m2 mv ma) = Fin d1"
    using M(4) [OF assms(1)] M(8) [OF assms(2)] by blast
  with M show "mapped_double_ok p" "moffset (first_mapped p) = Fin x0" "mapped_goal (second_mapped p) = Fin x2"
    by (auto simp: p_def VelocityProfileMappedDouble_def mapped_double_ok_def Let_def)
qed

subsection \<open>Vectors\<close>

text \<open>Along a line of length \<open>len\<close>; the array keeps its elements (\<open>f64\<close>).\<close>

definition mapped3d_ok :: "mapped3d \<Rightarrow> bool" where
  "mapped3d_ok p \<longleftrightarrow>
     mapped_ok (mprofile3d p) \<and> moffset (mprofile3d p) = Fin 0 \<and> mduration3d p = mduration (mprofile3d p) \<and>
     (\<exists>x y z. moffset3d p = real3 x y z) \<and>
     (\<exists>len. mlength3d p = Fin len \<and>
        (len = 0 \<or> mapped_goal (mprofile3d p) = Fin len \<and> (\<exists>u v w. mdir3d p = real3 u v w)))"

definition mapped3d_goal :: "mapped3d \<Rightarrow> farray" where
  "mapped3d_goal p =
     (if js_eq (mlength3d p) 0 then moffset3d p
      else V3_add f64 (V3_scale f64 (mdir3d p) (mlength3d p)) (moffset3d p))"

interpretation mapped3d: velocity_profile "mapped3d_getPos f64" mapped3d_setProfileDuration mduration3d
  moffset3d mapped3d_goal mapped3d_ok
proof unfold_locales
  fix p and t :: real
  assume "mapped3d_ok p" "t \<le> 0"
  then show "mapped3d_getPos f64 p (Fin t) = moffset3d p"
    by (auto simp: mapped3d_ok_def mapped3d_getPos_def mapped.at_start)
next
  fix p and d t :: real
  assume "mapped3d_ok p" "mduration3d p = Fin d" "d \<le> t"
  then show "mapped3d_getPos f64 p (Fin t) = mapped3d_goal p"
    using mapped.at_goal [of "mprofile3d p" d t]
    by (auto simp: mapped3d_ok_def mapped3d_getPos_def mapped3d_goal_def)
next
  fix p :: mapped3d
  assume "mapped3d_ok p"
  then show "\<exists>d \<ge> 0. mduration3d p = Fin d" by (auto simp: mapped3d_ok_def mapped.has_duration)
next
  fix p and d :: real
  assume p: "mapped3d_ok p" "0 < d"
  then have m: "mapped_ok (mprofile3d p)" by (simp add: mapped3d_ok_def)
  from p show "mapped3d_ok (mapped3d_setProfileDuration (Fin d) p)"
    using mapped.stretch_ok [OF m p(2)] mapped.stretch_ends [OF m p(2)] mapped.stretch_duration [OF m p(2)]
    by (auto simp: mapped3d_ok_def mapped3d_setProfileDuration_def)
  show "mduration3d (mapped3d_setProfileDuration (Fin d) p) = Fin d"
    "moffset3d (mapped3d_setProfileDuration (Fin d) p) = moffset3d p \<and>
     mapped3d_goal (mapped3d_setProfileDuration (Fin d) p) = mapped3d_goal p"
    by (simp_all add: mapped3d_setProfileDuration_def mapped3d_goal_def)
qed

lemma mapped3d_new:
  assumes "maps_unit m" and "(x0, y0, z0) = (x1, y1, z1) \<or> (\<exists>v > 0. mv = Fin v) \<and> (\<exists>a > 0. ma = Fin a)"
  defines "p \<equiv> VelocityProfileMapped3D f64 (real3 x0 y0 z0) (real3 x1 y1 z1) m mv ma"
  shows "mapped3d_ok p" "moffset3d p = real3 x0 y0 z0" "mapped3d_goal p = real3 x1 y1 z1"
proof -
  define len where "len = sqrt ((x1 - x0) * (x1 - x0) + (y1 - y0) * (y1 - y0) + (z1 - z0) * (z1 - z0))"
  have len: "V3_length (V3_sub f64 (real3 x1 y1 z1) (real3 x0 y0 z0)) = Fin len" by (simp add: len_def)
  have zero: "len = 0 \<longleftrightarrow> (x0, y0, z0) = (x1, y1, z1)"
    using sum_squares_zero_iff [of "x1 - x0" "y1 - y0" "z1 - z0"] by (auto simp: len_def)
  have "0 = len \<or> maps_unit m \<and> (\<exists>v > 0. mv = Fin v) \<and> (\<exists>a > 0. ma = Fin a)"
    using assms(1,2) zero by auto
  note M = mapped_new [OF this]
  have p: "p = \<lparr>mlength3d = Fin len, mdir3d = V3_scale f64 (real3 (x1 - x0) (y1 - y0) (z1 - z0)) (1 / Fin len),
      moffset3d = real3 x0 y0 z0, mprofile3d = VelocityProfileMapped (Fin 0) (Fin len) m mv ma,
      mduration3d = mduration (VelocityProfileMapped (Fin 0) (Fin len) m mv ma)\<rparr>"
    unfolding p_def VelocityProfileMapped3D_def len Let_def by simp
  have scale: "len \<noteq> 0 \<Longrightarrow> V3_scale f64 (real3 (x1 - x0) (y1 - y0) (z1 - z0)) (1 / Fin len) =
      real3 ((x1 - x0) * (1 / len)) ((y1 - y0) * (1 / len)) ((z1 - z0) * (1 / len))"
    by simp
  show "moffset3d p = real3 x0 y0 z0" by (simp add: p)
  show "mapped3d_ok p" using M(1-3) scale by (auto simp: mapped3d_ok_def p)
  show "mapped3d_goal p = real3 x1 y1 z1"
  proof (cases "len = 0")
    case True
    with zero show ?thesis by (simp add: mapped3d_goal_def p)
  next
    case False
    with scale show ?thesis by (simp add: mapped3d_goal_def p)
  qed
qed

section \<open>Properties\<close>

lemma generatePowers_3: "generatePowers 3 x = [1, 1 * x, 1 * x * x, 1 * x * x * x]"
  by (simp add: generatePowers_def upt_rec numeral_eq_Suc)

text \<open>C11. The trapezoidal profile between two different positions, stretched to any positive duration, is
  a smooth motion: the position is a differentiable function of time, at the joints of the phases too,
  \<open>getVel\<close> is its derivative, it rests at the start before time 0 and at the goal from the end of the
  duration, it never moves away from the goal, and its speed is at most the maximal velocity, scaled
  as the duration is.\<close>

theorem trap_profile_motion:
  assumes "x0 \<noteq> x1" "0 < v" "0 < a" "0 < d" "VelocityProfileTrap (Fin x0) (Fin x1) (Fin v) (Fin a) = p"
  shows "\<exists>q w d0. duration p = Fin d0 \<and>
     (\<forall>t. trap_getPos (trap_setProfileDuration (Fin d) p) (Fin t) = Fin (q t)) \<and>
     (\<forall>t. trap_getVel (trap_setProfileDuration (Fin d) p) (Fin t) = Fin (w t)) \<and>
     (\<forall>t. (q has_real_derivative w t) (at t)) \<and>
     (\<forall>t \<le> 0. q t = x0) \<and> (\<forall>t \<ge> d. q t = x1) \<and>
     (\<forall>t. 0 \<le> (x1 - x0) * w t \<and> \<bar>w t\<bar> \<le> v * (d0 / d))"
proof -
  obtain k t1 t2 where k: "trap_shape x0 k t1 t2 p" "x0 + k * (2 * t1 * t2) = x1" "\<bar>k\<bar> * (2 * t1) \<le> v"
      "\<bar>k\<bar> = a / 2" "0 \<le> (x1 - x0) * k"
    by (rule trap_shape_new [OF assms(1-3)]) (use assms(5) in auto)
  define f where "f = (t1 + t2) / d"
  let ?u1 = "t1 / f" and ?u2 = "t2 / f"
  have t: "0 < t1" "t1 \<le> t2" "0 < f" using k(1) assms(4) by (auto simp: trap_shape_def f_def)
  have s: "trap_shape x0 (k * f\<^sup>2) ?u1 ?u2 (trap_setProfileDuration (Fin d) p)"
    unfolding f_def by (rule shape_stretch [OF k(1) assms(4)])
  have u: "0 \<le> ?u1" "?u1 \<le> ?u2" using t by (simp_all add: divide_right_mono)
  have "t1 + t2 = f * d" using assms(4) by (simp add: f_def)
  then have sum: "?u1 + ?u2 = d" using t(3) by (simp add: add_divide_distrib [symmetric])
  have goal: "k * f\<^sup>2 * (2 * ?u1 * ?u2) = k * (2 * t1 * t2)" using t(3) by (simp add: power2_eq_square)
  have sp: "0 \<le> speed ?u1 ?u2 r" "speed ?u1 ?u2 r \<le> 2 * ?u1" for r by (rule speed_bounds [OF u])+
  have "0 \<le> (x1 - x0) * (k * f\<^sup>2 * speed ?u1 ?u2 r)" for r
    using mult_nonneg_nonneg [OF k(5) mult_nonneg_nonneg [OF zero_le_power2 [of f] sp(1) [of r]]]
    by (simp add: mult.assoc)
  moreover have "\<bar>k * f\<^sup>2 * speed ?u1 ?u2 r\<bar> \<le> v * ((t1 + t2) / d)" for r
  proof -
    have "\<bar>k * f\<^sup>2 * speed ?u1 ?u2 r\<bar> = \<bar>k\<bar> * f\<^sup>2 * speed ?u1 ?u2 r" using sp(1) [of r] by (simp add: abs_mult)
    also have "\<dots> \<le> \<bar>k\<bar> * f\<^sup>2 * (2 * ?u1)" using sp(2) [of r] by (intro mult_left_mono) simp_all
    also have "\<dots> = \<bar>k\<bar> * (2 * t1) * f" using t(3) by (simp add: power2_eq_square)
    also have "\<dots> \<le> v * f" using k(3) t(3) by (intro mult_right_mono) simp_all
    finally show ?thesis by (simp add: f_def)
  qed
  moreover have "((\<lambda>r. x0 + k * f\<^sup>2 * travelled ?u1 ?u2 r) has_real_derivative k * f\<^sup>2 * speed ?u1 ?u2 r) (at r)" for r
    using DERIV_cmult [OF travelled_deriv, of "k * f\<^sup>2" ?u1 ?u2 r] by (auto intro: DERIV_cong [OF DERIV_add [OF DERIV_const]])
  moreover have "duration p = Fin (t1 + t2)" using k(1) by (simp add: trap_shape_def)
  ultimately show ?thesis
    using travelled_phases(1,5) [OF u] sum goal k(2)
    by (intro exI [of _ "\<lambda>r. x0 + k * f\<^sup>2 * travelled ?u1 ?u2 r"] exI [of _ "\<lambda>r. k * f\<^sup>2 * speed ?u1 ?u2 r"]
        exI [of _ "t1 + t2"]) (simp add: shape_getPos [OF s] shape_getVel [OF s])
qed

lemma trap_profile_motion_witness:
  "\<exists>q w. (\<forall>t. trap_getPos (trap_setProfileDuration (Fin 4) (VelocityProfileTrap (Fin 0) (Fin 3) (Fin 2) (Fin 2))) (Fin t) = Fin (q t)) \<and>
     (\<forall>t. (q has_real_derivative w t) (at t)) \<and> q 0 = 0 \<and> q 4 = 3"
proof -
  have "(0 :: real) \<noteq> 3" "0 < (2 :: real)" "0 < (4 :: real)" by simp_all
  from trap_profile_motion [OF this(1,2,2,3) refl] show ?thesis by force
qed

lemma cubic_deriv:
  "((\<lambda>t. x + c * t\<^sup>2 + e * t ^ 3) has_real_derivative 2 * t * c + 3 * t\<^sup>2 * e) (at (t :: real))"
  by (auto intro!: derivative_eq_intros)

text \<open>The velocity of the cubic profile over a non-zero duration is the derivative of a cubic from the
  first position to the second, and is zero at both ends.\<close>

theorem cubic_velocity:
  assumes "d \<noteq> 0"
  shows "\<exists>q w. (\<forall>t. cubic_getVel (VelocityProfileCubic (Fin x0) (Fin x1) (Fin d)) (Fin t) = Fin (w t)) \<and>
     (\<forall>t. (q has_real_derivative w t) (at t)) \<and> q 0 = x0 \<and> q d = x1 \<and> w 0 = 0 \<and> w d = 0"
proof -
  let ?c = "(3 * x1 - 3 * x0) / d\<^sup>2" and ?e = "(2 * x0 - 2 * x1) / d ^ 3"
  let ?q = "\<lambda>t. x0 + ?c * t\<^sup>2 + ?e * t ^ 3" and ?w = "\<lambda>t. 2 * t * ?c + 3 * t\<^sup>2 * ?e"
  have "cubic_getVel (VelocityProfileCubic (Fin x0) (Fin x1) (Fin d)) (Fin t) = Fin (?w t)" for t
    using assms
    by (simp add: cubic_getVel_def VelocityProfileCubic_def getCubicSplineCoefficients_def generatePowers_3
        power2_eq_square power3_eq_cube)
  moreover have "(?q has_real_derivative ?w t) (at t)" for t by (rule cubic_deriv)
  moreover have "?q d = x1" "?w d = 0"
    using assms by (simp_all add: power2_eq_square power3_eq_cube field_simps)
  ultimately show ?thesis by (intro exI [of _ ?q] exI [of _ ?w]) simp
qed

lemma cubic_velocity_witness:
  "\<exists>w. cubic_getVel (VelocityProfileCubic (Fin 0) (Fin 1) (Fin 2)) (Fin 2) = Fin (w (2 :: real)) \<and> w 2 = 0"
  using cubic_velocity [of 2 0 1] by auto

text \<open>\<open>VelocityProfileSlowdown.setProfileDuration\<close> does not adjust the end position: stretched by a
  factor \<open>r\<close> the profile follows \<open>r\<close> times the original path, so it runs past its end by that factor
  until the duration is over and then jumps back to the end position.\<close>

theorem slowdown_stretch_overshoots:
  assumes "v \<noteq> 0" "0 < a" "1 \<le> r" "VelocityProfileSlowdown (Fin x) (Fin v) (Fin a) = p"
  shows "\<exists>d e q. sl_duration p = Fin d \<and> sl_endpos p = Fin e \<and> e \<noteq> x \<and>
     slowdown_setProfileDuration (Fin (r * d)) p = Some q \<and>
     (\<forall>t. 0 \<le> t \<and> t < d \<longrightarrow>
        (\<exists>y. slowdown_getPos p (Fin t) = Fin y \<and> slowdown_getPos q (Fin (r * t)) = Fin (x + r * (y - x)))) \<and>
     slowdown_getPos q (Fin (r * d)) = Fin e"
proof -
  define s :: real where "s = (if v < 0 then -1 else 1)"
  define d where "d = s * v / a"
  have s: "sign (Fin v) = Fin s" "s * s = 1" "0 < s * v" using assms(1) by (auto simp: s_def sign_def)
  have d: "0 < d" "s * v = d * a" using s(3) assms(2) by (simp_all add: d_def)
  have v: "v = s * d * a" using d(2) s(2) by algebra
  let ?e = "x + v * d - s * d * d * a / 2"
  have p: "p = \<lparr>sl_startpos = Fin x, sl_startvel = Fin v, sl_maxacc = Fin a, sl_sign = Fin s, sl_duration = Fin d,
      sl_endpos = Fin ?e\<rparr>"
    unfolding assms(4) [symmetric] VelocityProfileSlowdown_def s(1) Let_def using assms(2) by (simp add: d_def)
  let ?q = "p\<lparr>sl_maxacc := Fin (a / r), sl_duration := Fin (r * d)\<rparr>"
  have q: "slowdown_setProfileDuration (Fin (r * d)) p = Some ?q"
    using assms(3) d(1) by (simp add: slowdown_setProfileDuration_def p divide_le_eq)
  have "?e - x = s * d * d * a / 2" unfolding v by (simp add: field_simps)
  moreover have "s \<noteq> 0" using s(2) by auto
  ultimately have "?e \<noteq> x" using d(1) assms(2) by auto
  moreover have "\<exists>y. slowdown_getPos p (Fin t) = Fin y \<and> slowdown_getPos ?q (Fin (r * t)) = Fin (x + r * (y - x))"
    if t: "0 \<le> t" "t < d" for t
  proof -
    have "r * t < r * d" "0 \<le> r * t" using t assms(3) by simp_all
    moreover have "slowdown_getPos ?q (Fin u) = Fin (x + v * u - s * u * u * (a / r) / 2)"
      if "u < r * d" "0 \<le> u" for u
      using that assms(3) by (simp add: slowdown_getPos_def p)
    ultimately have "slowdown_getPos ?q (Fin (r * t)) = Fin (x + v * (r * t) - s * (r * t) * (r * t) * (a / r) / 2)"
      by blast
    moreover have "x + v * (r * t) - s * (r * t) * (r * t) * (a / r) / 2 = x + r * (x + v * t - s * t * t * a / 2 - x)"
      using assms(3) by (simp add: field_simps)
    moreover have "slowdown_getPos p (Fin t) = Fin (x + v * t - s * t * t * a / 2)"
      using t by (simp add: slowdown_getPos_def p)
    ultimately show ?thesis by metis
  qed
  moreover have "slowdown_getPos ?q (Fin u) = Fin ?e" if "r * d = u" "0 \<le> u" for u
    using that by (simp add: slowdown_getPos_def p)
  then have "slowdown_getPos ?q (Fin (r * d)) = Fin ?e" using assms(3) d(1) by simp
  moreover have "sl_duration p = Fin d" "sl_endpos p = Fin ?e" by (simp_all add: p)
  ultimately show ?thesis using q by blast
qed

lemma slowdown_stretch_witness:
  "\<exists>d e q. sl_duration (VelocityProfileSlowdown (Fin 0) (Fin 2) (Fin 1)) = Fin d \<and>
     slowdown_setProfileDuration (Fin (2 * d)) (VelocityProfileSlowdown (Fin 0) (Fin 2) (Fin 1)) = Some q \<and>
     slowdown_getPos q (Fin (2 * d)) = Fin e"
  using slowdown_stretch_overshoots [of 2 1 2 0, OF _ _ _ refl] by auto

end
