(* ===== verification/OrbitCam.thy ===== *)
theory OrbitCam
  imports Matrices ProfileMotion
begin

text \<open>
  The camera (\<open>js/orbitcam.js\<close>, \<open>OrbitCam\<close>): a point of interest, the distance to it, and two angles. The
  record \<open>camera\<close> holds the fields of the object, the number of calls of \<open>motionCallback\<close> and the
  iterations of a flight that \<open>setTimeout\<close> has scheduled. \<open>goto\<close> plans a flight to the pose of another
  camera with the velocity profiles (\<open>VelocityProfiles\<close>); \<open>executeProfileIteration\<close> moves the camera along it
  and schedules the next iteration.

  \<open>angle_diff\<close> adds or subtracts full turns in a loop; on an infinite angle it does not return, so it is
  a partial function whose value \<open>None\<close> is that it runs forever.
\<close>

section \<open>Angles and mappings\<close>

definition Math_pow :: "jsnum \<Rightarrow> nat \<Rightarrow> jsnum" where
  "Math_pow x n = x ^ n"

definition cam_sgn :: "jsnum \<Rightarrow> jsnum" where
  "cam_sgn v = (if v > 0 then 1 else Fin (-1))"

definition ang_dist :: "jsnum \<Rightarrow> jsnum \<Rightarrow> jsnum" where
  "ang_dist a1 a2 =
     (let res = a1 - a2;
          res = (if res > Math_PI then res - Math_PI * 2 else res)
      in if res < - Math_PI then res + Math_PI * 2 else res)"

partial_function (option) raise_angle :: "jsnum \<Rightarrow> jsnum option" where
  "raise_angle d = (if d < - Math_PI then raise_angle (d + Math_PI * 2) else Some d)"

partial_function (option) lower_angle :: "jsnum \<Rightarrow> jsnum option" where
  "lower_angle d = (if d > Math_PI then lower_angle (d - Math_PI * 2) else Some d)"

definition angle_diff :: "jsnum \<Rightarrow> jsnum \<Rightarrow> jsnum option" where
  "angle_diff a1 a2 = Option.bind (raise_angle (a1 - a2)) lower_angle"

definition mapping1 :: "jsnum \<Rightarrow> jsnum \<Rightarrow> jsnum \<Rightarrow> nat \<Rightarrow> jsnum" where
  "mapping1 map_1 map_2 v pw =
     (if map_2 > map_1 then
        Math_pow v pw * map_2 / ((map_2 - map_1) * v + map_1 * Math_pow v (pw - 1) + 1 - v)
      else
        (let v = - v + 1
         in 1 - Math_pow v pw * map_1 / ((map_1 - map_2) * v + map_2 * Math_pow v (pw - 1) + 1 - v)))"

definition mapping2 :: "jsnum \<Rightarrow> jsnum" where
  "mapping2 v = (1 - Math_cos (v * Math_PI)) / 2"

section \<open>The camera\<close>

datatype distance_profile = Single mapped | Double mapped_double

record motion =
  pitch_profile :: trap
  yaw_profile :: trap
  distance_profile :: distance_profile
  origin_profile :: mapped3d

text \<open>An iteration that is scheduled: the id of its flight, its time, the duration, and the profiles.\<close>

record iteration =
  it_id :: nat
  it_time :: jsnum
  it_duration :: jsnum
  it_motion :: motion

record camera =
  origin :: farray
  old_origin :: farray
  distance :: jsnum
  old_distance :: jsnum
  cpitch :: jsnum
  old_pitch :: jsnum
  cyaw :: jsnum
  old_yaw :: jsnum
  closestDistance :: jsnum
  farthestDistance :: jsnum
  profile_executor_id :: nat
  motions :: nat
  scheduled :: "iteration list"

text \<open>A field of the configuration that is not given is \<open>undefined\<close> (here NaN, which is as false).\<close>

record cam_config =
  cf_origin :: "farray option"
  cf_distance :: jsnum
  cf_pitch :: jsnum
  cf_yaw :: jsnum
  cf_closest :: jsnum
  cf_farthest :: jsnum

definition or_default :: "jsnum \<Rightarrow> jsnum \<Rightarrow> jsnum" where
  "or_default x d = (if truthy x then x else d)"

definition copy3 :: "(jsnum \<Rightarrow> jsnum) \<Rightarrow> farray \<Rightarrow> farray" where
  "copy3 st a = [st (idx a 0), st (idx a 1), st (idx a 2)]"

definition OrbitCam_new :: "(jsnum \<Rightarrow> jsnum) \<Rightarrow> cam_config \<Rightarrow> camera" where
  "OrbitCam_new st config =
     (let o0 = (case cf_origin config of None \<Rightarrow> V3_new st 0 0 0 | Some a \<Rightarrow> copy3 st a);
          d = or_default (cf_distance config) 10;
          p = or_default (cf_pitch config) 0;
          y = or_default (cf_yaw config) 0
      in \<lparr>origin = o0, old_origin = o0, distance = d, old_distance = d, cpitch = p, old_pitch = p,
          cyaw = y, old_yaw = y, closestDistance = or_default (cf_closest config) (Fin 0.1),
          farthestDistance = or_default (cf_farthest config) 100,
          profile_executor_id = 0, motions = 0, scheduled = []\<rparr>)"

definition getConfig :: "(jsnum \<Rightarrow> jsnum) \<Rightarrow> camera \<Rightarrow> cam_config" where
  "getConfig st cam =
     \<lparr>cf_origin = Some (copy3 st (origin cam)), cf_distance = distance cam, cf_pitch = cpitch cam,
      cf_yaw = cyaw cam, cf_closest = closestDistance cam, cf_farthest = farthestDistance cam\<rparr>"

section \<open>The view\<close>

definition getForward :: "(jsnum \<Rightarrow> jsnum) \<Rightarrow> camera \<Rightarrow> farray" where
  "getForward st cam =
     V3_new st (Math_cos (cyaw cam) * Math_cos (cpitch cam)) (Math_sin (cyaw cam) * Math_cos (cpitch cam))
       (Math_sin (cpitch cam))"

definition getLeft :: "(jsnum \<Rightarrow> jsnum) \<Rightarrow> camera \<Rightarrow> farray" where
  "getLeft st cam = V3_new st (- Math_sin (cyaw cam)) (Math_cos (cyaw cam)) 0"

definition getUp :: "(jsnum \<Rightarrow> jsnum) \<Rightarrow> camera \<Rightarrow> farray" where
  "getUp st cam =
     V3_new st (Math_cos (cyaw cam) * Math_sin (- cpitch cam)) (Math_sin (cyaw cam) * Math_sin (- cpitch cam))
       (Math_cos (cpitch cam))"

definition getPosition :: "(jsnum \<Rightarrow> jsnum) \<Rightarrow> camera \<Rightarrow> farray" where
  "getPosition st cam = V3_add st (origin cam) (V3_scale st (getForward st cam) (- distance cam))"

definition getMatrix :: "(jsnum \<Rightarrow> jsnum) \<Rightarrow> camera \<Rightarrow> farray" where
  "getMatrix st cam = M4x4_makeLookAt st (getPosition st cam) (origin cam) (getUp st cam)"

section \<open>Moving the camera\<close>

definition motionCallback :: "camera \<Rightarrow> camera" where
  "motionCallback cam = cam\<lparr>motions := motions cam + 1\<rparr>"

definition setOrigin :: "(jsnum \<Rightarrow> jsnum) \<Rightarrow> farray \<Rightarrow> camera \<Rightarrow> camera" where
  "setOrigin st a cam =
     (let cam = cam\<lparr>origin := a\<rparr>;
          diff_origin = V3_length (V3_sub st (old_origin cam) (origin cam))
      in if diff_origin > distance cam * Fin 0.05
         then motionCallback (cam\<lparr>old_origin := copy3 st (origin cam)\<rparr>) else cam)"

definition setDistance :: "jsnum \<Rightarrow> camera \<Rightarrow> camera" where
  "setDistance d cam =
     (let cam = cam\<lparr>distance := Math_max (closestDistance cam) (Math_min d (farthestDistance cam))\<rparr>;
          diff_distance = Math_abs (old_distance cam - distance cam)
      in if diff_distance > distance cam * Fin 0.05
         then motionCallback (cam\<lparr>old_distance := distance cam\<rparr>) else cam)"

definition goCloser :: "jsnum \<Rightarrow> camera \<Rightarrow> camera" where
  "goCloser step cam = setDistance (distance cam - step) cam"

definition setPitch :: "jsnum \<Rightarrow> camera \<Rightarrow> camera" where
  "setPitch p cam =
     (let cam = cam\<lparr>cpitch := Math_max (- Math_PI / 2) (Math_min p (Math_PI / 2))\<rparr>;
          diff_pitch = Math_abs (old_pitch cam - cpitch cam)
      in if diff_pitch > 5 * Math_PI / 180
         then motionCallback (cam\<lparr>old_pitch := cpitch cam\<rparr>) else cam)"

definition pitch :: "jsnum \<Rightarrow> camera \<Rightarrow> camera" where
  "pitch step cam = setPitch (cpitch cam + step) cam"

definition setYaw :: "jsnum \<Rightarrow> camera \<Rightarrow> camera" where
  "setYaw y cam =
     (let cam = cam\<lparr>cyaw := y\<rparr>;
          diff_yaw = Math_abs (old_yaw cam - cyaw cam)
      in if diff_yaw > 5 * Math_PI / 180
         then motionCallback (cam\<lparr>old_yaw := cyaw cam\<rparr>) else cam)"

definition yaw :: "jsnum \<Rightarrow> camera \<Rightarrow> camera" where
  "yaw step cam = setYaw (cyaw cam + step) cam"

definition addOrigin :: "(jsnum \<Rightarrow> jsnum) \<Rightarrow> farray \<Rightarrow> camera \<Rightarrow> camera" where
  "addOrigin st step cam = setOrigin st (V3_add st (origin cam) step) cam"

definition goForward :: "(jsnum \<Rightarrow> jsnum) \<Rightarrow> jsnum \<Rightarrow> camera \<Rightarrow> camera" where
  "goForward st step cam = addOrigin st (V3_scale st (getForward st cam) step) cam"

definition goLeft :: "(jsnum \<Rightarrow> jsnum) \<Rightarrow> jsnum \<Rightarrow> camera \<Rightarrow> camera" where
  "goLeft st step cam = addOrigin st (V3_scale st (getLeft st cam) step) cam"

definition goUp :: "(jsnum \<Rightarrow> jsnum) \<Rightarrow> jsnum \<Rightarrow> camera \<Rightarrow> camera" where
  "goUp st step cam = addOrigin st (V3_scale st (getUp st cam) step) cam"

section \<open>Flights\<close>

definition distance_getPos :: "distance_profile \<Rightarrow> jsnum \<Rightarrow> jsnum" where
  "distance_getPos p t = (case p of Single q \<Rightarrow> mapped_getPos q t | Double q \<Rightarrow> mapped_double_getPos q t)"

definition distance_setDuration :: "jsnum \<Rightarrow> distance_profile \<Rightarrow> distance_profile" where
  "distance_setDuration d p =
     (case p of Single q \<Rightarrow> Single (mapped_setProfileDuration d q)
      | Double q \<Rightarrow> Double (mapped_double_setProfileDuration d q))"

definition distance_duration :: "distance_profile \<Rightarrow> jsnum" where
  "distance_duration p = (case p of Single q \<Rightarrow> mduration q | Double q \<Rightarrow> mdduration q)"

definition executeProfileIteration :: "(jsnum \<Rightarrow> jsnum) \<Rightarrow> nat \<Rightarrow> jsnum \<Rightarrow> jsnum \<Rightarrow> motion \<Rightarrow> camera \<Rightarrow> camera" where
  "executeProfileIteration st i t d m cam =
     (if profile_executor_id cam \<noteq> i then cam
      else
        (let cam = setPitch (trap_getPos (pitch_profile m) t) cam;
             cam = setYaw (trap_getPos (yaw_profile m) t) cam;
             cam = setDistance (distance_getPos (distance_profile m) t) cam;
             cam = setOrigin st (mapped3d_getPos st (origin_profile m) t) cam;
             next_time = t + 1 / 30
         in if next_time < d
            then cam\<lparr>scheduled := scheduled cam @ [\<lparr>it_id = i, it_time = next_time, it_duration = d, it_motion = m\<rparr>]\<rparr>
            else cam))"

definition executeProfile :: "(jsnum \<Rightarrow> jsnum) \<Rightarrow> jsnum \<Rightarrow> jsnum \<Rightarrow> motion \<Rightarrow> camera \<Rightarrow> camera" where
  "executeProfile st t d m cam =
     (let cam = cam\<lparr>profile_executor_id := profile_executor_id cam + 1\<rparr>
      in executeProfileIteration st (profile_executor_id cam) t d m cam)"

definition stopProfile :: "camera \<Rightarrow> camera" where
  "stopProfile cam = cam\<lparr>profile_executor_id := profile_executor_id cam + 1\<rparr>"

text \<open>The timer of the \<open>i\<close>-th scheduled iteration fires.\<close>

definition tick :: "(jsnum \<Rightarrow> jsnum) \<Rightarrow> nat \<Rightarrow> camera \<Rightarrow> camera" where
  "tick st i cam =
     (let it = scheduled cam ! i;
          cam = cam\<lparr>scheduled := take i (scheduled cam) @ drop (i + 1) (scheduled cam)\<rparr>
      in executeProfileIteration st (it_id it) (it_time it) (it_duration it) (it_motion it) cam)"

text \<open>The profiles of \<open>goto\<close> for the distance and the origin, before they get a common duration.\<close>

definition plan_position :: "(jsnum \<Rightarrow> jsnum) \<Rightarrow> camera \<Rightarrow> camera \<Rightarrow> jsnum \<Rightarrow> distance_profile \<times> mapped3d" where
  "plan_position st goal cam scale =
     (let max_trans_acc = 2 * scale;
          max_trans_vel = 2 * scale;
          origin_distance = V3_length (V3_sub st (origin cam) (origin goal))
      in if origin_distance < distance cam + distance goal then
           (let map_1 = distance cam; map_2 = distance goal;
                distance_time = 4 * Math_abs (distance cam - distance goal) / (distance cam + distance goal);
                origin_time = 4 * origin_distance / (map_1 + map_2)
            in (Single (VelocityProfileMapped (distance cam) (distance goal) (\<lambda>v. mapping1 map_1 map_2 v 3)
                  (max_trans_vel / distance_time) (max_trans_acc / distance_time)),
                VelocityProfileMapped3D st (origin cam) (origin goal) (\<lambda>v. mapping1 map_1 map_2 v 3)
                  (max_trans_vel / origin_time) (max_trans_acc / origin_time)))
         else
           (let map_1 = distance cam; map_2 = 2 * origin_distance; map_3 = distance goal;
                distance_time = 4 * (Math_abs (map_1 - map_2) + Math_abs (map_2 - map_3)) / (map_1 + map_2 + map_3);
                origin_time = 4 * origin_distance / (map_1 + map_2 + map_3)
            in (Double (VelocityProfileMappedDouble (distance cam) (2 * origin_distance) (distance goal)
                  (\<lambda>v. mapping1 map_1 map_2 v 3) (\<lambda>v. mapping1 map_2 map_3 v 3)
                  (max_trans_vel * 2 / distance_time) (max_trans_acc * 2 / distance_time)),
                VelocityProfileMapped3D st (origin cam) (origin goal) mapping2
                  (max_trans_vel / origin_time) (max_trans_acc / origin_time))))"

definition plan_angle :: "jsnum \<Rightarrow> jsnum \<Rightarrow> jsnum \<Rightarrow> trap option" where
  "plan_angle target current scale =
     map_option (\<lambda>d. VelocityProfileTrap current (current + d) (2 * scale) (2 * scale)) (angle_diff target current)"

definition common_duration :: "motion \<Rightarrow> jsnum" where
  "common_duration m =
     Math_max (Math_max (Math_max (duration (pitch_profile m)) (duration (yaw_profile m)))
       (distance_duration (distance_profile m))) (mduration3d (origin_profile m))"

definition set_durations :: "jsnum \<Rightarrow> motion \<Rightarrow> motion" where
  "set_durations d m =
     \<lparr>pitch_profile = trap_setProfileDuration d (pitch_profile m),
      yaw_profile = trap_setProfileDuration d (yaw_profile m),
      distance_profile = distance_setDuration d (distance_profile m),
      origin_profile = mapped3d_setProfileDuration d (origin_profile m)\<rparr>"

text \<open>\<open>goto\<close> without the flight: the profiles and their common duration.\<close>

definition plan :: "(jsnum \<Rightarrow> jsnum) \<Rightarrow> camera \<Rightarrow> jsnum \<Rightarrow> camera \<Rightarrow> (motion \<times> jsnum) option" where
  "plan st goal speed_scale cam =
     (let scale = or_default speed_scale 1
      in case plan_angle (cpitch goal) (cpitch cam) scale of None \<Rightarrow> None
         | Some pp \<Rightarrow>
             (case plan_angle (cyaw goal) (cyaw cam) scale of None \<Rightarrow> None
              | Some yp \<Rightarrow>
                  (let (dp, op) = plan_position st goal cam scale;
                       m = \<lparr>pitch_profile = pp, yaw_profile = yp, distance_profile = dp, origin_profile = op\<rparr>;
                       d = common_duration m
                   in Some (set_durations d m, d))))"

definition goto :: "(jsnum \<Rightarrow> jsnum) \<Rightarrow> camera \<Rightarrow> jsnum \<Rightarrow> camera \<Rightarrow> camera option" where
  "goto st goal speed_scale cam =
     map_option (\<lambda>(m, d). executeProfile st 0 d m cam) (plan st goal speed_scale cam)"

end
