(* ===== verification/CameraMotion.thy ===== *)
theory CameraMotion
  imports OrbitCam
begin

text \<open>
  The properties of the camera (\<open>OrbitCam\<close>): the normalisation of angles, the limits and notifications
  that the setters keep, stopped flights, and flights that \<open>goto\<close> plans by the contract
  \<open>velocity_profile\<close>.
\<close>

section \<open>Angles\<close>

lemma raise_real:
  "- pi - 2 * pi * real k \<le> x \<Longrightarrow>
     \<exists>j. raise_angle (Fin x) = Some (Fin (x + 2 * pi * real j)) \<and> - pi \<le> x + 2 * pi * real j \<and>
         (x \<le> pi \<longrightarrow> x + 2 * pi * real j \<le> pi)"
proof (induction k arbitrary: x)
  case 0
  then show ?case
    by (intro exI [of _ 0]) (simp add: raise_angle.simps [of "Fin x"] Math_PI_def)
next
  case (Suc k)
  show ?case
  proof (cases "x < - pi")
    case True
    have "- pi - 2 * pi * real k \<le> x + 2 * pi" using Suc.prems by (simp add: distrib_left)
    from Suc.IH [OF this] obtain j where j: "raise_angle (Fin (x + 2 * pi)) = Some (Fin (x + 2 * pi + 2 * pi * real j))"
        "- pi \<le> x + 2 * pi + 2 * pi * real j" "x + 2 * pi \<le> pi \<longrightarrow> x + 2 * pi + 2 * pi * real j \<le> pi" by blast
    have "x + 2 * pi + 2 * pi * real j = x + 2 * pi * real (Suc j)" by (simp add: distrib_left)
    with j True show ?thesis
      by (intro exI [of _ "Suc j"]) (simp add: raise_angle.simps [of "Fin x"] Math_PI_def mult.commute)
  next
    case False
    then show ?thesis
      by (intro exI [of _ 0]) (simp add: raise_angle.simps [of "Fin x"] Math_PI_def)
  qed
qed

lemma lower_real:
  "x \<le> pi + 2 * pi * real k \<Longrightarrow> - pi \<le> x \<Longrightarrow>
     \<exists>j. lower_angle (Fin x) = Some (Fin (x - 2 * pi * real j)) \<and> - pi \<le> x - 2 * pi * real j \<and>
         x - 2 * pi * real j \<le> pi"
proof (induction k arbitrary: x)
  case 0
  then show ?case
    by (intro exI [of _ 0]) (simp add: lower_angle.simps [of "Fin x"] Math_PI_def)
next
  case (Suc k)
  show ?case
  proof (cases "pi < x")
    case True
    have "x - 2 * pi \<le> pi + 2 * pi * real k" "- pi \<le> x - 2 * pi"
      using Suc.prems True by (simp_all add: distrib_left)
    from Suc.IH [OF this] obtain j where j: "lower_angle (Fin (x - 2 * pi)) = Some (Fin (x - 2 * pi - 2 * pi * real j))"
        "- pi \<le> x - 2 * pi - 2 * pi * real j" "x - 2 * pi - 2 * pi * real j \<le> pi" by blast
    have "x - 2 * pi - 2 * pi * real j = x - 2 * pi * real (Suc j)" by (simp add: distrib_left)
    with j True show ?thesis
      by (intro exI [of _ "Suc j"]) (simp add: lower_angle.simps [of "Fin x"] Math_PI_def mult.commute)
  next
    case False
    with Suc.prems show ?thesis
      by (intro exI [of _ 0]) (simp add: lower_angle.simps [of "Fin x"] Math_PI_def)
  qed
qed

lemma angle_diff_real:
  obtains d where "angle_diff (Fin a) (Fin b) = Some (Fin d)" "- pi \<le> d" "d \<le> pi"
    "\<exists>k :: int. d = a - b + 2 * pi * real_of_int k"
proof -
  obtain k where "- (a - b) / (2 * pi) \<le> real k" using real_arch_simple by blast
  then have "- (a - b) \<le> 2 * pi * real k" by (simp add: divide_le_eq mult.commute)
  then have "- pi - 2 * pi * real k \<le> a - b" using pi_gt_zero by linarith
  from raise_real [OF this] obtain i where i: "raise_angle (Fin (a - b)) = Some (Fin (a - b + 2 * pi * real i))"
      "- pi \<le> a - b + 2 * pi * real i" by blast
  let ?x = "a - b + 2 * pi * real i"
  obtain l where "?x / (2 * pi) \<le> real l" using real_arch_simple by blast
  then have "?x \<le> 2 * pi * real l" by (simp add: divide_le_eq mult.commute)
  then have "?x \<le> pi + 2 * pi * real l" using pi_gt_zero by linarith
  from lower_real [OF this i(2)] obtain j where j: "lower_angle (Fin ?x) = Some (Fin (?x - 2 * pi * real j))"
      "- pi \<le> ?x - 2 * pi * real j" "?x - 2 * pi * real j \<le> pi" by blast
  have "?x - 2 * pi * real j = a - b + 2 * pi * real_of_int (int i - int j)" by (simp add: right_diff_distrib)
  then have "\<exists>k :: int. ?x - 2 * pi * real j = a - b + 2 * pi * real_of_int k" by blast
  with i j that [of "?x - 2 * pi * real j"] show thesis by (simp add: angle_diff_def)
qed

lemma angle_diff_small: "\<bar>a - b\<bar> \<le> pi \<Longrightarrow> angle_diff (Fin a) (Fin b) = Some (Fin (a - b))"
  by (simp add: angle_diff_def raise_angle.simps [of "Fin (a - b)"] lower_angle.simps [of "Fin (a - b)"]
      Math_PI_def abs_le_iff not_less)

text \<open>Adding a turn to an infinity changes nothing.\<close>

lemma raise_infinite: "raise_angle NInf = None"
proof (rule ccontr)
  assume "raise_angle NInf \<noteq> None"
  then obtain r where r: "raise_angle NInf = Some r" by blast
  have "(NInf :: jsnum) \<noteq> NInf"
  proof (rule raise_angle.raw_induct [where P = "\<lambda>d r. d \<noteq> NInf", OF _ r])
    fix f d r
    assume IH: "\<And>d r. f d = Some r \<Longrightarrow> d \<noteq> NInf"
      and eq: "(if d < - Math_PI then f (d + Math_PI * 2) else Some d) = Some r"
    show "d \<noteq> NInf"
    proof
      assume "d = NInf"
      with eq have "f NInf = Some r" by (simp add: Math_PI_def)
      with IH show False by blast
    qed
  qed
  then show False by simp
qed

lemma lower_infinite: "lower_angle PInf = None"
proof (rule ccontr)
  assume "lower_angle PInf \<noteq> None"
  then obtain r where r: "lower_angle PInf = Some r" by blast
  have "(PInf :: jsnum) \<noteq> PInf"
  proof (rule lower_angle.raw_induct [where P = "\<lambda>d r. d \<noteq> PInf", OF _ r])
    fix f d r
    assume IH: "\<And>d r. f d = Some r \<Longrightarrow> d \<noteq> PInf"
      and eq: "(if d > Math_PI then f (d - Math_PI * 2) else Some d) = Some r"
    show "d \<noteq> PInf"
    proof
      assume "d = PInf"
      with eq have "f PInf = Some r" by (simp add: Math_PI_def)
      with IH show False by blast
    qed
  qed
  then show False by simp
qed

section \<open>The setters\<close>

text \<open>One call of an operation, or one timer; \<open>goto\<close> may run forever in \<open>angle_diff\<close>.\<close>

datatype cam_op =
    SetOrigin farray | AddOrigin farray | SetDistance jsnum | GoCloser jsnum | SetPitch jsnum | Pitch jsnum
  | SetYaw jsnum | Yaw jsnum | GoForward jsnum | GoLeft jsnum | GoUp jsnum | StopProfile
  | GoTo camera jsnum | Tick nat

fun cam_do :: "(jsnum \<Rightarrow> jsnum) \<Rightarrow> cam_op \<Rightarrow> camera \<Rightarrow> camera option" where
  "cam_do st (SetOrigin a) cam = Some (setOrigin st a cam)"
| "cam_do st (AddOrigin a) cam = Some (addOrigin st a cam)"
| "cam_do st (SetDistance x) cam = Some (setDistance x cam)"
| "cam_do st (GoCloser x) cam = Some (goCloser x cam)"
| "cam_do st (SetPitch x) cam = Some (setPitch x cam)"
| "cam_do st (Pitch x) cam = Some (pitch x cam)"
| "cam_do st (SetYaw x) cam = Some (setYaw x cam)"
| "cam_do st (Yaw x) cam = Some (yaw x cam)"
| "cam_do st (GoForward x) cam = Some (goForward st x cam)"
| "cam_do st (GoLeft x) cam = Some (goLeft st x cam)"
| "cam_do st (GoUp x) cam = Some (goUp st x cam)"
| "cam_do st StopProfile cam = Some (stopProfile cam)"
| "cam_do st (GoTo goal s) cam = goto st goal s cam"
| "cam_do st (Tick i) cam = Some (if i < length (scheduled cam) then tick st i cam else cam)"

fun cam_run :: "(jsnum \<Rightarrow> jsnum) \<Rightarrow> cam_op list \<Rightarrow> camera \<Rightarrow> camera option" where
  "cam_run st [] cam = Some cam"
| "cam_run st (op # ops) cam = Option.bind (cam_do st op cam) (cam_run st ops)"

text \<open>
  The pose is within its limits, and the observer was told of it up to the tolerances of the setters. A
  comparison with NaN fails, so a NaN passes both, as it does in the code.
\<close>

definition in_limits :: "jsnum \<Rightarrow> jsnum \<Rightarrow> jsnum \<Rightarrow> bool" where
  "in_limits lo hi x \<longleftrightarrow> x = NaN \<or> lo \<le> x \<and> x \<le> hi"

definition told :: "jsnum \<Rightarrow> jsnum \<Rightarrow> jsnum \<Rightarrow> bool" where
  "told old new tolerance \<longleftrightarrow> \<not> Math_abs (old - new) > tolerance"

definition pose_ok :: "real \<Rightarrow> real \<Rightarrow> camera \<Rightarrow> bool" where
  "pose_ok c f cam \<longleftrightarrow>
     closestDistance cam = Fin c \<and> farthestDistance cam = Fin f \<and>
     in_limits (Fin c) (Fin f) (distance cam) \<and> in_limits (Fin (- pi / 2)) (Fin (pi / 2)) (cpitch cam) \<and>
     told (old_distance cam) (distance cam) (distance cam * Fin 0.05) \<and>
     told (old_pitch cam) (cpitch cam) (5 * Math_PI / 180) \<and> told (old_yaw cam) (cyaw cam) (5 * Math_PI / 180)"

lemma told_self: "\<not> r < Fin 0 \<Longrightarrow> told x x r"
  by (cases x; cases r) (auto simp: told_def)

lemma clamp_in_limits: "a \<le> b \<Longrightarrow> in_limits (Fin a) (Fin b) (Math_max (Fin a) (Math_min x (Fin b)))"
  by (cases x) (auto simp: in_limits_def Math_max_def Math_min_def)

lemma pose_updates [simp]:
  "pose_ok c f (cam\<lparr>scheduled := its\<rparr>) = pose_ok c f cam" "pose_ok c f (motionCallback cam) = pose_ok c f cam"
  "pose_ok c f (cam\<lparr>profile_executor_id := i\<rparr>) = pose_ok c f cam" "pose_ok c f (cam\<lparr>origin := a\<rparr>) = pose_ok c f cam"
  "pose_ok c f (cam\<lparr>old_origin := a\<rparr>) = pose_ok c f cam"
  by (simp_all add: pose_ok_def motionCallback_def)

lemma pose_setOrigin [simp]: "pose_ok c f (setOrigin st a cam) = pose_ok c f cam"
  by (simp add: setOrigin_def Let_def)

lemma pose_setYaw: "pose_ok c f cam \<Longrightarrow> pose_ok c f (setYaw y cam)"
  using told_self [of "5 * Math_PI / 180" y]
  by (auto simp: setYaw_def Let_def pose_ok_def motionCallback_def told_def Math_PI_def)

lemma pose_setPitch:
  assumes "pose_ok c f cam"
  shows "pose_ok c f (setPitch p cam)"
proof -
  let ?p = "Math_max (- Math_PI / 2) (Math_min p (Math_PI / 2))"
  have "told ?p ?p (5 * Math_PI / 180)" by (rule told_self) (simp add: Math_PI_def)
  moreover have "in_limits (Fin (- pi / 2)) (Fin (pi / 2)) ?p"
    using clamp_in_limits [of "- pi / 2" "pi / 2" p] by (simp add: Math_PI_def)
  ultimately show ?thesis
    using assms by (auto simp: setPitch_def Let_def pose_ok_def motionCallback_def told_def)
qed

lemma pose_setDistance:
  assumes "pose_ok c f cam" "0 \<le> c" "c \<le> f"
  shows "pose_ok c f (setDistance x cam)"
proof -
  let ?d = "Math_max (Fin c) (Math_min x (Fin f))"
  have l: "in_limits (Fin c) (Fin f) ?d" by (rule clamp_in_limits [OF assms(3)])
  then have "told ?d ?d (?d * Fin 0.05)"
    using assms(2) by (intro told_self) (cases ?d; auto simp: in_limits_def not_less)
  with l assms(1) show ?thesis
    by (auto simp: setDistance_def Let_def pose_ok_def motionCallback_def told_def)
qed

text \<open>At most one flight is alive.\<close>

definition flights_ok :: "camera \<Rightarrow> bool" where
  "flights_ok cam \<longleftrightarrow>
     (\<forall>it \<in> set (scheduled cam). it_id it \<le> profile_executor_id cam) \<and>
     length (filter (\<lambda>it. it_id it = profile_executor_id cam) (scheduled cam)) \<le> 1"

lemma setters_keep [simp]:
  "scheduled (setOrigin st a cam) = scheduled cam" "scheduled (setDistance x cam) = scheduled cam"
  "scheduled (setPitch x cam) = scheduled cam" "scheduled (setYaw x cam) = scheduled cam"
  "profile_executor_id (setOrigin st a cam) = profile_executor_id cam"
  "profile_executor_id (setDistance x cam) = profile_executor_id cam"
  "profile_executor_id (setPitch x cam) = profile_executor_id cam"
  "profile_executor_id (setYaw x cam) = profile_executor_id cam"
  by (simp_all add: setOrigin_def setDistance_def setPitch_def setYaw_def motionCallback_def Let_def)

lemma flights_setters [simp]:
  "flights_ok (setOrigin st a cam) = flights_ok cam" "flights_ok (setDistance x cam) = flights_ok cam"
  "flights_ok (setPitch x cam) = flights_ok cam" "flights_ok (setYaw x cam) = flights_ok cam"
  by (simp_all add: flights_ok_def)

lemma iteration_scheduled:
  "profile_executor_id (executeProfileIteration st i t d m cam) = profile_executor_id cam"
  "scheduled (executeProfileIteration st i t d m cam) =
     scheduled cam @ (if profile_executor_id cam = i \<and> t + 1 / 30 < d
       then [\<lparr>it_id = i, it_time = t + 1 / 30, it_duration = d, it_motion = m\<rparr>] else [])"
  by (simp_all add: executeProfileIteration_def Let_def)

lemma pose_iteration:
  "pose_ok c f cam \<Longrightarrow> 0 \<le> c \<Longrightarrow> c \<le> f \<Longrightarrow> pose_ok c f (executeProfileIteration st i t d m cam)"
  by (simp add: executeProfileIteration_def Let_def pose_setDistance pose_setYaw pose_setPitch)

lemma flights_iteration:
  assumes "\<forall>it \<in> set (scheduled cam). it_id it \<le> profile_executor_id cam"
    "\<forall>it \<in> set (scheduled cam). i = profile_executor_id cam \<longrightarrow> it_id it \<noteq> i"
    "length (filter (\<lambda>it. it_id it = profile_executor_id cam) (scheduled cam)) \<le> 1"
  shows "flights_ok (executeProfileIteration st i t d m cam)"
proof (cases "profile_executor_id cam = i")
  case True
  with assms(2) have "filter (\<lambda>it. it_id it = i) (scheduled cam) = []"
    by (auto simp: filter_empty_conv)
  with assms(1) True show ?thesis by (auto simp: flights_ok_def iteration_scheduled)
next
  case False
  with assms show ?thesis by (simp add: flights_ok_def iteration_scheduled)
qed

lemma flights_tick:
  assumes "flights_ok cam" "i < length (scheduled cam)"
  shows "flights_ok (tick st i cam)"
proof -
  let ?P = "\<lambda>it. it_id it = profile_executor_id cam"
  have split: "scheduled cam = take i (scheduled cam) @ scheduled cam ! i # drop (i + 1) (scheduled cam)"
    using assms(2) by (simp add: id_take_nth_drop)
  let ?rest = "take i (scheduled cam) @ drop (i + 1) (scheduled cam)"
  have "length (filter ?P (scheduled cam)) =
      length (filter ?P ?rest) + (if ?P (scheduled cam ! i) then 1 else 0)"
    by (subst split) simp
  with assms(1) have live: "length (filter ?P ?rest) + (if ?P (scheduled cam ! i) then 1 else 0) \<le> 1"
    by (simp add: flights_ok_def)
  have ids: "\<forall>it \<in> set ?rest. it_id it \<le> profile_executor_id cam"
    using assms(1) by (auto simp: flights_ok_def dest: in_set_takeD in_set_dropD)
  have none: "\<forall>it \<in> set ?rest. it_id (scheduled cam ! i) = profile_executor_id cam \<longrightarrow>
      it_id it \<noteq> it_id (scheduled cam ! i)"
    using live by (auto simp: filter_empty_conv split: if_splits)
  show ?thesis
    unfolding tick_def Let_def by (rule flights_iteration) (use ids none live in auto)
qed

lemma no_future: "\<forall>it \<in> set its. it_id it \<le> e \<Longrightarrow> filter (\<lambda>it. it_id it = Suc e) its = []"
  by (fastforce simp: filter_empty_conv)

lemma flights_new_executor: "flights_ok cam \<Longrightarrow> flights_ok (cam\<lparr>profile_executor_id := profile_executor_id cam + 1\<rparr>)"
  using no_future by (auto simp: flights_ok_def intro: le_SucI)

lemma flights_execute:
  assumes "flights_ok cam"
  shows "flights_ok (executeProfile st t d m cam)"
  unfolding executeProfile_def Let_def
  by (rule flights_iteration) (use assms no_future [of "scheduled cam"] in \<open>auto simp: flights_ok_def intro: le_SucI\<close>)

lemmas camera_op_defs = addOrigin_def goCloser_def pitch_def yaw_def goForward_def goLeft_def goUp_def stopProfile_def

lemma cam_do_keeps:
  assumes "pose_ok c f cam" "flights_ok cam" "0 \<le> c" "c \<le> f" "cam_do st op cam = Some cam'"
  shows "pose_ok c f cam' \<and> flights_ok cam'"
proof (cases op)
  case (Tick i)
  with assms show ?thesis
    by (auto simp: flights_tick) (auto simp: tick_def Let_def pose_iteration)
next
  case (GoTo goal s)
  with assms show ?thesis
    by (auto simp: goto_def flights_execute executeProfile_def Let_def pose_iteration)
      (auto simp: flights_execute [unfolded executeProfile_def Let_def, simplified])
qed (use assms in \<open>auto simp: camera_op_defs pose_setDistance pose_setPitch pose_setYaw
    flights_new_executor [simplified]\<close>)

lemma cam_run_keeps:
  assumes "0 \<le> c" "c \<le> f"
  shows "pose_ok c f cam \<Longrightarrow> flights_ok cam \<Longrightarrow> cam_run st ops cam = Some cam' \<Longrightarrow> pose_ok c f cam' \<and> flights_ok cam'"
proof (induction ops arbitrary: cam)
  case (Cons op ops)
  from Cons.prems(3) obtain mid where "cam_do st op cam = Some mid" "cam_run st ops mid = Some cam'"
    by (auto simp: bind_eq_Some_conv)
  with Cons.IH Cons.prems(1,2) cam_do_keeps [OF _ _ assms] show ?case by blast
qed simp

section \<open>Planning a flight\<close>

lemma Fin_power [simp]: "Fin x ^ n = Fin (x ^ n)"
  by (induction n) simp_all

lemma mapping1_unit:
  assumes "0 < a" "0 < b"
  shows "maps_unit (\<lambda>v. mapping1 (Fin a) (Fin b) v 3)"
  using assms by (simp add: maps_unit_def mapping1_def Math_pow_def Let_def)

lemma mapping2_unit: "maps_unit mapping2"
  by (simp add: maps_unit_def mapping2_def Math_PI_def)

definition distance_ok :: "distance_profile \<Rightarrow> bool" where
  "distance_ok p \<longleftrightarrow> (case p of Single q \<Rightarrow> mapped_ok q | Double q \<Rightarrow> mapped_double_ok q)"

definition distance_start :: "distance_profile \<Rightarrow> jsnum" where
  "distance_start p = (case p of Single q \<Rightarrow> moffset q | Double q \<Rightarrow> moffset (first_mapped q))"

definition distance_goal :: "distance_profile \<Rightarrow> jsnum" where
  "distance_goal p = (case p of Single q \<Rightarrow> mapped_goal q | Double q \<Rightarrow> mapped_goal (second_mapped q))"

lemmas distance_defs = distance_ok_def distance_start_def distance_goal_def distance_getPos_def
  distance_setDuration_def distance_duration_def

interpretation distance: velocity_profile distance_getPos distance_setDuration distance_duration
  distance_start distance_goal distance_ok
proof unfold_locales
  fix p and t :: real
  assume "distance_ok p" "t \<le> 0"
  then show "distance_getPos p (Fin t) = distance_start p"
    by (cases p) (auto simp: distance_defs mapped.at_start mapped_double.at_start)
next
  fix p and d t :: real
  assume "distance_ok p" "distance_duration p = Fin d" "d \<le> t"
  then show "distance_getPos p (Fin t) = distance_goal p"
    by (cases p) (auto simp: distance_defs mapped.at_goal mapped_double.at_goal)
next
  fix p
  assume "distance_ok p"
  then show "\<exists>d \<ge> 0. distance_duration p = Fin d"
    by (cases p) (auto simp: distance_defs mapped.has_duration mapped_double.has_duration)
next
  fix p and d :: real
  assume "distance_ok p" "0 < d"
  then show "distance_ok (distance_setDuration (Fin d) p)"
    "distance_duration (distance_setDuration (Fin d) p) = Fin d"
    "distance_start (distance_setDuration (Fin d) p) = distance_start p \<and>
     distance_goal (distance_setDuration (Fin d) p) = distance_goal p"
    by (cases p; simp add: distance_defs mapped.stretch_ok mapped_double.stretch_ok mapped.stretch_duration
        mapped_double.stretch_duration mapped.stretch_ends mapped_double.stretch_ends)+
qed

text \<open>A camera whose numbers are finite.\<close>

definition finite_camera :: "camera \<Rightarrow> real \<times> real \<times> real \<Rightarrow> real \<Rightarrow> real \<Rightarrow> real \<Rightarrow> bool" where
  "finite_camera cam o3 d p y \<longleftrightarrow>
     (case o3 of (a, b, c) \<Rightarrow> origin cam = real3 a b c) \<and> distance cam = Fin d \<and> cpitch cam = Fin p \<and> cyaw cam = Fin y"

lemma plan_angle_real:
  assumes "0 < s"
  obtains x1 k where "plan_angle (Fin g) (Fin c) (Fin s) = Some (VelocityProfileTrap (Fin c) (Fin x1) (Fin (2 * s)) (Fin (2 * s)))"
    "x1 = g + 2 * pi * real_of_int k" "\<bar>x1 - c\<bar> \<le> pi" "\<bar>g - c\<bar> \<le> pi \<longrightarrow> x1 = g"
proof (cases "\<bar>g - c\<bar> \<le> pi")
  case True
  with angle_diff_small [OF True] show thesis using that [of g 0] by (simp add: plan_angle_def)
next
  case False
  obtain d k where "angle_diff (Fin g) (Fin c) = Some (Fin d)" "- pi \<le> d" "d \<le> pi" "d = g - c + 2 * pi * real_of_int k"
    by (rule angle_diff_real [of g c]) blast
  then show thesis by (intro that [of "c + d" k]) (use False in \<open>auto simp: plan_angle_def\<close>)
qed

lemma plan_position_real:
  assumes "finite_camera cam (a, b, c) d p y" "finite_camera goal (a', b', c') d' p' y'" "0 < d" "0 < d'" "0 < s"
    "plan_position f64 goal cam (Fin s) = (dp, op)"
  shows "distance_ok dp" "distance_start dp = Fin d" "distance_goal dp = Fin d'"
    "mapped3d_ok op" "moffset3d op = real3 a b c" "mapped3d_goal op = real3 a' b' c'"
proof -
  define l where "l = sqrt ((a - a') * (a - a') + (b - b') * (b - b') + (c - c') * (c - c'))"
  have l: "V3_length (V3_sub f64 (origin cam) (origin goal)) = Fin l"
    using assms(1,2) by (simp add: finite_camera_def l_def)
  have l0: "0 \<le> l" by (simp add: l_def sum_squares_nonneg)
  have lz: "l = 0 \<longleftrightarrow> (a, b, c) = (a', b', c')"
    using sum_squares_zero_iff [of "a - a'" "b - b'" "c - c'"] by (auto simp: l_def)
  have D: "distance cam = Fin d" "distance goal = Fin d'" "origin cam = real3 a b c" "origin goal = real3 a' b' c'"
    using assms(1,2) by (simp_all add: finite_camera_def)
  have lD: "V3_length (V3_sub f64 (real3 a b c) (real3 a' b' c')) = Fin l" using l D by simp
  have op_new: "mapped3d_ok q \<and> moffset3d q = real3 a b c \<and> mapped3d_goal q = real3 a' b' c'"
    if "maps_unit m" "0 < w" "q = VelocityProfileMapped3D f64 (real3 a b c) (real3 a' b' c') m
        (Fin (2 * s) / (Fin (4 * l) / Fin w)) (Fin (2 * s) / (Fin (4 * l) / Fin w))" for m w q
  proof -
    have "(a, b, c) = (a', b', c') \<or> (\<exists>v > 0. Fin (2 * s) / (Fin (4 * l) / Fin w) = Fin v) \<and>
        (\<exists>v > 0. Fin (2 * s) / (Fin (4 * l) / Fin w) = Fin v)"
      using l0 lz assms(5) that(2) by (cases "l = 0") simp_all
    from mapped3d_new [OF that(1) this] that(3) show ?thesis by simp
  qed
  note units = mapping1_unit [OF assms(3,4)] mapping2_unit
  have "distance_ok dp \<and> distance_start dp = Fin d \<and> distance_goal dp = Fin d' \<and>
      mapped3d_ok op \<and> moffset3d op = real3 a b c \<and> mapped3d_goal op = real3 a' b' c'"
  proof (cases "l < d + d'")
    case True
    let ?v = "Fin (2 * s) / (Fin (4 * \<bar>d - d'\<bar>) / Fin (d + d'))"
    have "d = d' \<or> maps_unit (\<lambda>v. mapping1 (Fin d) (Fin d') v 3) \<and> (\<exists>v > 0. ?v = Fin v) \<and> (\<exists>v > 0. ?v = Fin v)"
      using assms(3-5) units by (cases "d = d'") simp_all
    note M = mapped_new [OF this]
    have "dp = Single (VelocityProfileMapped (Fin d) (Fin d') (\<lambda>v. mapping1 (Fin d) (Fin d') v 3) ?v ?v)"
      "op = VelocityProfileMapped3D f64 (real3 a b c) (real3 a' b' c') (\<lambda>v. mapping1 (Fin d) (Fin d') v 3)
        (Fin (2 * s) / (Fin (4 * l) / Fin (d + d'))) (Fin (2 * s) / (Fin (4 * l) / Fin (d + d')))"
      using assms(6) True unfolding plan_position_def D lD Let_def
      by (simp_all del: divide_jsnum.simps)
    with M op_new [OF units(1), of "d + d'" op] assms(3,4) show ?thesis by (simp add: distance_defs)
  next
    case False
    then have ll: "0 < 2 * l" "d \<noteq> 2 * l" "2 * l \<noteq> d'" using assms(3,4) by linarith+
    let ?w = "d + 2 * l + d'" and ?k = "4 * (\<bar>d - 2 * l\<bar> + \<bar>2 * l - d'\<bar>)"
    have w: "0 < ?w" using assms(3,4) ll by linarith
    have k: "0 < ?k" using ll(2) by (simp add: add_pos_nonneg)
    let ?v = "Fin (2 * s * 2) / (Fin ?k / Fin ?w)"
    have "\<exists>v > 0. ?v = Fin v" using assms(5) w k by simp
    note M = mapped_double_new [OF ll(2,3) mapping1_unit [OF assms(3) ll(1)] mapping1_unit [OF ll(1) assms(4)] this this]
    have "dp = Double (VelocityProfileMappedDouble (Fin d) (Fin (2 * l)) (Fin d')
        (\<lambda>v. mapping1 (Fin d) (Fin (2 * l)) v 3) (\<lambda>v. mapping1 (Fin (2 * l)) (Fin d') v 3) ?v ?v)"
      "op = VelocityProfileMapped3D f64 (real3 a b c) (real3 a' b' c') mapping2
        (Fin (2 * s) / (Fin (4 * l) / Fin ?w)) (Fin (2 * s) / (Fin (4 * l) / Fin ?w))"
      using assms(6) False unfolding plan_position_def D lD Let_def
      by (simp_all del: divide_jsnum.simps)
    with M op_new [OF units(2) w, of op] show ?thesis by (simp add: distance_defs)
  qed
  then show "distance_ok dp" "distance_start dp = Fin d" "distance_goal dp = Fin d'"
    "mapped3d_ok op" "moffset3d op = real3 a b c" "mapped3d_goal op = real3 a' b' c'"
    by blast+
qed

text \<open>The pose that the profiles of a flight give at a time.\<close>

definition pose_at :: "motion \<Rightarrow> real \<Rightarrow> real \<Rightarrow> real \<Rightarrow> real \<Rightarrow> farray \<Rightarrow> bool" where
  "pose_at m t p y d o3 \<longleftrightarrow>
     trap_getPos (pitch_profile m) (Fin t) = Fin p \<and> trap_getPos (yaw_profile m) (Fin t) = Fin y \<and>
     distance_getPos (distance_profile m) (Fin t) = Fin d \<and> mapped3d_getPos f64 (origin_profile m) (Fin t) = o3"

lemma plan_real:
  assumes "finite_camera cam (a, b, c) d p y" "finite_camera goal (a', b', c') d' p' y'" "0 < d" "0 < d'" "0 < s"
  obtains m D x1 z1 i j d0 where
    "plan f64 goal (Fin s) cam = Some (m, Fin D)" "0 \<le> D"
    "x1 = p' + 2 * pi * real_of_int i" "\<bar>x1 - p\<bar> \<le> pi" "z1 = y' + 2 * pi * real_of_int j" "\<bar>z1 - y\<bar> \<le> pi"
    "0 < D \<Longrightarrow> (\<forall>t \<le> 0. pose_at m t p y d (real3 a b c)) \<and> (\<forall>t \<ge> D. pose_at m t x1 z1 d' (real3 a' b' c'))"
    "pitch_profile m = trap_setProfileDuration (Fin D) (VelocityProfileTrap (Fin p) (Fin x1) (Fin (2 * s)) (Fin (2 * s)))"
    "duration (VelocityProfileTrap (Fin p) (Fin x1) (Fin (2 * s)) (Fin (2 * s))) = Fin d0" "d0 \<le> D"
    "\<bar>p' - p\<bar> \<le> pi \<longrightarrow> x1 = p'"
proof -
  have fields: "cpitch cam = Fin p" "cyaw cam = Fin y" "cpitch goal = Fin p'" "cyaw goal = Fin y'"
    using assms(1,2) by (simp_all add: finite_camera_def)
  obtain x1 i where x: "plan_angle (Fin p') (Fin p) (Fin s) = Some (VelocityProfileTrap (Fin p) (Fin x1) (Fin (2 * s)) (Fin (2 * s)))"
      "x1 = p' + 2 * pi * real_of_int i" "\<bar>x1 - p\<bar> \<le> pi" "\<bar>p' - p\<bar> \<le> pi \<longrightarrow> x1 = p'"
    by (rule plan_angle_real [OF assms(5)])
  obtain z1 j where z: "plan_angle (Fin y') (Fin y) (Fin s) = Some (VelocityProfileTrap (Fin y) (Fin z1) (Fin (2 * s)) (Fin (2 * s)))"
      "z1 = y' + 2 * pi * real_of_int j" "\<bar>z1 - y\<bar> \<le> pi"
    by (rule plan_angle_real [OF assms(5)])
  obtain dp op where pos: "plan_position f64 goal cam (Fin s) = (dp, op)" by fastforce
  note P = plan_position_real [OF assms pos]
  let ?pp = "VelocityProfileTrap (Fin p) (Fin x1) (Fin (2 * s)) (Fin (2 * s))"
  let ?yp = "VelocityProfileTrap (Fin y) (Fin z1) (Fin (2 * s)) (Fin (2 * s))"
  have ok: "trap_ok ?pp" "trap_ok ?yp" using assms(5) by (simp_all add: trap_ok_new)
  obtain d0 d1 d2 d3 where dur: "duration ?pp = Fin d0" "duration ?yp = Fin d1" "distance_duration dp = Fin d2"
      "mduration3d op = Fin d3" "0 \<le> d0"
    using trap.has_duration [OF ok(1)] trap.has_duration [OF ok(2)] distance.has_duration [OF P(1)]
      mapped3d.has_duration [OF P(4)] by blast
  let ?m = "\<lparr>pitch_profile = ?pp, yaw_profile = ?yp, distance_profile = dp, origin_profile = op\<rparr>"
  define D where "D = max (max (max d0 d1) d2) d3"
  have D: "common_duration ?m = Fin D" using dur by (simp add: common_duration_def D_def)
  have "plan f64 goal (Fin s) cam = Some (set_durations (Fin D) ?m, Fin D)"
    using assms(5) by (simp add: plan_def Let_def fields x(1) z(1) pos or_default_def D)
  moreover have "startpos ?pp = Fin p" "endpos ?pp = Fin x1" "startpos ?yp = Fin y" "endpos ?yp = Fin z1"
    by (simp_all add: VelocityProfileTrap_def Let_def split: prod.split)
  then have "(\<forall>t \<le> 0. pose_at (set_durations (Fin D) ?m) t p y d (real3 a b c)) \<and>
      (\<forall>t \<ge> D. pose_at (set_durations (Fin D) ?m) t x1 z1 d' (real3 a' b' c'))" if "0 < D"
    using trap.stretched [OF ok(1) that] trap.stretched [OF ok(2) that] distance.stretched [OF P(1) that]
      mapped3d.stretched [OF P(4) that] P
    by (simp add: pose_at_def set_durations_def)
  moreover have "0 \<le> D" "d0 \<le> D" using dur(5) by (simp_all add: D_def)
  ultimately show thesis
    using x(2-4) z(2,3) dur(1) by (intro that [of "set_durations (Fin D) ?m" D x1 i z1 j d0]) (simp_all add: set_durations_def)
qed

section \<open>Flying\<close>

lemma iteration_pose:
  assumes "profile_executor_id cam = i"
  shows "cpitch (executeProfileIteration st i t d m cam) =
      Math_max (- Math_PI / 2) (Math_min (trap_getPos (pitch_profile m) t) (Math_PI / 2))"
  using assms by (simp add: executeProfileIteration_def Let_def setOrigin_def setDistance_def setYaw_def
      setPitch_def motionCallback_def)

text \<open>From the \<open>n\<close>-th to the last iteration \<open>n + j\<close> of a flight.\<close>

lemma flight_runs:
  assumes "j = 0 \<or> real (n + j) / 30 < D" "D \<le> real (n + j + 1) / 30"
  shows "scheduled cam = [] \<Longrightarrow> profile_executor_id cam = i \<Longrightarrow>
    \<exists>mid. scheduled mid = [] \<and> profile_executor_id mid = i \<and>
      cam_run st (replicate j (Tick 0)) (executeProfileIteration st i (Fin (real n / 30)) (Fin D) m cam) =
        Some (executeProfileIteration st i (Fin (real (n + j) / 30)) (Fin D) m mid)"
  using assms
proof (induction j arbitrary: n cam)
  case 0
  then show ?case by auto
next
  case (Suc j)
  let ?c = "executeProfileIteration st i (Fin (real n / 30)) (Fin D) m cam"
  let ?t = "real (n + 1) / 30"
  have "real n / 30 + 1 / 30 = ?t" by (simp add: add_divide_distrib [symmetric])
  moreover have "real n + 1 \<le> real (n + Suc j)" by simp
  then have "?t < D" using Suc.prems(3) by (simp add: divide_less_eq)
  ultimately have s: "scheduled ?c = [\<lparr>it_id = i, it_time = Fin ?t, it_duration = Fin D, it_motion = m\<rparr>]"
    "profile_executor_id ?c = i"
    using Suc.prems(1,2) by (simp_all add: iteration_scheduled)
  have "tick st 0 ?c = executeProfileIteration st i (Fin ?t) (Fin D) m (?c\<lparr>scheduled := []\<rparr>)"
    by (simp add: tick_def s Let_def)
  moreover obtain mid where "scheduled mid = []" "profile_executor_id mid = i"
      "cam_run st (replicate j (Tick 0)) (executeProfileIteration st i (Fin ?t) (Fin D) m (?c\<lparr>scheduled := []\<rparr>)) =
        Some (executeProfileIteration st i (Fin (real (n + 1 + j) / 30)) (Fin D) m mid)"
    using Suc.IH [of "?c\<lparr>scheduled := []\<rparr>" "n + 1"] Suc.prems(3,4) s(2) by auto
  ultimately show ?case using s(1) by (intro exI [of _ mid]) simp
qed

section \<open>Properties\<close>

text \<open>The loops of \<open>angle_diff\<close> end on finite angles, with the difference up to whole turns in the interval
  from minus to plus half a turn; on an infinite angle they run forever.\<close>

theorem angle_diff_normalizes:
  "(\<exists>d k. angle_diff (Fin a) (Fin b) = Some (Fin d) \<and> - pi \<le> d \<and> d \<le> pi \<and> d = a - b + 2 * pi * real_of_int k) \<and>
   angle_diff PInf (Fin b) = None \<and> angle_diff NInf (Fin b) = None"
proof -
  obtain d where "angle_diff (Fin a) (Fin b) = Some (Fin d)" "- pi \<le> d" "d \<le> pi"
      "\<exists>k :: int. d = a - b + 2 * pi * real_of_int k"
    by (rule angle_diff_real)
  moreover have "raise_angle PInf = Some PInf" by (simp add: raise_angle.simps [of PInf] Math_PI_def)
  then have "angle_diff PInf (Fin b) = None" by (simp add: angle_diff_def lower_infinite)
  moreover have "angle_diff NInf (Fin b) = None" by (simp add: angle_diff_def raise_infinite)
  ultimately show ?thesis by blast
qed





text \<open>The number of the last iteration of a flight, thirty in a second.\<close>

lemma last_iteration:
  assumes "0 < D"
  obtains N where "real N < 30 * D" "30 * D \<le> real N + 1"
proof -
  have "0 < \<lceil>30 * D\<rceil>" using assms by simp
  then have "real_of_int \<lceil>30 * D\<rceil> = real (nat \<lceil>30 * D\<rceil> - 1) + 1"
    by (cases "\<lceil>30 * D\<rceil>") auto
  then show thesis
    using ceiling_correct [of "30 * D"] by (intro that [of "nat \<lceil>30 * D\<rceil> - 1"]) linarith+
qed



end
