(* ===== verification/JsText.thy ===== *)
theory JsText
  imports JsNumber "HOL-Library.Sublist"
begin

text \<open>
  The strings of the program and what it uses of the language for them: \<open>split\<close>, \<open>parseFloat\<close>,
  \<open>parseInt\<close> and the text of a number. A string is a list of characters; characters above
  \<open>U+00FF\<close> are not modelled (the files and links the program reads are ASCII).

  The text of a number is its exact decimal expansion, in the notation that JavaScript chooses by
  its size. It is \<open>None\<close> for a real number that has none within 1100 decimals, which no double
  is. \<open>parse_number_string\<close> is the round trip: reading the text of a number gives the number back.
\<close>

section \<open>Splitting\<close>

text \<open>\<open>cut sep s\<close>: what is before and after the first occurrence of the separator.\<close>

fun cut :: "string \<Rightarrow> string \<Rightarrow> (string \<times> string) option" where
  "cut sep [] = None"
| "cut sep (c # cs) =
     (if prefix sep (c # cs) then Some ([], drop (length sep) (c # cs))
      else map_option (\<lambda>(a, b). (c # a, b)) (cut sep cs))"

lemma cut_shorter: "cut sep s = Some (a, b) \<Longrightarrow> sep \<noteq> [] \<Longrightarrow> length b < length s"
proof (induction sep s arbitrary: a b rule: cut.induct)
  case (2 sep c cs)
  then show ?case
    by (cases "prefix sep (c # cs)") (auto intro: less_SucI)
qed simp

function js_split :: "string \<Rightarrow> string \<Rightarrow> string list" where
  "js_split sep s =
     (if sep = [] then map (\<lambda>c. [c]) s
      else (case cut sep s of None \<Rightarrow> [s] | Some (a, b) \<Rightarrow> a # js_split sep b))"
  by pat_completeness auto
termination
  by (relation "measure (\<lambda>(sep, s). length s)") (auto dest: cut_shorter)

declare js_split.simps [simp del]

lemma cut_char_None [simp]: "c \<notin> set s \<Longrightarrow> cut [c] s = None"
  by (induction s) auto

lemma cut_char_Some [simp]: "c \<notin> set a \<Longrightarrow> cut [c] (a @ c # b) = Some (a, b)"
  by (induction a) auto

lemma js_split_last: "c \<notin> set s \<Longrightarrow> js_split [c] s = [s]"
  by (simp add: js_split.simps)

text \<open>How \<open>split\<close> evaluates on a given string.\<close>

lemma js_split_eval:
  "sep \<noteq> [] \<Longrightarrow> cut sep s = None \<Longrightarrow> js_split sep s = [s]"
  "sep \<noteq> [] \<Longrightarrow> cut sep s = Some p \<Longrightarrow> js_split sep s = fst p # js_split sep (snd p)"
  by (simp_all add: js_split.simps [of sep s] split: prod.split)

lemma js_split_append: "c \<notin> set a \<Longrightarrow> js_split [c] (a @ c # b) = a # js_split [c] b"
  by (subst js_split.simps) simp

lemma js_split_not_Nil [simp]: "s \<noteq> [] \<or> sep \<noteq> [] \<Longrightarrow> js_split sep s \<noteq> []"
  by (subst js_split.simps) (auto split: option.splits)

text \<open>\<open>join sep parts\<close>: each part followed by the separator (the way the program builds its lists).\<close>

definition each_then :: "char \<Rightarrow> string list \<Rightarrow> string" where
  "each_then c parts = concat (map (\<lambda>p. p @ [c]) parts)"

lemma js_split_each_then:
  assumes "\<And>p. p \<in> set parts \<Longrightarrow> c \<notin> set p" and "c \<notin> set z"
  shows "js_split [c] (each_then c parts @ z) = parts @ [z]"
  using assms by (induction parts) (simp_all add: each_then_def js_split_last js_split_append)

section \<open>Values that may be absent\<close>

datatype qvalue = Null | Undefined | Text string

text \<open>\<open>null\<close> and \<open>undefined\<close> as the text that \<open>parseFloat\<close> reads.\<close>

fun value_text :: "qvalue \<Rightarrow> string" where
  "value_text Null = ''null''"
| "value_text Undefined = ''undefined''"
| "value_text (Text s) = s"

definition nth_value :: "string list \<Rightarrow> nat \<Rightarrow> qvalue" where
  "nth_value parts i = (if i < length parts then Text (parts ! i) else Undefined)"

section \<open>Reading numbers\<close>

definition is_digit :: "char \<Rightarrow> bool" where
  "is_digit c \<longleftrightarrow> 48 \<le> (of_char c :: nat) \<and> (of_char c :: nat) \<le> 57"

definition digit_value :: "char \<Rightarrow> nat" where
  "digit_value c = of_char c - 48"

definition digits_value :: "string \<Rightarrow> nat" where
  "digits_value s = foldl (\<lambda>n c. 10 * n + digit_value c) 0 s"

text \<open>White space and line ends of the language, within Latin-1.\<close>

definition is_space :: "char \<Rightarrow> bool" where
  "is_space c \<longleftrightarrow> (of_char c :: nat) \<in> {9, 10, 11, 12, 13, 32, 160}"

definition span_digits :: "string \<Rightarrow> string \<times> string" where
  "span_digits s = (takeWhile is_digit s, dropWhile is_digit s)"

definition read_exponent :: "string \<Rightarrow> int" where
  "read_exponent s =
     (case s of
        [] \<Rightarrow> 0
      | e # r \<Rightarrow>
          if e = CHR ''e'' \<or> e = CHR ''E'' then
            (case r of
               [] \<Rightarrow> 0
             | sg # d \<Rightarrow>
                 if sg = CHR ''-'' then - int (digits_value (fst (span_digits d)))
                 else if sg = CHR ''+'' then int (digits_value (fst (span_digits d)))
                 else int (digits_value (fst (span_digits r))))
          else 0)"

definition read_fraction :: "string \<Rightarrow> string \<times> string" where
  "read_fraction s = (case s of c # r \<Rightarrow> if c = CHR ''.'' then span_digits r else ([], s) | [] \<Rightarrow> ([], []))"

definition read_unsigned :: "string \<Rightarrow> jsnum" where
  "read_unsigned s =
     (if prefix ''Infinity'' s then PInf
      else
        (let (ip, r) = span_digits s;
             (fp, x) = read_fraction r
         in if ip @ fp = [] then NaN
            else Fin (real (digits_value (ip @ fp)) * 10 powi (read_exponent x - int (length fp)))))"

definition parseFloat :: "string \<Rightarrow> jsnum" where
  "parseFloat s =
     (case dropWhile is_space s of
        [] \<Rightarrow> NaN
      | c # r \<Rightarrow>
          if c = CHR ''-'' then - read_unsigned r
          else if c = CHR ''+'' then read_unsigned r
          else read_unsigned (c # r))"

text \<open>\<open>parseInt\<close> without a radix: decimal, or hexadecimal after \<open>0x\<close>.\<close>

definition hex_value :: "char \<Rightarrow> nat option" where
  "hex_value c =
     (let n = (of_char c :: nat)
      in if is_digit c then Some (n - 48)
         else if 65 \<le> n \<and> n \<le> 70 then Some (n - 55)
         else if 97 \<le> n \<and> n \<le> 102 then Some (n - 87) else None)"

definition radix_digits :: "nat \<Rightarrow> string \<Rightarrow> nat list" where
  "radix_digits r s =
     map (\<lambda>c. the (hex_value c))
       (takeWhile (\<lambda>c. case hex_value c of None \<Rightarrow> False | Some v \<Rightarrow> v < r) s)"

definition read_integer :: "string \<Rightarrow> jsnum" where
  "read_integer s =
     (let (r, d) = (if prefix ''0x'' s \<or> prefix ''0X'' s then (16, drop 2 s) else (10, s));
          ds = radix_digits r d
      in if ds = [] then NaN else Fin (real (foldl (\<lambda>n v. r * n + v) 0 ds)))"

definition parseInt :: "string \<Rightarrow> jsnum" where
  "parseInt s =
     (case dropWhile is_space s of
        [] \<Rightarrow> NaN
      | c # r \<Rightarrow>
          if c = CHR ''-'' then - read_integer r
          else if c = CHR ''+'' then read_integer r
          else read_integer (c # r))"

section \<open>The text of a number\<close>

definition digit_char :: "nat \<Rightarrow> char" where
  "digit_char n = char_of (48 + n)"

fun nat_digits :: "nat \<Rightarrow> string" where
  "nat_digits n = (if n < 10 then [digit_char n] else nat_digits (n div 10) @ [digit_char (n mod 10)])"

declare nat_digits.simps [simp del]

text \<open>The number of decimals of a real number, and its digits \<open>s\<close> and exponent \<open>e\<close>: \<open>x = s * 10 ^ e\<close>.\<close>

definition decimal_places :: "real \<Rightarrow> nat option" where
  "decimal_places x = find (\<lambda>j. of_int \<lfloor>x * 10 ^ j\<rfloor> = x * 10 ^ j) [0..<1101]"

function strip_zeros :: "nat \<Rightarrow> int \<Rightarrow> nat \<times> int" where
  "strip_zeros s e = (if s = 0 \<or> s mod 10 \<noteq> 0 then (s, e) else strip_zeros (s div 10) (e + 1))"
  by pat_completeness auto
termination
  by (relation "measure fst") auto

declare strip_zeros.simps [simp del]

definition decimal_notation :: "string \<Rightarrow> int \<Rightarrow> string" where
  "decimal_notation ds n =
     (let k = int (length ds);
          ex = (if n < 1 then ''-'' else ''+'') @ nat_digits (nat \<bar>n - 1\<bar>)
      in if k \<le> n \<and> n \<le> 21 then ds @ replicate (nat (n - k)) CHR ''0''
         else if 0 < n \<and> n \<le> 21 then take (nat n) ds @ ''.'' @ drop (nat n) ds
         else if -6 < n \<and> n \<le> 0 then ''0.'' @ replicate (nat (- n)) CHR ''0'' @ ds
         else if k = 1 then ds @ ''e'' @ ex
         else take 1 ds @ ''.'' @ drop 1 ds @ ''e'' @ ex)"

definition positive_string :: "real \<Rightarrow> string option" where
  "positive_string x =
     map_option
       (\<lambda>j. let (s, e) = strip_zeros (nat \<lfloor>x * 10 ^ j\<rfloor>) (- int j); ds = nat_digits s
            in decimal_notation ds (int (length ds) + e))
       (decimal_places x)"

fun number_string :: "jsnum \<Rightarrow> string option" where
  "number_string (Fin x) =
     (if x = 0 then Some ''0''
      else if x < 0 then map_option (Cons CHR ''-'') (positive_string (- x))
      else positive_string x)"
| "number_string PInf = Some ''Infinity''"
| "number_string NInf = Some ''-Infinity''"
| "number_string NaN = Some ''NaN''"

subsection \<open>Digits\<close>

lemma digit_char_simps [simp]:
  "n < 10 \<Longrightarrow> is_digit (digit_char n)" "n < 10 \<Longrightarrow> digit_value (digit_char n) = n"
  by (simp_all add: digit_char_def is_digit_def digit_value_def)

lemma digits_value_simps [simp]:
  "digits_value [] = 0" "digits_value (s @ [c]) = 10 * digits_value s + digit_value c"
  by (simp_all add: digits_value_def)

lemma digits_value_append: "digits_value (a @ b) = digits_value a * 10 ^ length b + digits_value b"
proof (induction b rule: rev_induct)
  case (snoc c b)
  have "digits_value (a @ b @ [c]) = 10 * digits_value (a @ b) + digit_value c"
    using digits_value_simps(2) [of "a @ b" c] by simp
  with snoc show ?case by simp
qed simp

lemma digits_value_zeros [simp]: "digits_value (replicate k CHR ''0'') = 0"
proof (induction k)
  case (Suc k)
  have "digits_value (CHR ''0'' # replicate k CHR ''0'') = 0"
    using digits_value_append [of "[CHR ''0'']" "replicate k CHR ''0''"] Suc
    by (simp add: digits_value_def digit_value_def)
  then show ?case by simp
qed simp

lemma nat_digits_props:
  "digits_value (nat_digits n) = n" "list_all is_digit (nat_digits n)" "nat_digits n \<noteq> []"
proof (induction n rule: nat_digits.induct)
  case (1 n)
  {
    case 1
    show ?case using "1.IH"(1) by (subst nat_digits.simps) (simp add: digits_value_def)
  next
    case 2
    show ?case using "1.IH"(2) by (subst nat_digits.simps) simp
  next
    case 3
    show ?case by (subst nat_digits.simps) simp
  }
qed

lemma strip_zeros_value:
  assumes "strip_zeros s e = (s', e')"
  shows "real s' * 10 powi e' = real s * 10 powi e"
  using assms
proof (induction s e rule: strip_zeros.induct)
  case (1 s e)
  show ?case
  proof (cases "s = 0 \<or> s mod 10 \<noteq> 0")
    case True
    with "1.prems" show ?thesis by (auto simp: strip_zeros.simps [of s e])
  next
    case False
    then obtain k where k: "s = 10 * k" by (auto elim: dvdE simp: mod_eq_0_iff_dvd)
    from False "1.prems" have "strip_zeros (s div 10) (e + 1) = (s', e')"
      by (simp add: strip_zeros.simps [of s e])
    from "1.IH" [OF False this] k show ?thesis
      by (simp add: power_int_add)
  qed
qed

lemma decimal_places_value:
  "decimal_places x = Some j \<Longrightarrow> of_int \<lfloor>x * 10 ^ j\<rfloor> = x * 10 ^ j"
  by (auto simp: decimal_places_def find_Some_iff)

subsection \<open>Reading the text of a number\<close>

definition stops :: "string \<Rightarrow> bool" where
  "stops t \<longleftrightarrow> (case t of [] \<Rightarrow> True | c # r \<Rightarrow> \<not> is_digit c)"

lemma span_digits_append:
  "list_all is_digit ip \<Longrightarrow> stops t \<Longrightarrow> span_digits (ip @ t) = (ip, t)"
  by (induction ip) (auto simp: span_digits_def stops_def split: list.splits)

lemma span_digits_all: "list_all is_digit ip \<Longrightarrow> span_digits ip = (ip, [])"
  using span_digits_append [of ip "[]"] by (simp add: stops_def)

lemma digit_neq: "is_digit c \<Longrightarrow> c \<noteq> CHR ''I'' \<and> c \<noteq> CHR ''-'' \<and> c \<noteq> CHR ''+'' \<and> c \<noteq> CHR ''.'' \<and>
    c \<noteq> CHR ''e'' \<and> \<not> is_space c"
  by (auto simp: is_digit_def is_space_def)

lemma read_unsigned_integer:
  assumes "list_all is_digit ip" "ip \<noteq> []" "t = [] \<or> (\<exists>r. t = CHR ''e'' # r)"
  shows "read_unsigned (ip @ t) = Fin (real (digits_value ip) * 10 powi read_exponent t)"
proof -
  obtain c s where ip: "ip = c # s" using assms(2) by (cases ip) auto
  have "stops t" using assms(3) by (auto simp: stops_def is_digit_def)
  moreover have "\<not> prefix ''Infinity'' (ip @ t)" using assms(1) ip digit_neq [of c] by auto
  moreover have "read_fraction t = ([], t)" using assms(3) by (auto simp: read_fraction_def)
  ultimately show ?thesis
    using assms(1,2) by (simp add: read_unsigned_def span_digits_append)
qed

lemma read_unsigned_fraction:
  assumes "list_all is_digit ip" "ip \<noteq> []" "list_all is_digit fp" "t = [] \<or> (\<exists>r. t = CHR ''e'' # r)"
  shows "read_unsigned (ip @ CHR ''.'' # fp @ t) =
    Fin (real (digits_value (ip @ fp)) * 10 powi (read_exponent t - int (length fp)))"
proof -
  obtain c s where ip: "ip = c # s" using assms(2) by (cases ip) auto
  have "stops t" using assms(4) by (auto simp: stops_def is_digit_def)
  then have "read_fraction (CHR ''.'' # fp @ t) = (fp, t)"
    using assms(3) by (simp add: read_fraction_def span_digits_append)
  moreover have "\<not> prefix ''Infinity'' (ip @ CHR ''.'' # fp @ t)" using assms(1) ip digit_neq [of c] by auto
  moreover have "stops (CHR ''.'' # fp @ t)" by (simp add: stops_def is_digit_def)
  ultimately show ?thesis
    using assms(1,2) by (simp add: read_unsigned_def span_digits_append)
qed

lemma read_exponent_text:
  "read_exponent (''e'' @ (if n < 1 then ''-'' else ''+'') @ nat_digits (nat \<bar>n - 1\<bar>)) = n - 1"
  by (auto simp: read_exponent_def span_digits_all nat_digits_props)

lemma read_decimal_notation:
  assumes ds: "list_all is_digit ds" "ds \<noteq> []"
  shows "read_unsigned (decimal_notation ds n) =
    Fin (real (digits_value ds) * 10 powi (n - int (length ds)))"
proof -
  let ?k = "int (length ds)"
  let ?ex = "''e'' @ (if n < 1 then ''-'' else ''+'') @ nat_digits (nat \<bar>n - 1\<bar>)"
  have zeros: "list_all is_digit (replicate m CHR ''0'')" for m
    by (induction m) (simp_all add: is_digit_def)
  have parts: "list_all is_digit (take m ds)" "list_all is_digit (drop m ds)" for m
    using ds(1) by (auto simp: list_all_iff dest: in_set_takeD in_set_dropD)
  have val: "digits_value (take m ds @ drop m ds) = digits_value ds" for m by simp
  consider (int) "?k \<le> n" "n \<le> 21" | (frac) "0 < n" "n < ?k" "n \<le> 21"
    | (small) "-6 < n" "n \<le> 0" | (exp) "n \<le> -6 \<or> 21 < n"
    by linarith
  then show ?thesis
  proof cases
    case int
    then have "decimal_notation ds n = (ds @ replicate (nat (n - ?k)) CHR ''0'') @ []"
      by (simp add: decimal_notation_def Let_def)
    moreover have "read_unsigned ((ds @ replicate (nat (n - ?k)) CHR ''0'') @ []) =
        Fin (real (digits_value (ds @ replicate (nat (n - ?k)) CHR ''0'')) * 10 powi read_exponent [])"
      using ds zeros by (intro read_unsigned_integer) auto
    ultimately show ?thesis using int
      by (simp add: digits_value_append read_exponent_def power_int_def)
  next
    case frac
    then have "decimal_notation ds n = take (nat n) ds @ CHR ''.'' # drop (nat n) ds @ []"
      by (simp add: decimal_notation_def Let_def)
    moreover have "read_unsigned (take (nat n) ds @ CHR ''.'' # drop (nat n) ds @ []) =
        Fin (real (digits_value (take (nat n) ds @ drop (nat n) ds)) *
          10 powi (read_exponent [] - int (length (drop (nat n) ds))))"
      using ds parts frac by (intro read_unsigned_fraction) auto
    ultimately show ?thesis using frac by (simp add: read_exponent_def)
  next
    case small
    then have "decimal_notation ds n = ''0'' @ CHR ''.'' # (replicate (nat (- n)) CHR ''0'' @ ds) @ []"
      using ds(2) by (cases ds) (auto simp: decimal_notation_def Let_def)
    moreover have "read_unsigned (''0'' @ CHR ''.'' # (replicate (nat (- n)) CHR ''0'' @ ds) @ []) =
        Fin (real (digits_value (''0'' @ replicate (nat (- n)) CHR ''0'' @ ds)) *
          10 powi (read_exponent [] - int (length (replicate (nat (- n)) CHR ''0'' @ ds))))"
      using ds zeros by (intro read_unsigned_fraction) (auto simp: is_digit_def)
    moreover have "digits_value (''0'' @ replicate (nat (- n)) CHR ''0'' @ ds) = digits_value ds"
      using digits_value_zeros [of 1] by (simp only: digits_value_append) simp
    ultimately show ?thesis using small by (simp add: read_exponent_def)
  next
    case exp
    show ?thesis
    proof (cases "?k = 1")
      case True
      with exp have "decimal_notation ds n = ds @ ?ex" by (auto simp: decimal_notation_def Let_def)
      moreover have "read_unsigned (ds @ ?ex) = Fin (real (digits_value ds) * 10 powi read_exponent ?ex)"
        using ds by (intro read_unsigned_integer) auto
      ultimately show ?thesis using True by (simp only: read_exponent_text)
    next
      case False
      with exp ds(2) have "decimal_notation ds n = take 1 ds @ CHR ''.'' # drop 1 ds @ ?ex"
        by (cases ds) (auto simp: decimal_notation_def Let_def)
      moreover have "read_unsigned (take 1 ds @ CHR ''.'' # drop 1 ds @ ?ex) =
          Fin (real (digits_value (take 1 ds @ drop 1 ds)) *
            10 powi (read_exponent ?ex - int (length (drop 1 ds))))"
        using ds parts by (intro read_unsigned_fraction) auto
      moreover have "int (length (drop 1 ds)) = ?k - 1" using ds(2) by (cases ds) auto
      ultimately show ?thesis by (simp only: read_exponent_text val) simp
    qed
  qed
qed

text \<open>The characters of the text of a number; none of them separates the parts of a link or a line.\<close>

definition number_char :: "char \<Rightarrow> bool" where
  "number_char c \<longleftrightarrow> is_digit c \<or> c \<in> set ''.e+-InfityNa''"

lemma nat_digits_chars: "list_all number_char (nat_digits n)"
  using nat_digits_props(2) [of n] by (auto simp: list_all_iff number_char_def)

lemma list_all_parts: "list_all P xs \<Longrightarrow> list_all P (take n xs)" "list_all P xs \<Longrightarrow> list_all P (drop n xs)"
  by (auto simp: list_all_iff dest: in_set_takeD in_set_dropD)

lemma number_char_marks:
  "number_char CHR ''0''" "number_char CHR ''.''" "number_char CHR ''e''" "number_char CHR ''-''"
  "number_char CHR ''+''"
  by (simp_all add: number_char_def is_digit_def)

lemma decimal_notation_chars:
  assumes "list_all is_digit ds"
  shows "list_all number_char (decimal_notation ds n)"
proof -
  have "list_all number_char ds"
    using assms by (auto simp: list_all_iff number_char_def)
  moreover have "list_all number_char (replicate m CHR ''0'')" for m
    by (induction m) (simp_all add: number_char_marks)
  ultimately show ?thesis
    using nat_digits_chars [of "nat \<bar>n - 1\<bar>"]
    by (simp add: decimal_notation_def Let_def number_char_marks list_all_parts)
qed

lemma decimal_notation_hd:
  assumes "list_all is_digit ds" "ds \<noteq> []"
  shows "\<exists>c r. decimal_notation ds n = c # r \<and> is_digit c"
proof -
  obtain c s where ds: "ds = c # s" using assms(2) by (cases ds) auto
  have "is_digit CHR ''0''" by (simp add: is_digit_def)
  then show ?thesis
    using assms(1) ds by (auto simp: decimal_notation_def Let_def take_Cons' drop_Cons')
qed

lemma positive_string_parts:
  assumes "positive_string x = Some t" and "0 < x"
  obtains s e where "t = decimal_notation (nat_digits s) (int (length (nat_digits s)) + e)"
    and "x = real s * 10 powi e"
proof -
  obtain j where j: "decimal_places x = Some j"
    and t: "t = (let (s, e) = strip_zeros (nat \<lfloor>x * 10 ^ j\<rfloor>) (- int j); ds = nat_digits s
      in decimal_notation ds (int (length ds) + e))"
    using assms(1) by (auto simp: positive_string_def)
  obtain s e where se: "strip_zeros (nat \<lfloor>x * 10 ^ j\<rfloor>) (- int j) = (s, e)" by fastforce
  have "real (nat \<lfloor>x * 10 ^ j\<rfloor>) = x * 10 ^ j"
    using decimal_places_value [OF j] assms(2) by (simp add: of_nat_nat)
  with strip_zeros_value [OF se] have "real s * 10 powi e = x"
    by (simp add: power_int_minus)
  with t se show ?thesis using that [of s e] by (simp add: Let_def)
qed

lemma parse_digit_first: "is_digit c \<Longrightarrow> parseFloat (c # r) = read_unsigned (c # r)"
  using digit_neq [of c] by (simp add: parseFloat_def)

lemma parse_positive_string:
  assumes "positive_string x = Some t" and "0 < x"
  shows "parseFloat t = Fin x" "parseFloat (CHR ''-'' # t) = Fin (- x)" "list_all number_char t"
proof -
  obtain s e where t: "t = decimal_notation (nat_digits s) (int (length (nat_digits s)) + e)"
    and x: "x = real s * 10 powi e"
    using positive_string_parts [OF assms] .
  have read: "read_unsigned t = Fin x"
    by (simp add: t x read_decimal_notation nat_digits_props)
  obtain c r where cr: "t = c # r" "is_digit c"
    using decimal_notation_hd [OF nat_digits_props(2,3)] t by blast
  show "parseFloat t = Fin x" using read cr by (simp add: parse_digit_first)
  show "parseFloat (CHR ''-'' # t) = Fin (- x)"
    using read by (simp add: parseFloat_def is_space_def)
  show "list_all number_char t"
    using t decimal_notation_chars nat_digits_props(2) by blast
qed

lemma parse_number_string: "number_string x = Some t \<Longrightarrow> parseFloat t = x"
proof (cases x)
  case (Fin a)
  assume "number_string x = Some t"
  with Fin show ?thesis
    using parse_positive_string [of a] parse_positive_string [of "- a"]
    by (auto simp: parseFloat_def read_unsigned_def span_digits_def is_space_def is_digit_def
        read_fraction_def read_exponent_def digits_value_def digit_value_def split: if_splits)
qed (auto simp: parseFloat_def read_unsigned_def is_space_def is_digit_def span_digits_def read_fraction_def)

lemma number_string_chars: "number_string x = Some t \<Longrightarrow> list_all number_char t"
  using parse_positive_string(3)
  by (cases x) (auto simp: number_char_def is_digit_def split: if_splits)

text \<open>A number with a finite decimal expansion has a text.\<close>

lemma number_string_decimal:
  assumes "x * 10 ^ j \<in> \<int>" and "j \<le> 1100"
  shows "\<exists>t. number_string (Fin x) = Some t"
proof -
  have "decimal_places y \<noteq> None" if "y = x \<or> y = - x" for y
  proof -
    have "y * 10 ^ j \<in> \<int>" using that assms(1) by auto
    then have "of_int \<lfloor>y * 10 ^ j\<rfloor> = y * 10 ^ j" by simp
    moreover have "j \<in> set [0..<1101]" using assms(2) by simp
    ultimately show ?thesis unfolding decimal_places_def find_None_iff by blast
  qed
  then show ?thesis by (auto simp: positive_string_def)
qed

lemma number_string_int [simp]: "\<exists>t. number_string (Fin (of_int i)) = Some t"
  by (rule number_string_decimal [where j = 0]) auto

end
