(* ===== verification/ViewLinks.thy ===== *)
theory ViewLinks
  imports JsText OrbitCam
begin

text \<open>
  Links to a view (\<open>js/index.js\<close>): the page is opened with a query that names the trees and the
  pose of the camera (\<open>getVariableFromQuery\<close>, \<open>getViewpointFromQuery\<close>, the end of \<open>start\<close>), and the
  key \<open>l\<close> builds such a link from the trees that are shown and the camera. \<open>getViews\<close> of
  \<open>js/megatree.js\<close> reads a file of saved views with the same functions.

  \<open>link_reopens_view\<close> is the round trip. The address of the page is \<open>location_search\<close>'s: its query is what
  follows the first question mark, without a fragment.
\<close>

section \<open>Reading a query\<close>

fun find_variable :: "string list \<Rightarrow> string \<Rightarrow> qvalue" where
  "find_variable [] v = Null"
| "find_variable (x # xs) v =
     (let pair = js_split ''='' x
      in if nth_value pair 0 = Text v then nth_value pair 1 else find_variable xs v)"

definition getVariableFromQuery :: "string \<Rightarrow> string \<Rightarrow> qvalue" where
  "getVariableFromQuery query v = find_variable (js_split ''&'' query) v"

record viewpoint = cam_config +
  view_name :: qvalue

definition query_number :: "string \<Rightarrow> string \<Rightarrow> jsnum" where
  "query_number query v = parseFloat (value_text (getVariableFromQuery query v))"

definition getViewpointFromQuery :: "(jsnum \<Rightarrow> jsnum) \<Rightarrow> string \<Rightarrow> viewpoint option" where
  "getViewpointFromQuery st query =
     (let o0 = map st [query_number query ''c_x'', query_number query ''c_y'', query_number query ''c_z''];
          config = \<lparr>cf_origin = Some o0, cf_distance = query_number query ''c_d'',
                    cf_pitch = query_number query ''c_pi'', cf_yaw = query_number query ''c_ya'',
                    cf_closest = NaN, cf_farthest = NaN, view_name = getVariableFromQuery query ''name''\<rparr>
      in if idx o0 0 \<noteq> NaN \<and> idx o0 1 \<noteq> NaN \<and> idx o0 2 \<noteq> NaN \<and>
            cf_distance config \<noteq> NaN \<and> cf_pitch config \<noteq> NaN \<and> cf_yaw config \<noteq> NaN
         then Some config else None)"

text \<open>The views of a \<open>views.ini\<close> file, a line each, those that cannot be read left out.\<close>

definition views_of :: "(jsnum \<Rightarrow> jsnum) \<Rightarrow> string \<Rightarrow> viewpoint list" where
  "views_of st response = List.map_filter (getViewpointFromQuery st) (js_split ''\<newline>'' response)"

section \<open>Opening the page\<close>

text \<open>\<open>window.location.search.substring(1)\<close> for a page opened with an address.\<close>

definition location_search :: "string \<Rightarrow> string" where
  "location_search url =
     (let page = (case cut ''#'' url of None \<Rightarrow> url | Some (a, _) \<Rightarrow> a)
      in case cut ''?'' page of None \<Rightarrow> '''' | Some (_, q) \<Rightarrow> q)"

text \<open>\<open>start\<close>: the trees of the query, \<open>None\<close> when the page asks for a tree.\<close>

definition requested_trees :: "string \<Rightarrow> string list option" where
  "requested_trees query =
     (case getVariableFromQuery query ''tree'' of
        Text tree \<Rightarrow> if tree = '''' then None else Some (js_split '','' tree)
      | _ \<Rightarrow> None)"

text \<open>\<open>start\<close>: the links that the page offers then, without the trees that jobs have made.\<close>

definition offered_links :: "string \<Rightarrow> string list \<Rightarrow> (string \<times> string) list" where
  "offered_links href supported =
     (let url = js_split ''?'' href ! 0 @ ''?tree=''
      in map (\<lambda>t. (url @ t, t)) (filter (\<lambda>t. take 5 t \<noteq> ''proc_'') supported))"

text \<open>\<open>initCam\<close>: the camera of a configuration, with the limits of the page.\<close>

definition initCam_config :: "cam_config \<Rightarrow> cam_config" where
  "initCam_config config =
     (let config = (if \<not> truthy (cf_closest config) then config\<lparr>cf_closest := Fin 0.1\<rparr> else config)
      in if \<not> truthy (cf_farthest config) then config\<lparr>cf_farthest := 1000000\<rparr> else config)"

definition initCam :: "(jsnum \<Rightarrow> jsnum) \<Rightarrow> cam_config \<Rightarrow> camera" where
  "initCam st config = OrbitCam_new st (initCam_config config)"

section \<open>Making a link\<close>

text \<open>
  The case \<open>l\<close> of \<open>onKeyDown\<close>. The last character of the list is cut off, which is the comma after
  the last tree (with no tree it is the equals sign). A number has no text only if it is no double.
\<close>

fun add_number :: "string option \<Rightarrow> string \<times> jsnum \<Rightarrow> string option" where
  "add_number url (key, x) =
     (case (url, number_string x) of (Some u, Some t) \<Rightarrow> Some (u @ key @ t) | _ \<Rightarrow> None)"

definition view_link :: "string \<Rightarrow> string option list \<Rightarrow> camera \<Rightarrow> string option" where
  "view_link href names cam =
     (let url = js_split ''?'' href ! 0 @ ''?tree='';
          url = foldl (\<lambda>url t. case t of None \<Rightarrow> url | Some name \<Rightarrow> url @ name @ '','') url names;
          url = take (length url - 1) url
      in foldl add_number (Some url)
           [(''&c_x='', idx (origin cam) 0), (''&c_y='', idx (origin cam) 1), (''&c_z='', idx (origin cam) 2),
            (''&c_d='', distance cam), (''&c_pi='', cpitch cam), (''&c_ya='', cyaw cam)])"

section \<open>The parts of a link\<close>

definition separators :: "char set" where
  "separators = set ''&=#?,''"

definition plain_text :: "string \<Rightarrow> bool" where
  "plain_text s \<longleftrightarrow> set s \<inter> separators = {}"

lemma plain_text_simps [simp]:
  "plain_text [] \<longleftrightarrow> True" "plain_text (c # s) \<longleftrightarrow> c \<notin> separators \<and> plain_text s"
  "plain_text (a @ b) \<longleftrightarrow> plain_text a \<and> plain_text b"
  by (auto simp: plain_text_def)

lemma plain_textD:
  "plain_text s \<Longrightarrow> CHR ''&'' \<notin> set s" "plain_text s \<Longrightarrow> CHR ''='' \<notin> set s" "plain_text s \<Longrightarrow> CHR ''#'' \<notin> set s"
  "plain_text s \<Longrightarrow> CHR '','' \<notin> set s"
  by (auto simp: plain_text_def separators_def)

lemma plain_number: "number_string x = Some t \<Longrightarrow> plain_text t"
  using number_string_chars [of x t]
  by (auto simp: plain_text_def separators_def list_all_iff number_char_def is_digit_def)

lemma find_variable_part [simp]:
  "CHR ''='' \<notin> set k \<Longrightarrow> CHR ''='' \<notin> set t \<Longrightarrow>
     find_variable ((k @ CHR ''='' # t) # xs) v = (if k = v then Text t else find_variable xs v)"
  by (simp add: js_split_append js_split_last nth_value_def)

lemma find_variable_bare:
  "CHR ''='' \<notin> set k \<Longrightarrow> find_variable (k # xs) v = (if k = v then Undefined else find_variable xs v)"
  by (simp add: js_split_last nth_value_def)

text \<open>The query that holds a list of trees and a pose.\<close>

definition pose_numbers :: "camera \<Rightarrow> jsnum list" where
  "pose_numbers cam = [idx (origin cam) 0, idx (origin cam) 1, idx (origin cam) 2, distance cam, cpitch cam, cyaw cam]"

definition link_query :: "string \<Rightarrow> string list \<Rightarrow> string" where
  "link_query tr ts =
     tr @ ''&c_x='' @ ts ! 0 @ ''&c_y='' @ ts ! 1 @ ''&c_z='' @ ts ! 2 @ ''&c_d='' @ ts ! 3 @
     ''&c_pi='' @ ts ! 4 @ ''&c_ya='' @ ts ! 5"

definition trees_part :: "string list \<Rightarrow> string" where
  "trees_part names = (if names = [] then ''tree'' else ''tree='' @ butlast (each_then CHR '','' names))"

lemma each_then_snoc: "each_then c (ps @ [p]) = each_then c ps @ p @ [c]"
  by (simp add: each_then_def)

lemma foldl_names:
  "foldl (\<lambda>url t. case t of None \<Rightarrow> url | Some name \<Rightarrow> url @ name @ '','') url names =
     url @ each_then CHR '','' (List.map_filter id names)"
  by (induction names arbitrary: url) (auto simp: each_then_def List.map_filter_def split: option.splits)

lemma view_link_parts:
  assumes "view_link href names cam = Some url"
  obtains ts where "url = js_split ''?'' href ! 0 @ CHR ''?'' # link_query (trees_part (List.map_filter id names)) ts"
    and "length ts = 6" and "\<And>i. i < 6 \<Longrightarrow> number_string (pose_numbers cam ! i) = Some (ts ! i)"
proof -
  let ?base = "js_split ''?'' href ! 0" and ?shown = "List.map_filter id names"
  have cut_last: "take (length (?base @ ''?tree='' @ each_then CHR '','' ?shown) - 1)
      (?base @ ''?tree='' @ each_then CHR '','' ?shown) = ?base @ CHR ''?'' # trees_part ?shown"
    unfolding butlast_conv_take [symmetric]
    by (cases ?shown rule: rev_cases) (simp_all add: trees_part_def each_then_def butlast_append)
  obtain t0 t1 t2 t3 t4 t5 where t:
      "number_string (idx (origin cam) 0) = Some t0" "number_string (idx (origin cam) 1) = Some t1"
      "number_string (idx (origin cam) 2) = Some t2" "number_string (distance cam) = Some t3"
      "number_string (cpitch cam) = Some t4" "number_string (cyaw cam) = Some t5"
    and url: "url = (?base @ CHR ''?'' # trees_part ?shown) @ ''&c_x='' @ t0 @ ''&c_y='' @ t1 @ ''&c_z='' @ t2 @
        ''&c_d='' @ t3 @ ''&c_pi='' @ t4 @ ''&c_ya='' @ t5"
    using assms unfolding view_link_def Let_def foldl_names append_assoc cut_last
    by (auto split: option.splits)
  show thesis
  proof (rule that [of "[t0, t1, t2, t3, t4, t5]"])
    show "url = ?base @ CHR ''?'' # link_query (trees_part ?shown) [t0, t1, t2, t3, t4, t5]"
      by (simp add: url link_query_def)
    fix i :: nat
    assume "i < 6"
    then have "i = 0 \<or> i = 1 \<or> i = 2 \<or> i = 3 \<or> i = 4 \<or> i = 5" by auto
    then show "number_string (pose_numbers cam ! i) = Some ([t0, t1, t2, t3, t4, t5] ! i)"
      using t by (auto simp: pose_numbers_def)
  qed simp
qed

lemma view_link_Some:
  assumes "\<And>x. x \<in> set (pose_numbers cam) \<Longrightarrow> \<exists>t. number_string x = Some t"
  shows "\<exists>url. view_link href names cam = Some url"
proof -
  obtain t where t: "\<And>x. x \<in> set (pose_numbers cam) \<Longrightarrow> number_string x = Some (t x)"
    using assms by metis
  show ?thesis
    using t [of "idx (origin cam) 0"] t [of "idx (origin cam) 1"] t [of "idx (origin cam) 2"] t [of "distance cam"]
      t [of "cpitch cam"] t [of "cyaw cam"]
    by (simp add: view_link_def Let_def pose_numbers_def)
qed

lemma split_link_query:
  assumes "CHR ''&'' \<notin> set tr" and "length ts = 6" and "\<And>i. i < 6 \<Longrightarrow> plain_text (ts ! i)"
  shows "js_split ''&'' (link_query tr ts) =
    [tr, ''c_x='' @ ts ! 0, ''c_y='' @ ts ! 1, ''c_z='' @ ts ! 2, ''c_d='' @ ts ! 3, ''c_pi='' @ ts ! 4,
     ''c_ya='' @ ts ! 5]"
proof -
  have plain: "CHR ''&'' \<notin> set (ts ! 0)" "CHR ''&'' \<notin> set (ts ! 1)" "CHR ''&'' \<notin> set (ts ! 2)"
      "CHR ''&'' \<notin> set (ts ! 3)" "CHR ''&'' \<notin> set (ts ! 4)" "CHR ''&'' \<notin> set (ts ! 5)"
    using assms(3) by (simp_all add: plain_textD)
  have part: "js_split ''&'' (k @ x @ CHR ''&'' # r) = (k @ x) # js_split ''&'' r"
      "js_split ''&'' (k @ x) = [k @ x]"
    if "CHR ''&'' \<notin> set k" "CHR ''&'' \<notin> set x" for k x r
    using that js_split_append [of "CHR ''&''" "k @ x" r] js_split_last [of "CHR ''&''" "k @ x"] by simp_all
  show ?thesis
    using assms(1) plain js_split_append [of "CHR ''&''" tr] part [of "''c_x=''" "ts ! 0"] part [of "''c_y=''" "ts ! 1"]
      part [of "''c_z=''" "ts ! 2"] part [of "''c_d=''" "ts ! 3"] part [of "''c_pi=''" "ts ! 4"]
      part [of "''c_ya=''" "ts ! 5"]
    by (simp add: link_query_def)
qed

lemma cut_char_parts: "cut [c] s = Some (a, b) \<Longrightarrow> c \<notin> set a \<and> set a \<subseteq> set s"
proof (induction s arbitrary: a)
  case (Cons x s)
  then show ?case by (cases "x = c") auto
qed simp

lemma first_part: "c \<notin> set (js_split [c] s ! 0)" "set (js_split [c] s ! 0) \<subseteq> set s"
proof -
  have "c \<notin> set (js_split [c] s ! 0) \<and> set (js_split [c] s ! 0) \<subseteq> set s"
  proof (cases "cut [c] s")
    case None
    then have "c \<notin> set s" by (auto dest!: split_list_first)
    then show ?thesis by (simp add: js_split_last)
  next
    case (Some p)
    then show ?thesis
      using cut_char_parts [of c s] by (cases p) (auto simp: js_split.simps [of "[c]" s])
  qed
  then show "c \<notin> set (js_split [c] s ! 0)" "set (js_split [c] s ! 0) \<subseteq> set s" by auto
qed

lemma trees_part_plain:
  assumes "\<And>n. n \<in> set names \<Longrightarrow> plain_text n"
  shows "CHR ''&'' \<notin> set (trees_part names)" "CHR ''#'' \<notin> set (trees_part names)"
proof -
  have "c \<notin> set (trees_part names)" if "c = CHR ''&'' \<or> c = CHR ''#''" for c
  proof -
    have "c \<notin> set (each_then CHR '','' names)"
      using assms that by (induction names) (auto simp: each_then_def dest: plain_textD)
    then show ?thesis using that by (auto simp: trees_part_def dest: in_set_butlastD)
  qed
  then show "CHR ''&'' \<notin> set (trees_part names)" "CHR ''#'' \<notin> set (trees_part names)" by auto
qed

lemma trees_part_variable:
  assumes "\<And>n. n \<in> set names \<Longrightarrow> plain_text n \<and> n \<noteq> ''''" and "js_split ''&'' query = trees_part names # rest"
  shows "requested_trees query = (if names = [] then None else Some names)"
proof (cases names rule: rev_cases)
  case Nil
  with assms(2) show ?thesis
    using find_variable_bare [of "''tree''" rest "''tree''"]
    by (simp add: requested_trees_def getVariableFromQuery_def trees_part_def)
next
  case (snoc ps p)
  let ?list = "each_then CHR '','' ps @ p"
  have tp: "trees_part names = ''tree'' @ CHR ''='' # ?list"
    using snoc by (simp add: trees_part_def each_then_snoc butlast_append)
  have ok: "\<And>n. n \<in> set ps \<Longrightarrow> plain_text n" "plain_text p" "p \<noteq> ''''" using assms(1) snoc by auto
  then have "CHR ''='' \<notin> set ?list" by (induction ps) (auto simp: each_then_def dest: plain_textD)
  then have "getVariableFromQuery query ''tree'' = Text ?list"
    using assms(2) find_variable_part [of "''tree''" ?list rest "''tree''"]
    by (simp add: getVariableFromQuery_def tp del: append_Cons)
  moreover have "js_split '','' ?list = ps @ [p]"
    using ok by (intro js_split_each_then) (auto dest: plain_textD)
  ultimately show ?thesis using ok(3) snoc by (simp add: requested_trees_def)
qed

lemma link_query_variables:
  assumes "js_split ''&'' query =
    [tr, ''c_x='' @ ts ! 0, ''c_y='' @ ts ! 1, ''c_z='' @ ts ! 2, ''c_d='' @ ts ! 3, ''c_pi='' @ ts ! 4,
     ''c_ya='' @ ts ! 5]"
    and "tr = trees_part names" and "\<And>i. i < 6 \<Longrightarrow> plain_text (ts ! i)"
    and "\<And>n. n \<in> set names \<Longrightarrow> plain_text n"
  shows "map (getVariableFromQuery query) [''c_x'', ''c_y'', ''c_z'', ''c_d'', ''c_pi'', ''c_ya''] =
    map Text [ts ! 0, ts ! 1, ts ! 2, ts ! 3, ts ! 4, ts ! 5]"
proof -
  have first: "find_variable (trees_part names # rest) v = find_variable rest v" if "v \<noteq> ''tree''" for rest v
  proof (cases names rule: rev_cases)
    case Nil
    with that show ?thesis using find_variable_bare [of "''tree''" rest v] by (simp add: trees_part_def)
  next
    case (snoc ps p)
    let ?list = "each_then CHR '','' ps @ p"
    have "trees_part names = ''tree'' @ CHR ''='' # ?list"
      using snoc by (simp add: trees_part_def each_then_snoc butlast_append)
    moreover have "CHR ''='' \<notin> set ?list"
      using assms(4) unfolding snoc by (induction ps) (auto simp: each_then_def dest: plain_textD)
    ultimately show ?thesis using that find_variable_part [of "''tree''" ?list rest v] by simp
  qed
  have eq: "CHR ''='' \<notin> set (ts ! 0)" "CHR ''='' \<notin> set (ts ! 1)" "CHR ''='' \<notin> set (ts ! 2)"
      "CHR ''='' \<notin> set (ts ! 3)" "CHR ''='' \<notin> set (ts ! 4)" "CHR ''='' \<notin> set (ts ! 5)"
    using assms(3) by (simp_all add: plain_textD)
  note part = find_variable_part [of "''c_x''" "ts ! 0"] find_variable_part [of "''c_y''" "ts ! 1"]
    find_variable_part [of "''c_z''" "ts ! 2"] find_variable_part [of "''c_d''" "ts ! 3"]
    find_variable_part [of "''c_pi''" "ts ! 4"] find_variable_part [of "''c_ya''" "ts ! 5"]
  show ?thesis
    unfolding getVariableFromQuery_def assms(1,2)
    using eq part by (simp add: first del: find_variable.simps)
qed

section \<open>The round trip\<close>

lemma link_reads:
  assumes link: "view_link href names cam = Some url" and href: "CHR ''#'' \<notin> set href"
    and plain: "\<And>n. n \<in> set (List.map_filter id names) \<Longrightarrow> plain_text n \<and> n \<noteq> ''''"
  obtains ts where "js_split ''&'' (location_search url) =
      [trees_part (List.map_filter id names), ''c_x='' @ ts ! 0, ''c_y='' @ ts ! 1, ''c_z='' @ ts ! 2, ''c_d='' @ ts ! 3,
       ''c_pi='' @ ts ! 4, ''c_ya='' @ ts ! 5]"
    and "\<forall>i < 6. plain_text (ts ! i) \<and> parseFloat (ts ! i) = pose_numbers cam ! i"
proof -
  let ?shown = "List.map_filter id names"
  obtain ts where url: "url = js_split ''?'' href ! 0 @ CHR ''?'' # link_query (trees_part ?shown) ts"
    and ts: "length ts = 6" "\<And>i. i < 6 \<Longrightarrow> number_string (pose_numbers cam ! i) = Some (ts ! i)"
    by (rule view_link_parts [OF link]) blast
  have plain_ts: "plain_text (ts ! i)" if "i < 6" for i using plain_number ts(2) that by blast
  have "CHR ''#'' \<notin> set url"
    using first_part(2) [of "CHR ''?''" href] href trees_part_plain(2) [of ?shown] plain plain_textD(3) [OF plain_ts]
    by (auto simp: url link_query_def)
  then have search: "location_search url = link_query (trees_part ?shown) ts"
    using first_part(1) [of "CHR ''?''" href] by (simp add: location_search_def url)
  have "js_split ''&'' (location_search url) =
      [trees_part ?shown, ''c_x='' @ ts ! 0, ''c_y='' @ ts ! 1, ''c_z='' @ ts ! 2, ''c_d='' @ ts ! 3,
       ''c_pi='' @ ts ! 4, ''c_ya='' @ ts ! 5]"
    unfolding search using trees_part_plain plain plain_ts ts(1) by (intro split_link_query) auto
  with plain_ts parse_number_string ts(2) that show thesis by blast
qed

lemma link_pose:
  assumes "view_link href names cam = Some url" "CHR ''#'' \<notin> set href"
    and "\<And>n. n \<in> set (List.map_filter id names) \<Longrightarrow> plain_text n \<and> n \<noteq> ''''"
  shows "query_number (location_search url) ''c_x'' = idx (origin cam) 0"
    "query_number (location_search url) ''c_y'' = idx (origin cam) 1"
    "query_number (location_search url) ''c_z'' = idx (origin cam) 2"
    "query_number (location_search url) ''c_d'' = distance cam"
    "query_number (location_search url) ''c_pi'' = cpitch cam"
    "query_number (location_search url) ''c_ya'' = cyaw cam"
proof -
  obtain ts where split: "js_split ''&'' (location_search url) =
      [trees_part (List.map_filter id names), ''c_x='' @ ts ! 0, ''c_y='' @ ts ! 1, ''c_z='' @ ts ! 2, ''c_d='' @ ts ! 3,
       ''c_pi='' @ ts ! 4, ''c_ya='' @ ts ! 5]"
    and ts: "\<forall>i < 6. plain_text (ts ! i) \<and> parseFloat (ts ! i) = pose_numbers cam ! i"
    by (rule link_reads [OF assms])
  have "map (getVariableFromQuery (location_search url)) [''c_x'', ''c_y'', ''c_z'', ''c_d'', ''c_pi'', ''c_ya''] =
      map Text [ts ! 0, ts ! 1, ts ! 2, ts ! 3, ts ! 4, ts ! 5]"
    using assms(3) ts by (intro link_query_variables [OF split refl]) auto
  moreover have "parseFloat (ts ! 0) = pose_numbers cam ! 0" "parseFloat (ts ! 1) = pose_numbers cam ! 1"
    "parseFloat (ts ! 2) = pose_numbers cam ! 2" "parseFloat (ts ! 3) = pose_numbers cam ! 3"
    "parseFloat (ts ! 4) = pose_numbers cam ! 4" "parseFloat (ts ! 5) = pose_numbers cam ! 5"
    using ts by simp_all
  ultimately show "query_number (location_search url) ''c_x'' = idx (origin cam) 0"
    "query_number (location_search url) ''c_y'' = idx (origin cam) 1"
    "query_number (location_search url) ''c_z'' = idx (origin cam) 2"
    "query_number (location_search url) ''c_d'' = distance cam"
    "query_number (location_search url) ''c_pi'' = cpitch cam"
    "query_number (location_search url) ''c_ya'' = cyaw cam"
    by (simp_all add: query_number_def pose_numbers_def)
qed

text \<open>A camera that is made from the pose of another one.\<close>

lemma camera_from_pose:
  assumes "cf_origin v = Some (origin cam)" "cf_distance v = distance cam" "cf_pitch v = cpitch cam" "cf_yaw v = cyaw cam"
    and "length (origin cam) = 3" "map st (origin cam) = origin cam" "NaN \<notin> set (pose_numbers cam)" "distance cam \<noteq> 0"
  shows "origin (initCam st v) = origin cam \<and> distance (initCam st v) = distance cam \<and> cpitch (initCam st v) = cpitch cam \<and>
    cyaw (initCam st v) = cyaw cam \<and> getMatrix st (initCam st v) = getMatrix st cam"
proof -
  obtain x y z where o3: "origin cam = [x, y, z]" using assms(5) by (rule length_3_E)
  have keep: "or_default a 0 = a" "a \<noteq> 0 \<Longrightarrow> or_default a b = a" if "a \<noteq> NaN" for a b
    using that by (auto simp: or_default_def truthy_def)
  have "origin (initCam st v) = origin cam \<and> distance (initCam st v) = distance cam \<and> cpitch (initCam st v) = cpitch cam \<and>
      cyaw (initCam st v) = cyaw cam"
    using assms(1-4,6-8) keep eq_commute [of NaN]
    by (simp add: initCam_def initCam_config_def OrbitCam_new_def Let_def copy3_def o3 pose_numbers_def)
  then show ?thesis
    by (simp add: getMatrix_def getPosition_def getForward_def getUp_def)
qed

text \<open>C8. Round trip of a link: when the page is opened with the link that the key \<open>l\<close> makes, it asks for
  the same trees (for a choice of trees when none was shown), and the camera it creates from the
  link has the origin, distance, pitch and yaw of the camera the link was made from, hence the same
  view matrix. The names of the trees must not contain the characters that separate the parts of a
  link, the address must have no fragment, no number of the pose is NaN and the distance is not
  zero (a zero would be replaced by the default).\<close>

theorem link_reopens_view:
  assumes link: "view_link href names cam = Some url"
    and href: "CHR ''#'' \<notin> set href"
    and plain: "\<And>n. n \<in> set (List.map_filter id names) \<Longrightarrow> plain_text n \<and> n \<noteq> ''''"
    and origin: "length (origin cam) = 3" "map st (origin cam) = origin cam"
    and pose: "NaN \<notin> set (pose_numbers cam)" "distance cam \<noteq> 0"
  shows "requested_trees (location_search url) =
      (if List.map_filter id names = [] then None else Some (List.map_filter id names)) \<and>
    (\<exists>v. getViewpointFromQuery st (location_search url) = Some v \<and>
      origin (initCam st (cam_config.truncate v)) = origin cam \<and>
      distance (initCam st (cam_config.truncate v)) = distance cam \<and>
      cpitch (initCam st (cam_config.truncate v)) = cpitch cam \<and>
      cyaw (initCam st (cam_config.truncate v)) = cyaw cam \<and>
      getMatrix st (initCam st (cam_config.truncate v)) = getMatrix st cam)"
proof -
  obtain ts where split: "js_split ''&'' (location_search url) =
      [trees_part (List.map_filter id names), ''c_x='' @ ts ! 0, ''c_y='' @ ts ! 1, ''c_z='' @ ts ! 2, ''c_d='' @ ts ! 3,
       ''c_pi='' @ ts ! 4, ''c_ya='' @ ts ! 5]"
    by (rule link_reads [OF link href plain])
  have trees: "requested_trees (location_search url) =
      (if List.map_filter id names = [] then None else Some (List.map_filter id names))"
    using plain by (intro trees_part_variable [OF _ split]) auto
  obtain x y z where o3: "origin cam = [x, y, z]" using origin(1) by (rule length_3_E)
  let ?v = "\<lparr>cf_origin = Some (origin cam), cf_distance = distance cam, cf_pitch = cpitch cam, cf_yaw = cyaw cam,
    cf_closest = NaN, cf_farthest = NaN, view_name = getVariableFromQuery (location_search url) ''name''\<rparr>"
  have view: "getViewpointFromQuery st (location_search url) = Some ?v"
    using origin(2) pose(1)
    by (simp add: getViewpointFromQuery_def Let_def link_pose [OF link href plain] o3 pose_numbers_def eq_commute [of NaN])
  have "cf_origin (cam_config.truncate ?v) = Some (origin cam)" "cf_distance (cam_config.truncate ?v) = distance cam"
    "cf_pitch (cam_config.truncate ?v) = cpitch cam" "cf_yaw (cam_config.truncate ?v) = cyaw cam"
    by (simp_all add: cam_config.defs)
  from camera_from_pose [OF this origin pose] view trees show ?thesis
    by blast
qed

definition demo_camera :: camera where
  "demo_camera = OrbitCam_new f32
     \<lparr>cf_origin = Some (real3 (3 / 4) (-2) 5), cf_distance = Fin 12.5, cf_pitch = Fin (-0.25), cf_yaw = 0,
      cf_closest = NaN, cf_farthest = NaN\<rparr>"

lemma demo_camera_numbers:
  "pose_numbers demo_camera = [Fin (3 / 4), Fin (-2), Fin 5, Fin 12.5, Fin (-0.25), Fin 0]"
  "origin demo_camera = real3 (3 / 4) (-2) 5"
proof -
  have "f32 (Fin (3 / 4)) = Fin (3 / 4)" "f32 (Fin (-2)) = Fin (-2)" "f32 (Fin 5) = Fin 5"
    using f32_dyadic [of 3 "-2"] f32_dyadic [of "-2" 0] f32_dyadic [of 5 0] by (simp_all add: power_int_minus field_simps)
  then show "pose_numbers demo_camera = [Fin (3 / 4), Fin (-2), Fin 5, Fin 12.5, Fin (-0.25), Fin 0]"
    "origin demo_camera = real3 (3 / 4) (-2) 5"
    by (simp_all add: demo_camera_def pose_numbers_def OrbitCam_new_def Let_def copy3_def or_default_def real3_def)
qed

lemma link_reopens_view_witness:
  "\<exists>url v. view_link ''http://host/index.html?tree=ucd'' [Some ''ucd'', None, Some ''tahoe''] demo_camera = Some url \<and>
     requested_trees (location_search url) = Some [''ucd'', ''tahoe''] \<and>
     getViewpointFromQuery f32 (location_search url) = Some v \<and>
     getMatrix f32 (initCam f32 (cam_config.truncate v)) = getMatrix f32 demo_camera"
proof -
  have "\<exists>t. number_string x = Some t" if "x \<in> set (pose_numbers demo_camera)" for x
    using that number_string_decimal [of "3 / 4" 2] number_string_decimal [of "25 / 2" 1]
      number_string_decimal [of "- 1 / 4" 2] number_string_int [of "-2"] number_string_int [of 5]
    by (auto simp: demo_camera_numbers)
  then obtain url where link:
      "view_link ''http://host/index.html?tree=ucd'' [Some ''ucd'', None, Some ''tahoe''] demo_camera = Some url"
    using view_link_Some by blast
  have shown: "List.map_filter id [Some ''ucd'', None, Some ''tahoe''] = [''ucd'', ''tahoe'']"
    by (simp add: List.map_filter_def)
  have plain: "plain_text n \<and> n \<noteq> ''''" if "n \<in> set [''ucd'', ''tahoe'']" for n
    using that by (auto simp: separators_def)
  have stored: "map f32 (origin demo_camera) = origin demo_camera"
    using f32_idem [of "Fin (3 / 4)"] f32_idem [of "Fin (-2)"] f32_idem [of "Fin 5"]
    by (simp add: demo_camera_def OrbitCam_new_def Let_def copy3_def)
  have "distance demo_camera \<noteq> 0" using demo_camera_numbers(1) by (simp add: pose_numbers_def)
  from link_reopens_view [OF link _ _ _ stored _ this, unfolded shown] plain
  show ?thesis using link by (auto simp: demo_camera_numbers real3_def)
qed

end
