(* ===== verification/Metadata.thy ===== *)
theory Metadata
  imports JsText Querier
begin

text \<open>
  The metadata of a tree (\<open>js/metadata.js\<close>, \<open>MetaData\<close>), which the client reads from the file
  \<open>metadata.ini\<close>, and what it makes of it: the box of the root (\<open>getRootGeom\<close>) and the entry of the tree in
  \<open>trees_info\<close> (\<open>TreeInfo\<close>, both in \<open>js/megatree.js\<close>). The tree of a query (\<open>tree_info\<close>, theory Querier) is
  extended by its name and its metadata.

  The loop of the constructor is a \<open>for in\<close> over the array of lines. It also visits the function
  \<open>toArray\<close> that \<open>js/index.js\<close> adds to every array; its length is zero, so it counts as an empty line.
  The message box for a small \<open>subfolder_depth\<close> is the predicate \<open>depth_warning\<close>.
\<close>

section \<open>Reading metadata\<close>

record metadata =
  md_version :: jsnum
  subtree_width :: jsnum
  subfolder_depth :: jsnum
  min_cell_size :: jsnum
  root_size :: jsnum
  root_center :: farray
  camera_origin :: farray
  camera_distance :: jsnum
  camera_yaw :: jsnum
  camera_pitch :: jsnum
  with_viewpoint :: bool

definition metadata_defaults :: "(jsnum \<Rightarrow> jsnum) \<Rightarrow> metadata" where
  "metadata_defaults st =
     \<lparr>md_version = 0, subtree_width = 0, subfolder_depth = 0, min_cell_size = 0, root_size = 0,
      root_center = V3_new st 0 0 0, camera_origin = V3_new st 0 0 0, camera_distance = 0, camera_yaw = 0,
      camera_pitch = 0, with_viewpoint = False\<rparr>"

definition line_key :: "string \<Rightarrow> string" where
  "line_key line = js_split '' = '' line ! 0"

definition line_number :: "string \<Rightarrow> jsnum" where
  "line_number line = parseFloat (value_text (nth_value (js_split '' = '' line) 1))"

definition parse_line :: "(jsnum \<Rightarrow> jsnum) \<Rightarrow> metadata \<Rightarrow> string \<Rightarrow> metadata" where
  "parse_line st m line =
     (if line = '''' then m
      else
        (let key = line_key line; nr = line_number line in
         if key = ''version'' then m\<lparr>md_version := nr\<rparr>
         else if key = ''min_cell_size'' then m\<lparr>min_cell_size := nr\<rparr>
         else if key = ''subtree_width'' then m\<lparr>subtree_width := nr\<rparr>
         else if key = ''subfolder_depth'' then m\<lparr>subfolder_depth := nr\<rparr>
         else if key = ''tree_center_x'' then m\<lparr>root_center := (root_center m)[0 := st nr]\<rparr>
         else if key = ''tree_center_y'' then m\<lparr>root_center := (root_center m)[1 := st nr]\<rparr>
         else if key = ''tree_center_z'' then m\<lparr>root_center := (root_center m)[2 := st nr]\<rparr>
         else if key = ''tree_size'' then m\<lparr>root_size := nr\<rparr>
         else if key = ''default_camera_center_x'' then
           m\<lparr>with_viewpoint := True, camera_origin := (camera_origin m)[0 := st nr]\<rparr>
         else if key = ''default_camera_center_y'' then
           m\<lparr>with_viewpoint := True, camera_origin := (camera_origin m)[1 := st nr]\<rparr>
         else if key = ''default_camera_center_z'' then
           m\<lparr>with_viewpoint := True, camera_origin := (camera_origin m)[2 := st nr]\<rparr>
         else if key = ''default_camera_distance'' then m\<lparr>with_viewpoint := True, camera_distance := nr\<rparr>
         else if key = ''default_camera_yaw'' then m\<lparr>with_viewpoint := True, camera_yaw := nr\<rparr>
         else if key = ''default_camera_pitch'' then m\<lparr>with_viewpoint := True, camera_pitch := nr\<rparr>
         else m))"

definition MetaData :: "(jsnum \<Rightarrow> jsnum) \<Rightarrow> string \<Rightarrow> metadata" where
  "MetaData st file = foldl (parse_line st) (metadata_defaults st) (js_split ''\<newline>'' file)"

definition depth_warning :: "metadata \<Rightarrow> bool" where
  "depth_warning m \<longleftrightarrow> subfolder_depth m < 30"

text \<open>\<open>toString\<close>: a line for each field (\<open>None\<close> if some number has no text).\<close>

fun text_line :: "string \<Rightarrow> jsnum list \<Rightarrow> string option" where
  "text_line label xs =
     map_option (\<lambda>ts. label @ butlast (each_then CHR '' '' ts) @ ''\<newline>'') (those (map number_string xs))"

definition metadata_toString :: "metadata \<Rightarrow> string option" where
  "metadata_toString m =
     map_option concat (those
       [text_line ''  version: '' [md_version m],
        text_line ''  min_cell_size: '' [min_cell_size m],
        text_line ''  subtree_width: '' [subtree_width m],
        text_line ''  subfolder_depth: '' [subfolder_depth m],
        text_line ''  tree_center: '' [idx (root_center m) 0, idx (root_center m) 1, idx (root_center m) 2],
        text_line ''  tree_size: '' [root_size m],
        text_line ''  camera_origin: '' [idx (camera_origin m) 0, idx (camera_origin m) 1, idx (camera_origin m) 2],
        text_line ''  camera_distance: '' [camera_distance m],
        text_line ''  camera_yaw: '' [camera_yaw m],
        text_line ''  camera_pitch: '' [camera_pitch m]])"

section \<open>Trees\<close>

definition getRootGeom :: "(jsnum \<Rightarrow> jsnum) \<Rightarrow> metadata option \<Rightarrow> geom" where
  "getRootGeom st tree_metadata =
     (case tree_metadata of
        None \<Rightarrow> NodeGeometry (V3_new st 0 0 0) (V3_new st 0 0 0)
      | Some m \<Rightarrow>
          (let s = root_size m / 2; c = root_center m
           in NodeGeometry (V3_new st (idx c 0 - s) (idx c 1 - s) (idx c 2 - s))
                (V3_new st (idx c 0 + s) (idx c 1 + s) (idx c 2 + s))))"

record named_tree = tree_info +
  t_name :: string
  t_metadata :: metadata

definition TreeInfo :: "(jsnum \<Rightarrow> jsnum) \<Rightarrow> string \<Rightarrow> metadata \<Rightarrow> farray \<Rightarrow> named_tree" where
  "TreeInfo st name m color =
     \<lparr>t_enabled = True, t_override = False, t_color = color, t_root = name @ ''/f1'',
      t_geom = getRootGeom st (Some m), t_name = name, t_metadata = m\<rparr>"

section \<open>Which line counts\<close>

text \<open>The numbers that the lines of a text assign to a key, in order.\<close>

definition assigned :: "string \<Rightarrow> string \<Rightarrow> jsnum list" where
  "assigned file key =
     map line_number (filter (\<lambda>line. line \<noteq> '''' \<and> line_key line = key) (js_split ''\<newline>'' file))"

definition camera_keys :: "string list" where
  "camera_keys = [''default_camera_center_x'', ''default_camera_center_y'', ''default_camera_center_z'',
     ''default_camera_distance'', ''default_camera_yaw'', ''default_camera_pitch'']"

text \<open>A field that a step sets to a value for the lines of one key holds that of the last such line.\<close>

lemma foldl_last_assigned:
  assumes "\<And>m line. P m \<Longrightarrow> P (step m line)"
    and "\<And>m line. P m \<Longrightarrow> f (step m line) = (if sel line then g line else f m)"
  shows "P m \<Longrightarrow> f (foldl step m ls) = last (f m # map g (filter sel ls))"
  using assms by (induction ls arbitrary: m) simp_all

definition metadata_arrays :: "metadata \<Rightarrow> bool" where
  "metadata_arrays m \<longleftrightarrow> length (root_center m) = 3 \<and> length (camera_origin m) = 3"

lemma parse_line_arrays: "metadata_arrays m \<Longrightarrow> metadata_arrays (parse_line st m line)"
  by (simp add: metadata_arrays_def parse_line_def Let_def)

lemma MetaData_last:
  assumes "\<And>m line. metadata_arrays m \<Longrightarrow>
      f (parse_line st m line) = (if line \<noteq> '''' \<and> line_key line = key then g (line_number line) else f m)"
  shows "f (MetaData st file) = last (f (metadata_defaults st) # map g (assigned file key))"
proof -
  have "metadata_arrays (metadata_defaults st)"
    by (simp add: metadata_arrays_def metadata_defaults_def V3_new_def)
  from foldl_last_assigned [of metadata_arrays "parse_line st" f "\<lambda>line. line \<noteq> '''' \<and> line_key line = key"
      "\<lambda>line. g (line_number line)" "metadata_defaults st" "js_split ''\<newline>'' file", OF _ _ this]
  show ?thesis
    using assms parse_line_arrays unfolding MetaData_def assigned_def by (simp add: comp_def)
qed

lemma MetaData_arrays: "metadata_arrays (MetaData st file)"
proof -
  have "metadata_arrays (foldl (parse_line st) m ls)" if "metadata_arrays m" for m ls
    using that by (induction ls arbitrary: m) (simp_all add: parse_line_arrays)
  moreover have "metadata_arrays (metadata_defaults st)"
    by (simp add: metadata_arrays_def metadata_defaults_def V3_new_def)
  ultimately show ?thesis by (simp add: MetaData_def)
qed

lemma idx_update3: "length a = 3 \<Longrightarrow> i < 3 \<Longrightarrow> idx (a[i := x]) j = (if j = i then x else idx a j)"
  by (simp add: idx_def)

lemma last_map_Cons: "last (f x # map f xs) = f (last (x # xs))"
  using last_map [of "x # xs" f] by simp

lemma MetaData_scalar:
  assumes "\<And>m line. f (parse_line st m line) = (if line \<noteq> '''' \<and> line_key line = key then line_number line else f m)"
    and "f (metadata_defaults st) = 0"
  shows "f (MetaData st file) = last (0 # assigned file key)"
  using MetaData_last [of f st key "\<lambda>x. x" "file"] assms by simp

lemma MetaData_element:
  assumes "\<And>m line. metadata_arrays m \<Longrightarrow> idx (arr (parse_line st m line)) i =
        (if line \<noteq> '''' \<and> line_key line = key then st (line_number line) else idx (arr m) i)"
    and "idx (arr (metadata_defaults st)) i = st 0"
  shows "idx (arr (MetaData st file)) i = st (last (0 # assigned file key))"
  using MetaData_last [of "\<lambda>m. idx (arr m) i" st key st "file"] assms last_map_Cons [of st 0] by simp

lemma array_of_elements:
  "length a = 3 \<Longrightarrow> idx a 0 = h k0 \<Longrightarrow> idx a 1 = h k1 \<Longrightarrow> idx a 2 = h k2 \<Longrightarrow> a = map h [k0, k1, k2]"
  by (auto simp: length_3_conv)

lemmas parse_line_elements = parse_line_def Let_def metadata_defaults_def V3_new_def metadata_arrays_def idx_update3

lemma MetaData_center:
  "root_center (MetaData st file) =
     map (\<lambda>key. st (last (0 # assigned file key))) [''tree_center_x'', ''tree_center_y'', ''tree_center_z'']"
  by (rule array_of_elements [OF MetaData_arrays [unfolded metadata_arrays_def, THEN conjunct1]];
      rule MetaData_element; simp add: parse_line_elements)

lemma MetaData_camera:
  "camera_origin (MetaData st file) =
     map (\<lambda>key. st (last (0 # assigned file key)))
       [''default_camera_center_x'', ''default_camera_center_y'', ''default_camera_center_z'']"
  by (rule array_of_elements [OF MetaData_arrays [unfolded metadata_arrays_def, THEN conjunct2]];
      rule MetaData_element; simp add: parse_line_elements)

lemma parse_line_view:
  "with_viewpoint (parse_line st m line) \<longleftrightarrow>
     with_viewpoint m \<or> (line \<noteq> '''' \<and> line_key line \<in> set camera_keys)"
  by (auto simp: parse_line_def Let_def camera_keys_def)

lemma MetaData_view:
  "with_viewpoint (MetaData st file) \<longleftrightarrow> (\<exists>key \<in> set camera_keys. assigned file key \<noteq> [])"
proof -
  have "with_viewpoint (foldl (parse_line st) m ls) \<longleftrightarrow>
      with_viewpoint m \<or> (\<exists>line \<in> set ls. line \<noteq> '''' \<and> line_key line \<in> set camera_keys)" for m ls
    by (induction ls arbitrary: m) (auto simp: parse_line_view)
  then show ?thesis
    by (auto simp: MetaData_def metadata_defaults_def assigned_def filter_empty_conv)
qed

text \<open>C21. Whatever the text of a metadata file is, every field of the metadata is read from the last
  line that assigns to its key, and is zero when there is none; the coordinates of the centre and of
  the camera are converted by the arrays that hold them, a line without a number gives NaN, and the
  metadata has a viewpoint exactly when some camera line is present.\<close>

theorem metadata_last_line:
  "md_version (MetaData st file) = last (0 # assigned file ''version'') \<and>
    min_cell_size (MetaData st file) = last (0 # assigned file ''min_cell_size'') \<and>
    subtree_width (MetaData st file) = last (0 # assigned file ''subtree_width'') \<and>
    subfolder_depth (MetaData st file) = last (0 # assigned file ''subfolder_depth'') \<and>
    root_size (MetaData st file) = last (0 # assigned file ''tree_size'') \<and>
    root_center (MetaData st file) =
      map (\<lambda>key. st (last (0 # assigned file key))) [''tree_center_x'', ''tree_center_y'', ''tree_center_z''] \<and>
    camera_origin (MetaData st file) =
      map (\<lambda>key. st (last (0 # assigned file key)))
        [''default_camera_center_x'', ''default_camera_center_y'', ''default_camera_center_z''] \<and>
    camera_distance (MetaData st file) = last (0 # assigned file ''default_camera_distance'') \<and>
    camera_yaw (MetaData st file) = last (0 # assigned file ''default_camera_yaw'') \<and>
    camera_pitch (MetaData st file) = last (0 # assigned file ''default_camera_pitch'') \<and>
    (with_viewpoint (MetaData st file) \<longleftrightarrow> (\<exists>key. key \<in> set camera_keys \<and> assigned file key \<noteq> []))"
proof -
  note MetaData_center [of st "file"] MetaData_camera [of st "file"]
  moreover have "md_version (MetaData st file) = last (0 # assigned file ''version'')"
    "min_cell_size (MetaData st file) = last (0 # assigned file ''min_cell_size'')"
    "subtree_width (MetaData st file) = last (0 # assigned file ''subtree_width'')"
    "subfolder_depth (MetaData st file) = last (0 # assigned file ''subfolder_depth'')"
    "root_size (MetaData st file) = last (0 # assigned file ''tree_size'')"
    "camera_distance (MetaData st file) = last (0 # assigned file ''default_camera_distance'')"
    "camera_yaw (MetaData st file) = last (0 # assigned file ''default_camera_yaw'')"
    "camera_pitch (MetaData st file) = last (0 # assigned file ''default_camera_pitch'')"
    by (rule MetaData_scalar; simp add: parse_line_elements)+
  ultimately show ?thesis using MetaData_view by blast
qed


section \<open>The box of the root\<close>

lemma f32_large: "f32 (Fin (2 ^ 127)) = Fin (2 ^ 127)" "f32 (Fin (- (2 ^ 127))) = Fin (- (2 ^ 127))"
proof -
  have eq: "(of_int (2 ^ 23) * 2 powi 104 :: real) = 2 ^ 127"
    by (simp only: power_int_def) (simp flip: power_add)
  show "f32 (Fin (2 ^ 127)) = Fin (2 ^ 127)"
    using f32_dyadic [of "2 ^ 23" 104] unfolding eq by simp
  then show "f32 (Fin (- (2 ^ 127))) = Fin (- (2 ^ 127))"
    using f32_minus [of "Fin (2 ^ 127)"] by (simp only: uminus_jsnum.simps)
qed

lemma root_axis:
  assumes "f32 (Fin c) = Fin c" "0 \<le> s" "\<bar>c\<bar> + s \<le> 2 ^ 127"
  obtains a b where "f32 (Fin (c - s)) = Fin a" "f32 (Fin (c + s)) = Fin b" "a \<le> c" "c \<le> b"
    "is_f32 (Fin a)" "is_f32 (Fin b)"
proof -
  have st: "f32_store.stored (Fin c)" "f32_store.stored (Fin (2 ^ 127))" "f32_store.stored (Fin (- (2 ^ 127)))"
    unfolding f32_store.stored_def using assms(1) f32_large by blast+
  have le: "- (2 ^ 127) \<le> c - s" "c - s \<le> c" "c \<le> c + s" "c + s \<le> 2 ^ 127"
    using assms(2,3) by linarith+
  obtain a where a: "f32 (Fin (c - s)) = Fin a" "a \<le> c"
    by (rule f32_store.st_between_finite [OF st(3,1) le(1,2)]) blast
  obtain b where b: "f32 (Fin (c + s)) = Fin b" "c \<le> b"
    by (rule f32_store.st_between_finite [OF st(1,2) le(3,4)]) blast
  show thesis using that a b is_f32_f32 by metis
qed

text \<open>The coordinates of the centre of the metadata.\<close>

definition center_at :: "metadata \<Rightarrow> (nat \<Rightarrow> real) \<Rightarrow> bool" where
  "center_at m c \<longleftrightarrow> root_center m = [Fin (c 0), Fin (c 1), Fin (c 2)]"

text \<open>C20. Well-formed trees: if a metadata file gives a finite centre and a finite size that is not
  negative and below \<open>2 ^ 127\<close> altogether, then the box of the root of its tree is proper (its corners are
  finite single-precision numbers in order) and contains the centre, in spite of the rounding of the
  corners, the tree is shown at first, and the box of every cell below the root is proper as well.\<close>

theorem tree_boxes_proper:
  assumes "center_at (MetaData f32 file) c" and "root_size (MetaData f32 file) = Fin w" and "0 \<le> w"
    and "\<bar>c 0\<bar> + w / 2 \<le> 2 ^ 127" "\<bar>c 1\<bar> + w / 2 \<le> 2 ^ 127" "\<bar>c 2\<bar> + w / 2 \<le> 2 ^ 127"
  shows "box_ok (t_geom (TreeInfo f32 name (MetaData f32 file) color)) \<and>
    in_box (t_geom (TreeInfo f32 name (MetaData f32 file) color)) c \<and>
    t_enabled (TreeInfo f32 name (MetaData f32 file) color) \<and>
    (\<forall>path. box_ok (descend (t_geom (TreeInfo f32 name (MetaData f32 file) color)) path))"
proof -
  let ?m = "MetaData f32 file" and ?g = "t_geom (TreeInfo f32 name (MetaData f32 file) color)"
  have "root_center ?m = map (\<lambda>key. f32 (last (0 # assigned file key)))
      [''tree_center_x'', ''tree_center_y'', ''tree_center_z'']"
    by (rule MetaData_center)
  then have "Fin (c 0) = f32 (last (0 # assigned file ''tree_center_x''))"
    "Fin (c 1) = f32 (last (0 # assigned file ''tree_center_y''))"
    "Fin (c 2) = f32 (last (0 # assigned file ''tree_center_z''))"
    using assms(1) by (simp_all add: center_at_def)
  then have "f32 (Fin (c 0)) = Fin (c 0)" "f32 (Fin (c 1)) = Fin (c 1)" "f32 (Fin (c 2)) = Fin (c 2)"
    using f32_idem by metis+
  then have stored: "f32 (Fin (c i)) = Fin (c i)" if "i < 3" for i
    using axis_cases [OF that] by auto
  have axis: "axis_ok ?g i \<and> axis_in ?g i (c i)" if i: "i < 3" for i
  proof -
    have "\<bar>c i\<bar> + w / 2 \<le> 2 ^ 127" using assms(4-6) i by (auto dest!: axis_cases)
    from root_axis [OF stored [OF i] _ this] assms(3) obtain a b where
        "f32 (Fin (c i - w / 2)) = Fin a" "f32 (Fin (c i + w / 2)) = Fin b" "a \<le> c i" "c i \<le> b"
        "is_f32 (Fin a)" "is_f32 (Fin b)" by auto
    moreover have "idx (lo ?g) i = f32 (Fin (c i - w / 2))" "idx (hi ?g) i = f32 (Fin (c i + w / 2))"
      using assms(1,2) i
      by (auto simp: TreeInfo_def getRootGeom_def center_at_def NodeGeometry_def V3_new_def dest!: axis_cases)
    ultimately show ?thesis by (auto simp: axis_ok_def axis_in_def)
  qed
  then have "box_ok ?g" "in_box ?g c" by (auto simp: box_ok_def in_box_def)
  then show ?thesis using descend_ok by (simp add: TreeInfo_def)
qed

definition demo_file :: string where
  "demo_file = ''version = 1\<newline>tree_center_x = 2\<newline>tree_center_z = -3\<newline>tree_size = 16\<newline>''"

lemma demo_metadata:
  "assigned demo_file ''tree_center_x'' = [Fin 2]" "assigned demo_file ''tree_center_y'' = []"
  "assigned demo_file ''tree_center_z'' = [Fin (-3)]" "assigned demo_file ''tree_size'' = [Fin 16]"
  by (simp_all add: demo_file_def assigned_def js_split_eval line_key_def line_number_def nth_value_def
      parseFloat_def read_unsigned_def span_digits_def is_digit_def is_space_def read_fraction_def
      digits_value_def digit_value_def read_exponent_def)

lemma demo_tree:
  "center_at (MetaData f32 demo_file) (\<lambda>i. if i = 0 then 2 else if i = 1 then 0 else -3)"
  "root_size (MetaData f32 demo_file) = Fin 16"
proof -
  have "f32_real 2 = Fin 2" "f32_real (-3) = Fin (-3)"
    using f32_dyadic [of 2 0] f32_dyadic [of "-3" 0] by simp_all
  then show "center_at (MetaData f32 demo_file) (\<lambda>i. if i = 0 then 2 else if i = 1 then 0 else -3)"
    by (simp add: center_at_def MetaData_center demo_metadata)
  have "root_size (MetaData f32 demo_file) = last (0 # assigned demo_file ''tree_size'')"
    by (rule MetaData_scalar; simp add: parse_line_elements)
  then show "root_size (MetaData f32 demo_file) = Fin 16" by (simp add: demo_metadata)
qed

lemma tree_boxes_proper_witness:
  "box_ok (t_geom (TreeInfo f32 ''tahoe'' (MetaData f32 demo_file) [1, 0, 0]))"
  using tree_boxes_proper [OF demo_tree] by simp

end
