(* ===== verification/Loading.thy ===== *)
theory Loading
  imports ViewLinks Metadata
begin

text \<open>
  Loading of files and small helpers: \<open>getMany\<close> (several files at once), the connection checker, the
  requests and handlers of \<open>getMetaData\<close>, \<open>getViews\<close> and \<open>getSupportedTrees\<close> (\<open>js/megatree.js\<close>), the matrix stack and the text of a number of bytes (\<open>js/index.js\<close>). What a callback is
  called with is a value of the model; a call of something that is no function is \<open>None\<close>.
\<close>

section \<open>Several files at once\<close>

text \<open>\<open>calls\<close> are the calls of the two callbacks: whether it is the success callback, and its argument.\<close>

record many =
  numPending :: int
  numFailed :: nat
  results :: "string option list"
  calls :: "(bool \<times> string option list) list"

definition getMany :: "string list \<Rightarrow> many" where
  "getMany urls =
     \<lparr>numPending = int (length urls), numFailed = 0, results = replicate (length urls) None, calls = []\<rparr>"

text \<open>The reply to one request: the text of the file, or an error.\<close>

definition file_arrives :: "nat \<times> string option \<Rightarrow> many \<Rightarrow> many" where
  "file_arrives r s =
     (case r of
        (i, Some file) \<Rightarrow>
          (let s = s\<lparr>results := (results s)[i := Some file]\<rparr>;
               s = s\<lparr>numPending := numPending s - 1\<rparr>
           in if numPending s = 0 then
                (if numFailed s = 0 then s\<lparr>calls := calls s @ [(True, results s)]\<rparr>
                 else s\<lparr>calls := calls s @ [(False, results s)]\<rparr>)
              else s)
      | (i, None) \<Rightarrow>
          (let s = s\<lparr>numFailed := numFailed s + 1\<rparr>;
               s = s\<lparr>numPending := numPending s - 1\<rparr>
           in if numPending s = 0 then s\<lparr>calls := calls s @ [(False, results s)]\<rparr> else s))"

definition files_arrive :: "(nat \<times> string option) list \<Rightarrow> many \<Rightarrow> many" where
  "files_arrive rs s = foldl (\<lambda>s r. file_arrives r s) s rs"

section \<open>The connection checker\<close>

text \<open>Timers and pings are counted; \<open>timeout\<close> is the last timer that was set.\<close>

record checker =
  backoff :: nat
  check_timers :: "nat list"
  check_timeout :: "nat option"
  next_timer :: nat
  pings :: nat

definition check :: "checker \<Rightarrow> checker" where
  "check s =
     s\<lparr>check_timers := (case check_timeout s of None \<Rightarrow> check_timers s
                        | Some t \<Rightarrow> filter (\<lambda>u. u \<noteq> t) (check_timers s)),
       pings := pings s + 1\<rparr>"

definition ServerConnectionChecker :: checker where
  "ServerConnectionChecker =
     check \<lparr>backoff = 1000, check_timers = [], check_timeout = None, next_timer = 0, pings = 0\<rparr>"

definition set_check_timer :: "checker \<Rightarrow> checker" where
  "set_check_timer s =
     s\<lparr>check_timers := check_timers s @ [next_timer s], check_timeout := Some (next_timer s), next_timer := next_timer s + 1\<rparr>"

datatype check_event = Ping_success | Ping_error | Check_timer nat | Retry

text \<open>A ping can end only if one is under way, a timer fire only if it is set.\<close>

definition check_step :: "check_event \<Rightarrow> checker \<Rightarrow> checker" where
  "check_step e s =
     (case e of
        Ping_success \<Rightarrow>
          if pings s = 0 then s else set_check_timer (s\<lparr>pings := pings s - 1, backoff := 1000\<rparr>)
      | Ping_error \<Rightarrow>
          if pings s = 0 then s
          else set_check_timer (s\<lparr>pings := pings s - 1, backoff := min (2 * backoff s) (5 * 60 * 1000)\<rparr>)
      | Check_timer t \<Rightarrow>
          if t \<in> set (check_timers s) then check (s\<lparr>check_timers := filter (\<lambda>u. u \<noteq> t) (check_timers s)\<rparr>) else s
      | Retry \<Rightarrow> check s)"

definition check_run :: "check_event list \<Rightarrow> checker \<Rightarrow> checker" where
  "check_run es s = foldl (\<lambda>s e. check_step e s) s es"

section \<open>Requests for text and their replies\<close>

record text_request =
  tr_method :: string
  tr_url :: string
  tr_responseType :: string

definition getMetaData :: "string \<Rightarrow> text_request" where
  "getMetaData tree_name =
     \<lparr>tr_method = ''GET'', tr_url = ''/files/'' @ tree_name @ ''/metadata.ini'', tr_responseType = ''text''\<rparr>"

definition getViews :: "string \<Rightarrow> text_request" where
  "getViews tree_name =
     \<lparr>tr_method = ''GET'', tr_url = ''/files/'' @ tree_name @ ''/views.ini'', tr_responseType = ''text''\<rparr>"

definition getSupportedTrees :: text_request where
  "getSupportedTrees = \<lparr>tr_method = ''GET'', tr_url = ''/files/supported_trees'', tr_responseType = ''text''\<rparr>"

datatype load_result = Loaded_metadata string metadata | Loaded_views string "viewpoint list"
  | Loaded_trees "string list" | Load_failed | Load_ignored

definition getMetaData_onload :: "(jsnum \<Rightarrow> jsnum) \<Rightarrow> string \<Rightarrow> nat \<Rightarrow> string \<Rightarrow> load_result" where
  "getMetaData_onload st tree status response =
     (if status = 200 then Loaded_metadata tree (MetaData st response) else Load_failed)"

definition getViews_onload :: "(jsnum \<Rightarrow> jsnum) \<Rightarrow> string \<Rightarrow> nat \<Rightarrow> string \<Rightarrow> load_result" where
  "getViews_onload st tree status response =
     (if status = 200 then Loaded_views tree (views_of st response) else Load_ignored)"

text \<open>
  The default of the failure callback of \<open>getSupportedTrees\<close> is never used, since its test compares with the
  misspelt \<open>undefiend\<close>: without a callback (\<open>has_failure\<close> false) a failure throws.
\<close>

definition getSupportedTrees_onload :: "bool \<Rightarrow> nat \<Rightarrow> string \<Rightarrow> load_result option" where
  "getSupportedTrees_onload has_failure status response =
     (if status = 200 then Some (Loaded_trees (js_split '','' response))
      else if has_failure then Some Load_failed else None)"

section \<open>Matrices, bytes\<close>

text \<open>
  The stack is an array of JavaScript. When it is empty, \<open>load\<close> writes its property \<open>-1\<close>, which the next read of
  the top finds.
\<close>

record matrix_stack =
  stack_items :: "farray list"
  below_bottom :: "farray option"

definition MatrixStack :: matrix_stack where
  "MatrixStack = \<lparr>stack_items = [M4x4_I], below_bottom = None\<rparr>"

definition stack_top :: "matrix_stack \<Rightarrow> farray option" where
  "stack_top s = (if stack_items s = [] then below_bottom s else Some (last (stack_items s)))"

text \<open>After too many pops the top may be \<open>undefined\<close>; copying that gives an empty array.\<close>

definition stack_peek :: "(jsnum \<Rightarrow> jsnum) \<Rightarrow> matrix_stack \<Rightarrow> farray" where
  "stack_peek st s = M4x4_clone st (case stack_top s of None \<Rightarrow> [] | Some m \<Rightarrow> m)"

definition stack_push :: "(jsnum \<Rightarrow> jsnum) \<Rightarrow> matrix_stack \<Rightarrow> matrix_stack" where
  "stack_push st s = s\<lparr>stack_items := stack_items s @ [stack_peek st s]\<rparr>"

definition stack_pop :: "matrix_stack \<Rightarrow> matrix_stack" where
  "stack_pop s = s\<lparr>stack_items := butlast (stack_items s)\<rparr>"

definition stack_load :: "farray \<Rightarrow> matrix_stack \<Rightarrow> matrix_stack" where
  "stack_load m s =
     (if stack_items s = [] then s\<lparr>below_bottom := Some m\<rparr>
      else s\<lparr>stack_items := (stack_items s)[length (stack_items s) - 1 := m]\<rparr>)"

definition stack_mult :: "(jsnum \<Rightarrow> jsnum) \<Rightarrow> farray \<Rightarrow> matrix_stack \<Rightarrow> matrix_stack" where
  "stack_mult st m s = stack_load (M4x4_mul st (stack_peek st s) m) s"

text \<open>\<open>toFixed(1)\<close> of a number that is not negative and below \<open>10 ^ 21\<close>: the nearest tenth, the larger of two.\<close>

definition toFixed1 :: "real \<Rightarrow> string" where
  "toFixed1 x = (let n = nat \<lfloor>x * 10 + 1 / 2\<rfloor> in nat_digits (n div 10) @ ''.'' @ nat_digits (n mod 10))"

definition prettyBytes :: "nat \<Rightarrow> string option" where
  "prettyBytes b =
     (let kib = real b / 1024; mib = kib / 1024; gib = mib / 1024
      in if gib > 1 then Some (toFixed1 gib @ '' GiB'')
         else if mib > 1 then Some (toFixed1 mib @ '' MiB'')
         else if kib > 1 then Some (toFixed1 kib @ '' KiB'')
         else map_option (\<lambda>t. t @ '' bytes'') (number_string (Fin (real b))))"

section \<open>What \<open>getMany\<close> answers\<close>

text \<open>What the replies \<open>rs\<close> leave in the array of results.\<close>

definition texts_of :: "nat \<Rightarrow> (nat \<times> string option) list \<Rightarrow> string option list" where
  "texts_of n rs = map (\<lambda>i. case map_of rs i of Some (Some t) \<Rightarrow> Some t | _ \<Rightarrow> None) [0..<n]"

definition failures :: "(nat \<times> string option) list \<Rightarrow> nat" where
  "failures rs = length (filter (\<lambda>r. snd r = None) rs)"

lemma files_arrive_snoc: "files_arrive (rs @ [r]) s = file_arrives r (files_arrive rs s)"
  by (simp add: files_arrive_def)

lemma failures_snoc: "failures (rs @ [r]) = failures rs + (if snd r = None then 1 else 0)"
  by (simp add: failures_def)

lemma texts_of_snoc:
  assumes "i \<notin> fst ` set rs"
  shows "texts_of n (rs @ [(i, r)]) = (case r of None \<Rightarrow> texts_of n rs | Some t \<Rightarrow> (texts_of n rs)[i := Some t])"
proof -
  have fresh: "map_of rs i = None"
    using assms by (simp add: map_of_eq_None_iff)
  show ?thesis
    by (rule nth_equalityI)
      (auto simp: texts_of_def map_add_def nth_list_update fresh split: option.splits)
qed

text \<open>Before the last reply, no callback has run and the counters say how many replies are missing.\<close>

lemma files_on_the_way:
  assumes "distinct (map fst rs)" and "length rs < length urls"
  shows "files_arrive rs (getMany urls) =
    \<lparr>numPending = int (length urls) - int (length rs), numFailed = failures rs,
     results = texts_of (length urls) rs, calls = []\<rparr>"
  using assms
proof (induction rs rule: rev_induct)
  case Nil
  then show ?case
    by (simp add: files_arrive_def getMany_def failures_def texts_of_def map_replicate_const)
next
  case (snoc r rs)
  obtain i a where r: "r = (i, a)"
    by (cases r)
  have fresh: "i \<notin> fst ` set rs" and IH: "files_arrive rs (getMany urls) =
    \<lparr>numPending = int (length urls) - int (length rs), numFailed = failures rs,
     results = texts_of (length urls) rs, calls = []\<rparr>"
    using snoc by (simp_all add: r)
  have more: "int (length urls) - int (length rs) - 1 \<noteq> 0"
    using snoc.prems(2) by simp
  show ?case
    by (cases a)
      (use more in \<open>simp_all add: r files_arrive_snoc IH file_arrives_def failures_snoc texts_of_snoc [OF fresh] Let_def\<close>)
qed

text \<open>The last reply runs one callback.\<close>

lemma last_file_arrives:
  assumes "distinct (map fst (rs @ [r]))" and "length urls = Suc (length rs)"
  shows "calls (files_arrive (rs @ [r]) (getMany urls)) =
    [(failures (rs @ [r]) = 0, texts_of (length urls) (rs @ [r]))]"
proof -
  obtain i a where r: "r = (i, a)"
    by (cases r)
  have fresh: "i \<notin> fst ` set rs"
    using assms(1) by (simp add: r)
  have IH: "files_arrive rs (getMany urls) =
    \<lparr>numPending = int (length urls) - int (length rs), numFailed = failures rs,
     results = texts_of (length urls) rs, calls = []\<rparr>"
    by (rule files_on_the_way) (use assms in simp_all)
  show ?thesis
    by (cases a)
      (use assms(2) in \<open>simp_all add: r files_arrive_snoc IH file_arrives_def failures_snoc texts_of_snoc [OF fresh] Let_def\<close>)
qed

lemma failures_0: "failures rs = 0 \<longleftrightarrow> (\<forall>r \<in> set rs. snd r \<noteq> None)"
  by (auto simp: failures_def filter_empty_conv)

lemma all_given:
  assumes "distinct (map fst rs)" and "fst ` set rs = {..<n}"
  shows "length rs = n" and "i < n \<Longrightarrow> map_of rs i \<noteq> None"
    and "texts_of n rs = map (\<lambda>i. the (map_of rs i)) [0..<n]"
proof -
  show "length rs = n"
    using assms distinct_card [OF assms(1)] by simp
  show given: "map_of rs i \<noteq> None" if "i < n" for i
    using assms(2) that map_of_eq_None_iff [of rs i] by auto
  show "texts_of n rs = map (\<lambda>i. the (map_of rs i)) [0..<n]"
    unfolding texts_of_def
  proof (rule map_cong [OF refl])
    fix i assume "i \<in> set [0..<n]"
    then obtain a where "map_of rs i = Some a"
      using given [of i] by auto
    then show "(case map_of rs i of None \<Rightarrow> None | Some None \<Rightarrow> None | Some (Some t) \<Rightarrow> Some t) = the (map_of rs i)"
      by (simp split: option.splits)
  qed
qed

lemma no_failures:
  assumes "distinct (map fst rs)" and "fst ` set rs = {..<n}"
  shows "failures rs = 0 \<longleftrightarrow> (\<forall>i<n. map_of rs i \<noteq> Some None)"
proof -
  have "(i, None) \<in> set rs \<longleftrightarrow> i < n \<and> map_of rs i = Some None" for i
    using assms by (auto simp: map_of_eq_Some_iff image_iff) (force simp: set_eq_iff image_iff)
  moreover have "failures rs = 0 \<longleftrightarrow> (\<forall>i. (i, None) \<notin> set rs)"
    unfolding failures_0 by (metis prod.collapse snd_conv)
  ultimately show ?thesis
    by blast
qed

text \<open>C22. \<open>getMany\<close> of at least one file answers once: when every request has been answered, in whatever order, exactly one
  callback has been called, with the texts in the order of the urls; it is the success callback if and only if no request
  failed, and before the last reply none was called. Without files no reply comes, so that neither callback is ever called.\<close>

theorem getMany_answers_once:
  assumes "distinct (map fst rs)" and "fst ` set rs = {..<length urls}"
  shows "calls (files_arrive rs (getMany urls)) =
      (if urls = [] then []
       else [(\<forall>i<length urls. map_of rs i \<noteq> Some None, map (\<lambda>i. the (map_of rs i)) [0..<length urls])]) \<and>
    (\<forall>k<length urls. calls (files_arrive (take k rs) (getMany urls)) = [])"
proof (intro conjI allI impI)
  note g = all_given [OF assms] no_failures [OF assms]
  show "calls (files_arrive rs (getMany urls)) =
      (if urls = [] then []
       else [(\<forall>i<length urls. map_of rs i \<noteq> Some None, map (\<lambda>i. the (map_of rs i)) [0..<length urls])])"
  proof (cases rs rule: rev_cases)
    case Nil
    with g(1) show ?thesis
      by (simp add: files_arrive_def getMany_def)
  next
    case (snoc rs' r)
    have "calls (files_arrive rs (getMany urls)) = [(failures rs = 0, texts_of (length urls) rs)]"
      unfolding snoc by (rule last_file_arrives) (use assms(1) g(1) snoc in simp_all)
    moreover have "urls \<noteq> []"
      using g(1) snoc by auto
    ultimately show ?thesis
      by (simp only: g(3) g(4) if_False)
  qed
  show "calls (files_arrive (take k rs) (getMany urls)) = []" if "k < length urls" for k
    using that assms(1) g(1) files_on_the_way [of "take k rs" urls] by (simp add: take_map [symmetric] distinct_take)
qed

theorem getMany_answers_once_witness:
  "calls (files_arrive [(1, Some ''b''), (0, None)] (getMany [''x'', ''y''])) = [(False, [None, Some ''b''])] \<and>
   calls (files_arrive (take 1 [(1, Some ''b''), (0, None)]) (getMany [''x'', ''y''])) = []"
proof -
  have d: "distinct (map fst [(1::nat, Some ''b''), (0, None)])"
    by simp
  have i: "fst ` set [(1, Some ''b''), (0, None)] = {..<length [''x'', ''y'']}"
    by (auto simp: lessThan_Suc)
  have bad: "(\<forall>i<length [''x'', ''y'']. map_of [(1::nat, Some ''b''), (0, None)] i \<noteq> Some None) = False"
    by (auto intro: exI [of _ 0])
  have "map (\<lambda>i. the (map_of [(1::nat, Some ''b''), (0, None)] i)) [0..<length [''x'', ''y'']] = [None, Some ''b'']"
    by (simp add: upt_rec)
  with bad show ?thesis
    using getMany_answers_once [OF d i]
    by (intro conjI) (simp only: list.simps if_False, elim conjE allE [of _ "1 :: nat"], simp)
qed

section \<open>How often the server is asked\<close>

text \<open>Retries of the user among the events.\<close>

definition retries :: "check_event list \<Rightarrow> nat" where
  "retries es = length (filter (\<lambda>e. e = Retry) es)"

text \<open>What is under way: pings and timers. The timers are those given out, each once.\<close>

definition asking :: "checker \<Rightarrow> nat" where
  "asking s = pings s + length (check_timers s)"

definition checker_ok :: "checker \<Rightarrow> bool" where
  "checker_ok s \<longleftrightarrow>
     1000 \<le> backoff s \<and> backoff s \<le> 300000 \<and> distinct (check_timers s) \<and> (\<forall>t \<in> set (check_timers s). t < next_timer s) \<and>
     1 \<le> asking s"

lemma length_filter_other:
  assumes "distinct ts" and "t \<in> set ts"
  shows "Suc (length (filter (\<lambda>u. u \<noteq> t) ts)) = length ts"
  using assms length_filter_key [of "map (\<lambda>t. (t, ())) ts" t]
  by (simp add: filter_map o_def image_image)

lemma check_keeps: "checker_ok s \<Longrightarrow> checker_ok (check s)"
  by (auto simp: checker_ok_def check_def asking_def split: option.splits)

lemma set_check_timer_keeps:
  assumes "1000 \<le> backoff s" and "backoff s \<le> 300000" and "distinct (check_timers s)"
    and "\<forall>t \<in> set (check_timers s). t < next_timer s"
  shows "checker_ok (set_check_timer s)"
  using assms by (auto simp: checker_ok_def set_check_timer_def asking_def less_Suc_eq)

lemma check_asking: "asking (check s) \<le> Suc (asking s)"
  by (auto simp: check_def asking_def split: option.splits)

lemma set_check_timer_asking: "asking (set_check_timer s) = Suc (asking s)"
  by (simp add: set_check_timer_def asking_def)

lemma check_step_keeps:
  assumes "checker_ok s"
  shows "checker_ok (check_step e s)"
    and "asking (check_step e s) \<le> asking s + (if e = Retry then 1 else 0)"
proof -
  show "checker_ok (check_step e s)"
    using assms
    by (cases e)
      (auto simp: check_step_def check_keeps checker_ok_def [of s] intro!: set_check_timer_keeps,
       auto simp: checker_ok_def check_def asking_def split: option.splits)
  show "asking (check_step e s) \<le> asking s + (if e = Retry then 1 else 0)"
  proof (cases e)
    case (Check_timer t)
    show ?thesis
    proof (cases "t \<in> set (check_timers s)")
      case True
      then have "Suc (asking (s\<lparr>check_timers := filter (\<lambda>u. u \<noteq> t) (check_timers s)\<rparr>)) = asking s"
        using assms by (simp add: asking_def checker_ok_def length_filter_other)
      with True Check_timer show ?thesis
        using check_asking [of "s\<lparr>check_timers := filter (\<lambda>u. u \<noteq> t) (check_timers s)\<rparr>"]
        by (simp add: check_step_def)
    qed (simp add: Check_timer check_step_def)
  qed (auto simp: check_step_def set_check_timer_asking check_asking, auto simp: asking_def)
qed

text \<open>The connection checker asks for ever, and not too often: after any events, something (a ping or a timer) is
  under way, the time to the next ping is at least one second and at most five minutes, and there are never more pings
  and timers than one and the retries of the user; without retries there is exactly one.\<close>

theorem checker_keeps_asking:
  "1 \<le> asking (check_run es ServerConnectionChecker) \<and>
   asking (check_run es ServerConnectionChecker) \<le> 1 + retries es \<and>
   1000 \<le> backoff (check_run es ServerConnectionChecker) \<and> backoff (check_run es ServerConnectionChecker) \<le> 300000"
proof -
  have "checker_ok (check_run es ServerConnectionChecker) \<and>
      asking (check_run es ServerConnectionChecker) \<le> 1 + retries es"
  proof (induction es rule: rev_induct)
    case Nil
    show ?case
      by (simp add: check_run_def ServerConnectionChecker_def check_def checker_ok_def asking_def)
  next
    case (snoc e es)
    then show ?case
      using check_step_keeps [of "check_run es ServerConnectionChecker" e]
      by (auto simp: check_run_def retries_def split: if_splits)
  qed
  then show ?thesis
    by (simp add: checker_ok_def)
qed

text \<open>A retry while a ping is under way: two pings, and two timers after them.\<close>

lemma retry_doubles:
  "check_timers (check_run [Retry, Ping_error, Ping_error] ServerConnectionChecker) = [0, 1]"
  by (simp add: check_run_def check_step_def ServerConnectionChecker_def check_def set_check_timer_def)

section \<open>Facts about the helpers\<close>

text \<open>What is pushed is popped: the operations between work on the copy.\<close>

lemma stack_push_pop: "stack_pop (stack_push st s) = s"
  by (simp add: stack_push_def stack_pop_def)

lemma stack_push_load_pop: "stack_pop (stack_load m (stack_push st s)) = s"
  by (simp add: stack_push_def stack_pop_def stack_load_def butlast_list_update)

lemma stack_push_mult_pop: "stack_pop (stack_mult st m (stack_push st s)) = s"
  by (simp add: stack_mult_def stack_push_load_pop)

end
