(* ===== verification/Shaders.thy ===== *)
theory Shaders
  imports JsNumber
begin

text \<open>
  The programs of WebGL (\<open>js/index.js\<close>): \<open>getCanvasWebGLContext\<close>, \<open>createProgramObject\<close>, \<open>populateShader\<close> with \<open>glCheck\<close> of
  \<open>js/measure.js\<close>, the program that \<open>start\<close> makes itself, and those that its callback makes when the sources are loaded, up to
  the attributes of \<open>onProgramLoaded\<close>.

  What the browser answers is a parameter (\<open>browser\<close>): whether a source compiles, whether two shaders link, and where the
  attributes and uniforms of a program are; a missing attribute is at \<open>-1\<close>, and the place of a missing uniform is \<open>null\<close>. The state is
  the list of the errors that \<open>getError\<close> has not returned yet; it returns each code once. A call with the place of a
  missing uniform does nothing, so the calls that set uniforms are left out.

  \<open>programs_load\<close> says when the programs are there, and \<open>missing_color_misreported\<close> what happens when the program of \<open>start\<close> lacks
  its second attribute.
\<close>

section \<open>The browser\<close>

record browser =
  compile_log :: "bool \<Rightarrow> string \<Rightarrow> string option"
  links :: "string \<times> string \<Rightarrow> bool"
  attribute_at :: "string \<times> string \<Rightarrow> string \<Rightarrow> int"
  uniform_at :: "string \<times> string \<Rightarrow> string \<Rightarrow> nat option"

datatype set_up_error =
    Info_log string | Link_error | Gl_error nat | Assertion string | Reference_error

definition INVALID_VALUE :: nat where "INVALID_VALUE = 1281"

definition gl_raise :: "nat \<Rightarrow> nat list \<Rightarrow> nat list" where
  "gl_raise e es = (if e \<in> set es then es else es @ [e])"

fun getError :: "nat list \<Rightarrow> nat \<times> nat list" where
  "getError [] = (0, [])"
| "getError (e # es) = (e, es)"

definition glCheck :: "nat list \<Rightarrow> set_up_error + nat list" where
  "glCheck es = (let (err, es) = getError es in if err \<noteq> 0 then Inl (Gl_error err) else Inr es)"

text \<open>\<open>enableVertexAttribArray\<close>: \<open>-1\<close> becomes the largest number of 32 bits, and there are not that many attributes.\<close>

definition enableVertexAttribArray :: "int \<Rightarrow> nat list \<Rightarrow> nat list" where
  "enableVertexAttribArray l es = (if l < 0 then gl_raise INVALID_VALUE es else es)"

text \<open>The first of the names for which the canvas has a context; a name it throws for is skipped.\<close>

fun context_loop :: "(string \<Rightarrow> unit + 'c option) \<Rightarrow> string list \<Rightarrow> 'c option \<Rightarrow> 'c option" where
  "context_loop getContext [] ctx = ctx"
| "context_loop getContext (n # ns) ctx =
     (case getContext n of
        Inl _ \<Rightarrow> context_loop getContext ns ctx
      | Inr None \<Rightarrow> context_loop getContext ns None
      | Inr (Some c) \<Rightarrow> Some c)"

definition getCanvasWebGLContext :: "(string \<Rightarrow> unit + 'c option) \<Rightarrow> 'c option" where
  "getCanvasWebGLContext getContext =
     context_loop getContext [''webgl'', ''experimental-webgl'', ''moz-webgl'', ''webkit-3d''] None"

section \<open>Programs\<close>

record program =
  p_sources :: "string \<times> string"
  p_attributes :: "(string \<times> int) list"
  p_uniforms :: "(string \<times> nat option) list"

definition createProgramObject :: "browser \<Rightarrow> string \<Rightarrow> string \<Rightarrow> set_up_error + program" where
  "createProgramObject b vertexSource fragmentSource =
     (case compile_log b True vertexSource of
        Some msg \<Rightarrow> Inl (Info_log msg)
      | None \<Rightarrow>
          (case compile_log b False fragmentSource of
             Some msg \<Rightarrow> Inl (Info_log msg)
           | None \<Rightarrow>
               if \<not> links b (vertexSource, fragmentSource) then Inl Link_error
               else Inr \<lparr>p_sources = (vertexSource, fragmentSource), p_attributes = [], p_uniforms = []\<rparr>))"

text \<open>A missing attribute is a warning; the error that enabling it has made is taken away.\<close>

fun populate_attributes :: "browser \<Rightarrow> string list \<Rightarrow> program \<Rightarrow> nat list \<Rightarrow> program \<times> nat list" where
  "populate_attributes b [] p es = (p, es)"
| "populate_attributes b (a # as) p es =
     (let l = attribute_at b (p_sources p) a;
          p = p\<lparr>p_attributes := p_attributes p @ [(a, l)]\<rparr>;
          es = enableVertexAttribArray l es;
          es = (if l < 0 then snd (getError es) else es)
      in populate_attributes b as p es)"

text \<open>\<open>place < 0\<close> for the place of a uniform: \<open>null\<close> counts as zero, and an object is not a number.\<close>

definition uniform_below_zero :: "nat option \<Rightarrow> bool" where
  "uniform_below_zero place = ((case place of None \<Rightarrow> 0 | Some _ \<Rightarrow> NaN) < (0 :: jsnum))"

text \<open>The test throws \<open>AssertionException\<close>, a name that is not defined.\<close>

fun populate_uniforms :: "browser \<Rightarrow> string list \<Rightarrow> program \<Rightarrow> set_up_error + program" where
  "populate_uniforms b [] p = Inr p"
| "populate_uniforms b (u # us) p =
     (let place = uniform_at b (p_sources p) u;
          p = p\<lparr>p_uniforms := p_uniforms p @ [(u, place)]\<rparr>
      in if uniform_below_zero place then Inl Reference_error else populate_uniforms b us p)"

fun and_then :: "'e + 'a \<Rightarrow> ('a \<Rightarrow> 'e + 'b) \<Rightarrow> 'e + 'b" where
  "and_then (Inl e) f = Inl e"
| "and_then (Inr x) f = f x"

definition populateShader :: "browser \<Rightarrow> program \<Rightarrow> string list \<Rightarrow> string list \<Rightarrow> nat list \<Rightarrow> set_up_error + program \<times> nat list" where
  "populateShader b p attributes uniforms es =
     (let (p, es) = populate_attributes b attributes (p\<lparr>p_attributes := [], p_uniforms := []\<rparr>) es
      in and_then (populate_uniforms b uniforms p) (\<lambda>p.
         and_then (glCheck es) (\<lambda>es. Inr (p, es))))"

section \<open>Setting up\<close>

text \<open>The program of \<open>start\<close>. The second assertion looks at the first attribute again.\<close>

definition old_program :: "browser \<Rightarrow> string \<Rightarrow> string \<Rightarrow> nat list \<Rightarrow> set_up_error + program \<times> nat list" where
  "old_program b vertexSource fragmentSource es =
     and_then (createProgramObject b vertexSource fragmentSource) (\<lambda>p.
       let vertex = attribute_at b (p_sources p) ''ps_Vertex'';
           es = enableVertexAttribArray vertex es
       in if \<not> vertex \<ge> 0 then Inl (Assertion ''Vertex position attribute not found'')
          else
            (let color = attribute_at b (p_sources p) ''ps_Color'';
                 es = enableVertexAttribArray color es
             in if \<not> vertex \<ge> 0 then Inl (Assertion ''Vertex color attribute not found'')
                else Inr (p\<lparr>p_attributes := [(''ps_Vertex'', vertex), (''ps_Color'', color)],
                            p_uniforms := map (\<lambda>u. (u, uniform_at b (p_sources p) u))
                              [''ps_ModelViewMatrix'', ''ps_ProjectionMatrix'', ''meters_to_pixels'']\<rparr>, es)))"

text \<open>The attributes of the main program, in \<open>onProgramLoaded\<close>.\<close>

definition main_attributes :: "browser \<Rightarrow> program \<Rightarrow> nat list \<Rightarrow> set_up_error + program \<times> nat list" where
  "main_attributes b p es =
     (let vertex = attribute_at b (p_sources p) ''ps_Vertex'';
          es = enableVertexAttribArray vertex es
      in if \<not> vertex \<ge> 0 then Inl (Assertion ''Vertex position attribute not found'')
         else
           (let color = attribute_at b (p_sources p) ''ps_Color'';
                es = enableVertexAttribArray color es
            in if \<not> color \<ge> 0 then Inl (Assertion ''Vertex color attribute not found'')
               else Inr (p\<lparr>p_attributes := [(''ps_Vertex'', vertex), (''ps_Color'', color)]\<rparr>, es)))"

text \<open>The callback of \<open>getMany\<close> with the six sources.\<close>

definition shaders_loaded ::
    "browser \<Rightarrow> string list \<Rightarrow> nat list \<Rightarrow> set_up_error + (program \<times> program \<times> program) \<times> nat list" where
  "shaders_loaded b results es =
     and_then (createProgramObject b (results ! 0) (results ! 1)) (\<lambda>shader.
     and_then (glCheck es) (\<lambda>es.
     and_then (createProgramObject b (results ! 2) (results ! 3)) (\<lambda>line.
     and_then (populateShader b line [''vertex'', ''color'']
         [''T_camera_world'', ''ps_ProjectionMatrix'', ''far_plane_distance'', ''C'', ''lift''] es) (\<lambda>(line, es).
     and_then (glCheck es) (\<lambda>es.
     and_then (createProgramObject b (results ! 4) (results ! 5)) (\<lambda>textured.
     and_then (populateShader b textured [''vertex'', ''textureCoord'']
         [''T_camera_world'', ''ps_ProjectionMatrix'', ''far_plane_distance'', ''C'', ''lift'', ''sampler''] es) (\<lambda>(textured, es).
     and_then (glCheck es) (\<lambda>es.
     and_then (main_attributes b shader es) (\<lambda>(shader, es).
       Inr ((shader, line, textured), es))))))))))"

section \<open>Properties\<close>

definition builds :: "browser \<Rightarrow> string \<times> string \<Rightarrow> bool" where
  "builds b c \<longleftrightarrow> compile_log b True (fst c) = None \<and> compile_log b False (snd c) = None \<and> links b c"

definition found :: "browser \<Rightarrow> string \<times> string \<Rightarrow> string list \<Rightarrow> string list \<Rightarrow> program" where
  "found b c as us =
     \<lparr>p_sources = c, p_attributes = map (\<lambda>a. (a, attribute_at b c a)) as, p_uniforms = map (\<lambda>u. (u, uniform_at b c u)) us\<rparr>"

lemma and_then_Inr: "and_then r f = Inr y \<longleftrightarrow> (\<exists>x. r = Inr x \<and> f x = Inr y)"
  by (cases r) simp_all

lemma create_builds:
  "createProgramObject b vs fs = Inr p \<longleftrightarrow>
     builds b (vs, fs) \<and> p = \<lparr>p_sources = (vs, fs), p_attributes = [], p_uniforms = []\<rparr>"
  by (auto simp: createProgramObject_def builds_def split: option.split)

lemma glCheck_Inr: "0 \<notin> set es \<Longrightarrow> glCheck es = Inr es' \<longleftrightarrow> es = [] \<and> es' = []"
  by (cases es) (auto simp: glCheck_def)

text \<open>No uniform is ever found missing, and the attributes leave no error behind.\<close>

lemma uniform_never_below [simp]: "\<not> uniform_below_zero place"
  by (cases place) (simp_all add: uniform_below_zero_def)

lemma populate_uniforms_Inr:
  "populate_uniforms b us p = Inr (p\<lparr>p_uniforms := p_uniforms p @ map (\<lambda>u. (u, uniform_at b (p_sources p) u)) us\<rparr>)"
  by (induction us arbitrary: p) simp_all

lemma populate_attributes_clean:
  "populate_attributes b as p [] =
     (p\<lparr>p_attributes := p_attributes p @ map (\<lambda>a. (a, attribute_at b (p_sources p) a)) as\<rparr>, [])"
  by (induction as arbitrary: p) (simp_all add: enableVertexAttribArray_def gl_raise_def Let_def)

lemma populateShader_clean:
  "populateShader b p as us [] =
     Inr (p\<lparr>p_attributes := map (\<lambda>a. (a, attribute_at b (p_sources p) a)) as,
            p_uniforms := map (\<lambda>u. (u, uniform_at b (p_sources p) u)) us\<rparr>, [])"
  by (simp add: populateShader_def populate_attributes_clean populate_uniforms_Inr glCheck_def)

lemma main_attributes_clean:
  "main_attributes b p [] = Inr (q, es) \<longleftrightarrow>
     0 \<le> attribute_at b (p_sources p) ''ps_Vertex'' \<and> 0 \<le> attribute_at b (p_sources p) ''ps_Color'' \<and> es = [] \<and>
     q = p\<lparr>p_attributes := map (\<lambda>a. (a, attribute_at b (p_sources p) a)) [''ps_Vertex'', ''ps_Color'']\<rparr>"
  by (auto simp: main_attributes_def enableVertexAttribArray_def Let_def)

text \<open>C32. When the sources of the shaders arrive and WebGL has no error pending, the programs are set up exactly if all three of them compile and
  link and the main one has its two attributes. Then no error is pending either, and the other two programs have a
  place for each of their attributes and uniforms, which may be \<open>-1\<close> or \<open>null\<close>: what they lack goes unnoticed.\<close>

theorem programs_load:
  "shaders_loaded b srcs [] = Inr ((shader, line, textured), es) \<longleftrightarrow>
     builds b (srcs ! 0, srcs ! 1) \<and> builds b (srcs ! 2, srcs ! 3) \<and> builds b (srcs ! 4, srcs ! 5) \<and>
     0 \<le> attribute_at b (srcs ! 0, srcs ! 1) ''ps_Vertex'' \<and> 0 \<le> attribute_at b (srcs ! 0, srcs ! 1) ''ps_Color'' \<and>
     shader = found b (srcs ! 0, srcs ! 1) [''ps_Vertex'', ''ps_Color''] [] \<and>
     line = found b (srcs ! 2, srcs ! 3) [''vertex'', ''color'']
       [''T_camera_world'', ''ps_ProjectionMatrix'', ''far_plane_distance'', ''C'', ''lift''] \<and>
     textured = found b (srcs ! 4, srcs ! 5) [''vertex'', ''textureCoord'']
       [''T_camera_world'', ''ps_ProjectionMatrix'', ''far_plane_distance'', ''C'', ''lift'', ''sampler''] \<and> es = []"
proof -
  have checked: "glCheck [] = Inr []"
    by (simp add: glCheck_def)
  show ?thesis
    unfolding shaders_loaded_def and_then_Inr create_builds split_paired_Ex
    by (simp add: and_then_Inr create_builds checked populateShader_clean main_attributes_clean found_def) blast
qed

text \<open>If the built-in program of \<open>start\<close> lacks the second attribute, its assertion does not see it; the error that WebGL has noted is
  reported later, by the callback that sets up the other programs, when the first of them has been made.\<close>

lemma missing_color_misreported:
  assumes "builds b (vs, fs)" "0 \<le> attribute_at b (vs, fs) ''ps_Vertex''" "attribute_at b (vs, fs) ''ps_Color'' < 0"
    and "builds b (results ! 0, results ! 1)"
  obtains p es where "old_program b vs fs [] = Inr (p, es)" "shaders_loaded b results es = Inl (Gl_error INVALID_VALUE)"
  using assms that
  by (simp add: old_program_def shaders_loaded_def createProgramObject_def builds_def enableVertexAttribArray_def gl_raise_def
    glCheck_def INVALID_VALUE_def)

text \<open>The context is that of the first name for which the canvas has one.\<close>

lemma context_loop_first:
  "context_loop getContext ns None =
     Option.bind (List.find (\<lambda>n. \<exists>c. getContext n = Inr (Some c)) ns) (\<lambda>n. case getContext n of Inl _ \<Rightarrow> None | Inr c \<Rightarrow> c)"
  by (induction ns) (auto split: sum.split option.split)

end
