(* ===== verification/Selections.thy ===== *)
theory Selections
  imports JsText OrbitCam
begin

text \<open>
  Selections and measurements. A \<open>Selection\<close> (\<open>js/selection.js\<close>) starts as a picked point, relative to the
  camera and aligned with the world, and becomes a box when the mouse is dragged: a box that is
  aligned with the camera at the time of the selection, from half of the depth of the point to one
  and a half times it. A \<open>DistanceMeasurement\<close> (\<open>js/measure.js\<close>) is the line between two picked points.
  An operation that throws (a failed \<open>assert\<close>, or a read of an element of \<open>null\<close>) is \<open>None\<close>.

  \<open>frame_matrix x y z\<close> is the rotation whose rows are the three vectors; \<open>selection_box\<close> is about an orthonormal
  frame, as the rotation part of the view matrix is.
\<close>

section \<open>Selection\<close>

record selection =
  R_selection_world :: farray
  p_world_selection :: farray
  depth :: jsnum
  picked_point_world :: farray
  begin_selection :: farray
  end_selection :: "farray option"

definition Selection :: "(jsnum \<Rightarrow> jsnum) \<Rightarrow> farray \<Rightarrow> farray \<Rightarrow> farray \<Rightarrow> selection" where
  "Selection st picked_point R_camera_world p_world_camera =
     (let picked_point_camera = V3_mul3x3 st R_camera_world picked_point;
          d = idx picked_point_camera 2
      in \<lparr>R_selection_world = R_camera_world, p_world_selection = p_world_camera, depth = d,
          picked_point_world = V3_add st p_world_camera picked_point,
          begin_selection = V3_add st picked_point_camera (V3_new st 0 0 (d * Fin 0.5)),
          end_selection = None\<rparr>)"

definition setEndPoint :: "(jsnum \<Rightarrow> jsnum) \<Rightarrow> farray \<Rightarrow> selection \<Rightarrow> selection" where
  "setEndPoint st ray s =
     (let ray_camera = V3_mul3x3 st (R_selection_world s) ray;
          picked_point_camera = V3_scale st ray_camera (depth s / idx ray_camera 2)
      in s\<lparr>end_selection := Some (V3_add st picked_point_camera (V3_new st 0 0 (- depth s * Fin 0.5)))\<rparr>)"

definition isPoint :: "selection \<Rightarrow> bool" where
  "isPoint s \<longleftrightarrow> end_selection s = None"

definition getPoint :: "selection \<Rightarrow> farray option" where
  "getPoint s = (if end_selection s = None then Some (picked_point_world s) else None)"

definition getBox :: "(jsnum \<Rightarrow> jsnum) \<Rightarrow> selection \<Rightarrow> farray list option" where
  "getBox st s =
     (case end_selection s of
        None \<Rightarrow> None
      | Some e \<Rightarrow>
          Some [V3_add st (V3_mul3x3 st (M3x3_transpose st False (R_selection_world s)) (begin_selection s))
                  (p_world_selection s),
                V3_add st (V3_mul3x3 st (M3x3_transpose st False (R_selection_world s)) e)
                  (p_world_selection s)])"

text \<open>\<open>lookAt\<close>: with a point it reads an element of \<open>end_selection\<close>, which is \<open>null\<close>.\<close>

definition lookAt :: "(jsnum \<Rightarrow> jsnum) \<Rightarrow> camera \<Rightarrow> selection \<Rightarrow> cam_config option" where
  "lookAt st current_cam s =
     (case end_selection s of
        None \<Rightarrow> None
      | Some e \<Rightarrow>
          (let center = V3_scale st (V3_add st (begin_selection s) e) (1 / 2);
               plane_begin = (V3_clone st (begin_selection s))[2 := st 0];
               plane_end = (V3_clone st e)[2 := st 0];
               dst = V3_length (V3_sub st plane_begin plane_end)
           in Some \<lparr>cf_origin = Some (V3_add st (V3_mul3x3 st (M3x3_transpose st False (R_selection_world s)) center)
                                       (p_world_selection s)),
                    cf_distance = dst * 2, cf_pitch = cpitch current_cam, cf_yaw = cyaw current_cam,
                    cf_closest = NaN, cf_farthest = NaN\<rparr>))"

section \<open>Measurements\<close>

record measurement =
  ms_begin :: farray
  ms_end :: farray
  ms_distance :: jsnum
  ms_mid :: farray
  ms_name :: string
  ms_vbo :: "nat option"

text \<open>The counter \<open>g_measurement_number\<close> is passed and returned; an empty name counts as none.\<close>

definition DistanceMeasurement ::
    "(jsnum \<Rightarrow> jsnum) \<Rightarrow> farray \<Rightarrow> farray \<Rightarrow> string option \<Rightarrow> nat \<Rightarrow> measurement \<times> nat" where
  "DistanceMeasurement st b e nm n =
     (let d = V3_length (V3_sub st e b); m = V3_scale st (V3_add st b e) (Fin 0.5)
      in case nm of
           Some (c # cs) \<Rightarrow> (\<lparr>ms_begin = b, ms_end = e, ms_distance = d, ms_mid = m, ms_name = c # cs, ms_vbo = None\<rparr>, n)
         | _ \<Rightarrow> (\<lparr>ms_begin = b, ms_end = e, ms_distance = d, ms_mid = m,
                  ms_name = ''measurement-'' @ nat_digits n, ms_vbo = None\<rparr>, n + 1))"

text \<open>The vertices that \<open>loadGL\<close> puts into the buffer: a coloured line, then the square of the text.\<close>

definition measurement_vertices :: "measurement \<Rightarrow> farray" where
  "measurement_vertices m =
     map f32
       ([idx (ms_begin m) 0, idx (ms_begin m) 1, idx (ms_begin m) 2, 1, 0, 0,
         idx (ms_end m) 0, idx (ms_end m) 1, idx (ms_end m) 2, 1, 1, 0] @
        [Fin (-0.5), Fin (-0.5), 0, 0, 0,
         Fin 0.5, Fin (-0.5), 0, 1, 0,
         Fin (-0.5), Fin 0.5, 0, 0, 1,
         Fin 0.5, Fin 0.5, 0, 1, 1])"

section \<open>Point clouds\<close>

text \<open>The points and colours of a cloud (\<open>js/point_cloud.js\<close>) and the contents of the buffers made from them.\<close>

record point_cloud =
  vertices :: "farray list"
  colors :: "farray list"
  vertex_buffer :: "farray option"
  vertex_items :: nat
  color_buffer :: "farray option"

definition PointCloud :: point_cloud where
  "PointCloud = \<lparr>vertices = [], colors = [], vertex_buffer = None, vertex_items = 0, color_buffer = None\<rparr>"

definition flattenV3Array :: "farray list \<Rightarrow> farray" where
  "flattenV3Array vs = concat (map (\<lambda>v. [f32 (idx v 0), f32 (idx v 1), f32 (idx v 2)]) vs)"

text \<open>\<open>setupGL\<close>; the number of colours it stores is the property \<open>length\<close> of a buffer, which is undefined.\<close>

definition cloud_setupGL :: "point_cloud \<Rightarrow> point_cloud" where
  "cloud_setupGL c =
     c\<lparr>vertex_buffer := Some (flattenV3Array (vertices c)), vertex_items := length (vertices c),
       color_buffer := Some (flattenV3Array (colors c))\<rparr>"

text \<open>The flat array of \<open>n\<close> vectors has \<open>3 n\<close> entries, three of each.\<close>

lemma length_flattenV3Array: "length (flattenV3Array vs) = 3 * length vs"
  by (induction vs) (simp_all add: flattenV3Array_def)

section \<open>Boxes aligned with the camera\<close>

definition frame_matrix :: "real \<times> real \<times> real \<Rightarrow> real \<times> real \<times> real \<Rightarrow> real \<times> real \<times> real \<Rightarrow> farray" where
  "frame_matrix x y z =
     (case (x, y, z) of ((x0, x1, x2), (y0, y1, y2), (z0, z1, z2)) \<Rightarrow>
        map Fin [x0, y0, z0, x1, y1, z1, x2, y2, z2])"

definition add3 :: "real \<times> real \<times> real \<Rightarrow> real \<times> real \<times> real \<Rightarrow> real \<times> real \<times> real" where
  "add3 = (\<lambda>(a, b, c) (x, y, z). (a + x, b + y, c + z))"

text \<open>The vector with given coordinates in a frame.\<close>

definition in_frame ::
    "real \<times> real \<times> real \<Rightarrow> real \<times> real \<times> real \<Rightarrow> real \<times> real \<times> real \<Rightarrow> real \<times> real \<times> real \<Rightarrow> real \<times> real \<times> real" where
  "in_frame x y z v = (case v of (a, b, c) \<Rightarrow> add3 (add3 (scale3 a x) (scale3 b y)) (scale3 c z))"

definition orthonormal :: "real \<times> real \<times> real \<Rightarrow> real \<times> real \<times> real \<Rightarrow> real \<times> real \<times> real \<Rightarrow> bool" where
  "orthonormal x y z \<longleftrightarrow>
     dot3 x x = 1 \<and> dot3 y y = 1 \<and> dot3 z z = 1 \<and> dot3 x y = 0 \<and> dot3 x z = 0 \<and> dot3 y z = 0"

lemma vec3_more [simp]:
  "V3_add f64 (vec3 u) (vec3 v) = vec3 (add3 u v)"
  "V3_scale f64 (vec3 u) (Fin k) = vec3 (scale3 k u)"
  "V3_add f64 (vec3 u) (real3 a b c) = vec3 (add3 u (a, b, c))"
  "idx (vec3 (a, b, c)) 2 = Fin c"
  by (cases u; cases v; simp add: vec3_def add3_def scale3_def mult.commute)+

lemma mul3x3_frame [simp]:
  "V3_mul3x3 f64 (frame_matrix x y z) (vec3 v) = vec3 (dot3 x v, dot3 y v, dot3 z v)"
  "V3_mul3x3 f64 (M3x3_transpose f64 False (frame_matrix x y z)) (vec3 v) = vec3 (in_frame x y z v)"
  by (cases x; cases y; cases z; cases v;
      simp add: frame_matrix_def V3_mul3x3_def M3x3_transpose_def vec3_def dot3_def in_frame_def add3_def scale3_def;
      simp add: real3_def mult.commute)+

lemma add3_simps [simp]:
  "add3 (a, b, c) (a', b', c') = (a + a', b + b', c + c')" "sub3 (add3 u e) e = u"
  "dot3 w (add3 u v) = dot3 w u + dot3 w v"
  by (simp_all add: add3_def sub3_def dot3_def algebra_simps split: prod.splits)

lemma in_frame_back:
  assumes "orthonormal x y z"
  shows "(dot3 x (in_frame x y z v), dot3 y (in_frame x y z v), dot3 z (in_frame x y z v)) = v"
  using assms dot3_commute [of y x] dot3_commute [of z x] dot3_commute [of z y]
  by (cases v) (simp add: in_frame_def orthonormal_def)

lemma in_frame_middle:
  "add3 (in_frame x y z (scale3 k (add3 u v))) e =
     scale3 (1 / 2) (add3 (add3 (in_frame x y z (scale3 (2 * k) u)) e) (add3 (in_frame x y z (scale3 (2 * k) v)) e))"
  by (cases x; cases y; cases z; cases u; cases v; cases e)
    (simp add: in_frame_def scale3_def add3_def algebra_simps)



end
