(* ===== verification/Picking.thy ===== *)
theory Picking
  imports Selections CellModel Frustum
begin

text \<open>
  Picking a point with the mouse (\<open>js/index.js\<close>, \<open>computePickRay\<close> to \<open>pickPointFromCells\<close>): the ray
  through a pixel, in a frame that is aligned with the world and has its origin in the camera, the
  distance at which it passes a cell or a point, and the search for the nearest point. The globals the
  code reads (the projection, the view matrix and the position of the camera, the size of the canvas)
  are arguments; \<open>undefined\<close> and the exception of a singular projection are \<open>None\<close>.
\<close>

section \<open>The search\<close>

text \<open>The scratch vectors \<open>V3._temp1\<close> to \<open>V3._temp3\<close> hold the intermediate vectors, converted.\<close>

definition intersectCell :: "(jsnum \<Rightarrow> jsnum) \<Rightarrow> farray \<Rightarrow> farray \<Rightarrow> farray \<Rightarrow> jsnum \<Rightarrow> jsnum \<Rightarrow> jsnum" where
  "intersectCell st orig ray cell_center cell_radius rad =
     (let toPoint = V3_sub st cell_center orig;
          t = V3_dot ray toPoint;
          projection = V3_scale st ray t;
          rayToPoint = V3_sub st toPoint projection;
          distanceToRay = V3_length rayToPoint - cell_radius
      in if t > 0 then (if distanceToRay / t < rad then t else Number_MAX_VALUE) else Number_MAX_VALUE)"

definition intersectPoint :: "(jsnum \<Rightarrow> jsnum) \<Rightarrow> farray \<Rightarrow> farray \<Rightarrow> farray \<Rightarrow> jsnum \<Rightarrow> jsnum" where
  "intersectPoint st orig ray point rad =
     (let toPoint = V3_sub st point orig;
          t = V3_dot ray toPoint;
          projection = V3_scale st ray t;
          rayToPoint = V3_sub st toPoint projection;
          distanceToRay = V3_length rayToPoint
      in if t > 0 then (if distanceToRay / t < rad then t else Number_MAX_VALUE) else Number_MAX_VALUE)"

record pick_ray =
  pick_point :: farray
  pick_dir :: farray

text \<open>What \<open>pickPointFromCells\<close> reads and does not change.\<close>

record pick_env =
  pk_store :: "jsnum \<Rightarrow> jsnum"
  pk_min_dist :: jsnum
  pk_ray :: pick_ray
  pk_ratio :: jsnum
  pk_camera :: farray

definition magic_ratio :: "jsnum \<Rightarrow> jsnum" where
  "magic_ratio height = Math_tan (Math_PI / 6 / (height / 4))"

text \<open>The loop over the points runs while \<open>j < numPoints()\<close>, a number that need not be whole.\<close>

definition point_indices :: "cell \<Rightarrow> nat list" where
  "point_indices c = filter (\<lambda>j. Fin (real j) < Cell_numPoints c) [0..<length (data c)]"

definition picked_distance :: "pick_env \<Rightarrow> cell \<Rightarrow> nat \<Rightarrow> jsnum" where
  "picked_distance e c j =
     intersectPoint (pk_store e) (pick_point (pk_ray e)) (pick_dir (pk_ray e))
       (Cell_getPointInAlignedCamera (pk_store e) c j (pk_camera e)) (pk_ratio e)"

definition pick_step :: "pick_env \<Rightarrow> cell \<Rightarrow> jsnum \<times> farray option \<Rightarrow> nat \<Rightarrow> jsnum \<times> farray option" where
  "pick_step e c s j =
     (if Cell_pickValid c j then
        (let pt = Cell_getPointInAlignedCamera (pk_store e) c j (pk_camera e);
             t = picked_distance e c j
         in if t > pk_min_dist e * 2 \<and> t < fst s then (t, Some (V3_clone (pk_store e) pt)) else s)
      else s)"

definition cell_center_aligned :: "pick_env \<Rightarrow> cell \<Rightarrow> farray" where
  "cell_center_aligned e c = V3_sub (pk_store e) (Cell_getCenter (pk_store e) c) (pk_camera e)"

definition near_ray :: "pick_env \<Rightarrow> cell \<Rightarrow> bool" where
  "near_ray e c \<longleftrightarrow>
     intersectCell (pk_store e) (pick_point (pk_ray e)) (pick_dir (pk_ray e)) (cell_center_aligned e c) (radius c)
       (pk_ratio e) < Number_MAX_VALUE"

definition cell_distance :: "pick_env \<Rightarrow> cell \<Rightarrow> jsnum" where
  "cell_distance e c = V3_length (cell_center_aligned e c) - radius c"

definition pick_cell :: "pick_env \<Rightarrow> jsnum \<times> farray option \<Rightarrow> cell \<Rightarrow> jsnum \<times> farray option" where
  "pick_cell e s c =
     (if near_ray e c \<and> cell_distance e c < fst s then foldl (pick_step e c) s (point_indices c) else s)"

definition pickPointFromCells :: "pick_env \<Rightarrow> cell list \<Rightarrow> farray option" where
  "pickPointFromCells e cs = snd (foldl (pick_cell e) (Number_MAX_VALUE, None) (rev cs))"

section \<open>The ray of a pixel\<close>

definition image_point :: "(jsnum \<Rightarrow> jsnum) \<Rightarrow> jsnum \<Rightarrow> jsnum \<Rightarrow> jsnum \<Rightarrow> jsnum \<Rightarrow> farray" where
  "image_point st w h mouseX mouseY = V3_new st (mouseX / w * 2 - 1) (1 - mouseY / h * 2) (Fin (-0.5))"

definition computePickRay ::
    "(jsnum \<Rightarrow> jsnum) \<Rightarrow> farray \<Rightarrow> farray \<Rightarrow> jsnum \<Rightarrow> jsnum \<Rightarrow> jsnum \<Rightarrow> jsnum \<Rightarrow> pick_ray option" where
  "computePickRay st projection view w h mouseX mouseY =
     map_option
       (\<lambda>image_to_camera.
          let camera_to_world_rotation = M4x4_topLeft3x3 st (M4x4_inverseOrthonormal st view);
              cloud_pt = V3_mul3x3 st camera_to_world_rotation
                (V3_mul4x4 st image_to_camera (image_point st w h mouseX mouseY));
              pick_origin = V3_new st 0 0 0;
              ray = V3_sub st cloud_pt pick_origin
          in \<lparr>pick_point = pick_origin, pick_dir = V3_normalize st ray\<rparr>)
       (M4x4_inverse st projection)"

text \<open>\<open>computePickFrustum\<close>, which nothing calls, has the same statements.\<close>

definition computePickFrustum ::
    "(jsnum \<Rightarrow> jsnum) \<Rightarrow> farray \<Rightarrow> farray \<Rightarrow> jsnum \<Rightarrow> jsnum \<Rightarrow> jsnum \<Rightarrow> jsnum \<Rightarrow> pick_ray option" where
  "computePickFrustum = computePickRay"

section \<open>The position of the mouse\<close>

text \<open>An event of the mouse; a property that the browser does not have is \<open>undefined\<close>.\<close>

record mouse_place =
  pageX :: "jsnum option"
  pageY :: "jsnum option"
  clientX :: jsnum
  clientY :: jsnum

definition defined_and_true :: "jsnum option \<Rightarrow> bool" where
  "defined_and_true x \<longleftrightarrow> (\<exists>a. x = Some a \<and> truthy a)"

text \<open>
  The position in the canvas; \<open>scroll\<close> are the sums of what the two elements of the document are scrolled by, and \<open>corner\<close> is
  the place of the canvas.
\<close>

definition getCursorPosition :: "jsnum \<times> jsnum \<Rightarrow> jsnum \<times> jsnum \<Rightarrow> mouse_place \<Rightarrow> jsnum \<times> jsnum" where
  "getCursorPosition scroll corner e =
     (let num = (\<lambda>x. case x of None \<Rightarrow> NaN | Some a \<Rightarrow> a);
          (x, y) = (if defined_and_true (pageX e) \<or> defined_and_true (pageY e) then (num (pageX e), num (pageY e))
                    else (clientX e + fst scroll, clientY e + snd scroll))
      in (x - fst corner, y - snd corner))"

text \<open>Both ways agree when the place in the page, if there is one, is that in the window and the scrolling.\<close>

lemma cursor_position:
  assumes "pageX e = None \<and> pageY e = None \<or>
      pageX e = Some (clientX e + fst scroll) \<and> pageY e = Some (clientY e + snd scroll)"
  shows "getCursorPosition scroll corner e =
    (clientX e + fst scroll - fst corner, clientY e + snd scroll - snd corner)"
  using assms by (auto simp: getCursorPosition_def defined_and_true_def Let_def)

section \<open>The nearest point\<close>

lemma jsnum_less_trans: "a < b \<Longrightarrow> b < c \<Longrightarrow> a < (c :: jsnum)"
  by (cases a; cases b; cases c) auto

lemma jsnum_less_irrefl [simp]: "\<not> a < (a :: jsnum)"
  by (cases a) auto

text \<open>A point that can be picked, with its distance along the ray.\<close>

definition pickable :: "pick_env \<Rightarrow> cell \<Rightarrow> nat \<Rightarrow> jsnum \<Rightarrow> bool" where
  "pickable e c j t \<longleftrightarrow>
     j \<in> set (point_indices c) \<and> Cell_pickValid c j \<and> t = picked_distance e c j \<and> pk_min_dist e * 2 < t \<and>
     t < Number_MAX_VALUE"

definition picked_point :: "pick_env \<Rightarrow> cell \<Rightarrow> nat \<Rightarrow> farray" where
  "picked_point e c j = V3_clone (pk_store e) (Cell_getPointInAlignedCamera (pk_store e) c j (pk_camera e))"

text \<open>
  The invariant of the search over a set of points: what is held is one of them that can be picked,
  and no point of a cell that is near the ray and begins before it is nearer.
\<close>

definition searched :: "pick_env \<Rightarrow> cell \<Rightarrow> jsnum \<Rightarrow> bool" where
  "searched e c t \<longleftrightarrow> near_ray e c \<and> cell_distance e c < t"

definition pick_inv :: "pick_env \<Rightarrow> (cell \<times> nat) set \<Rightarrow> jsnum \<times> farray option \<Rightarrow> bool" where
  "pick_inv e S s \<longleftrightarrow>
     (snd s = None \<and> fst s = Number_MAX_VALUE \<or>
      (\<exists>c j. (c, j) \<in> S \<and> pickable e c j (fst s) \<and> snd s = Some (picked_point e c j))) \<and>
     (\<forall>c j t. (c, j) \<in> S \<longrightarrow> searched e c (fst s) \<longrightarrow> pickable e c j t \<longrightarrow> \<not> t < fst s)"

lemma pick_inv_below: "pick_inv e S s \<Longrightarrow> t < fst s \<Longrightarrow> t < Number_MAX_VALUE"
  by (auto simp: pick_inv_def pickable_def intro: jsnum_less_trans)

lemma pick_inv_mono:
  assumes "pick_inv e S s" and "S \<subseteq> S'"
    and "\<And>c j t. (c, j) \<in> S' - S \<Longrightarrow> searched e c (fst s) \<Longrightarrow> pickable e c j t \<Longrightarrow> \<not> t < fst s"
  shows "pick_inv e S' s"
  using assms unfolding pick_inv_def by blast

lemma pick_step_inv:
  assumes inv: "pick_inv e S s" and j: "j \<in> set (point_indices c)"
  shows "pick_inv e (insert (c, j) S) (pick_step e c s j)"
proof (cases "Cell_pickValid c j \<and> pk_min_dist e * 2 < picked_distance e c j \<and> picked_distance e c j < fst s")
  case True
  let ?t = "picked_distance e c j"
  have step: "pick_step e c s j = (?t, Some (picked_point e c j))"
    using True by (simp add: pick_step_def picked_point_def Let_def)
  have "pickable e c j ?t"
    using True j pick_inv_below [OF inv] by (simp add: pickable_def)
  moreover have "\<not> t < ?t" if "(c', j') \<in> S" "searched e c' ?t" "pickable e c' j' t" for c' j' t
  proof -
    have "searched e c' (fst s)" using that(2) True by (auto simp: searched_def intro: jsnum_less_trans)
    then have "\<not> t < fst s" using inv that(1,3) unfolding pick_inv_def by blast
    then show ?thesis using True jsnum_less_trans by blast
  qed
  moreover have "\<not> t < ?t" if "pickable e c j t" for t
    using that by (simp add: pickable_def)
  ultimately show ?thesis unfolding step pick_inv_def by auto
next
  case False
  then have step: "pick_step e c s j = s" by (auto simp: pick_step_def Let_def)
  show ?thesis
    unfolding step using inv False by (elim pick_inv_mono) (auto simp: pickable_def)
qed

lemma pick_cell_inv:
  assumes "pick_inv e S s"
  shows "pick_inv e (S \<union> {c} \<times> set (point_indices c)) (pick_cell e s c)"
proof (cases "searched e c (fst s)")
  case True
  have "pick_inv e (S \<union> {c} \<times> set js) (foldl (pick_step e c) s js)"
    if "set js \<subseteq> set (point_indices c)" "pick_inv e S s" for js S s
    using that
  proof (induction js arbitrary: S s)
    case (Cons j js)
    from Cons.IH [of "insert (c, j) S" "pick_step e c s j"] Cons.prems
    show ?case by (simp add: pick_step_inv insert_Times_insert)
  qed simp
  with assms True show ?thesis by (simp add: pick_cell_def searched_def)
next
  case False
  then have "pick_cell e s c = s" by (auto simp: pick_cell_def searched_def)
  with assms False show ?thesis by (auto elim!: pick_inv_mono)
qed

lemma pick_cells_inv:
  "pick_inv e S s \<Longrightarrow>
     pick_inv e (S \<union> {(c, j). c \<in> set cs \<and> j \<in> set (point_indices c)}) (foldl (pick_cell e) s cs)"
proof (induction cs arbitrary: S s)
  case (Cons c cs)
  have eq: "S \<union> {(c', j). c' \<in> set (c # cs) \<and> j \<in> set (point_indices c')} =
      (S \<union> {c} \<times> set (point_indices c)) \<union> {(c', j). c' \<in> set cs \<and> j \<in> set (point_indices c')}"
    by auto
  show ?case unfolding eq foldl_Cons by (rule Cons.IH) (rule pick_cell_inv [OF Cons.prems])
qed simp

text \<open>C12. Picking returns the nearest point: if the search returns a point, it is a point of one of
  the cells, is valid for picking, lies within the cone around the ray and further than twice the
  minimal distance, and no such point of a cell that is near the ray and begins before it is nearer
  along the ray. If it returns nothing, no cell that is near the ray has such a point.\<close>

theorem pick_nearest:
  "(case pickPointFromCells e cs of
      Some pt \<Rightarrow>
        \<exists>c j t. c \<in> set cs \<and> pickable e c j t \<and> pt = picked_point e c j \<and>
          \<not> (\<exists>c' j' t'. c' \<in> set cs \<and> searched e c' t \<and> pickable e c' j' t' \<and> t' < t)
    | None \<Rightarrow> \<not> (\<exists>c j t. c \<in> set cs \<and> searched e c Number_MAX_VALUE \<and> pickable e c j t))"
proof -
  have "pick_inv e {} (Number_MAX_VALUE, None)" by (simp add: pick_inv_def)
  from pick_cells_inv [OF this, of "rev cs"]
  have "pick_inv e {(c, j). c \<in> set cs \<and> j \<in> set (point_indices c)} (foldl (pick_cell e) (Number_MAX_VALUE, None) (rev cs))"
    by simp
  then show ?thesis
    unfolding pickPointFromCells_def
    by (cases "foldl (pick_cell e) (Number_MAX_VALUE, None) (rev cs)")
      (auto simp: pick_inv_def pickable_def split: option.splits)
qed

section \<open>The pixel of the ray\<close>

lemma inverse_perspective:
  assumes "p \<noteq> 0" "q \<noteq> 0" "f \<noteq> 0"
  shows "M4x4_inverse f64 (mat [p, 0, 0, 0, 0, q, 0, 0, 0, 0, e, -1, 0, 0, f, 0]) =
    Some (mat [1 / p, 0, 0, 0, 0, 1 / q, 0, 0, 0, 0, 0, 1 / f, 0, 0, -1, e / f])"
proof -
  let ?m = "[p, 0, 0, 0, 0, q, 0, 0, 0, 0, e, -1, 0, 0, f, 0]"
  have "det4 ?m = p * q * f"
    by (simp add: det4_def det3_def)
  moreover have "radj ?m = [q * f, 0, 0, 0, 0, p * f, 0, 0, 0, 0, 0, p * q, 0, 0, - p * q * f, p * q * e]"
    by (simp add: radj_def)
  ultimately show ?thesis using assms by (simp add: inverse_mat)
qed

lemma mul4x4_mat:
  assumes "length m = 16" and "m!3 * a + m!7 * b + m!11 * c + m!15 \<noteq> 0"
  shows "V3_mul4x4 f64 (mat m) (vec3 (a, b, c)) =
    vec3 (scale3 (1 / (m!3 * a + m!7 * b + m!11 * c + m!15))
      (m!0 * a + m!4 * b + m!8 * c + m!12, m!1 * a + m!5 * b + m!9 * c + m!13, m!2 * a + m!6 * b + m!10 * c + m!14))"
proof -
  note E = idx_mat [OF assms(1)]
  have w: "V3_dot (vec3 (a, b, c)) (map f64 [idx (mat m) 3, idx (mat m) 7, idx (mat m) 11]) + idx (mat m) 15 =
      Fin (m!3 * a + m!7 * b + m!11 * c + m!15)"
    by (simp add: vec3_def V3_dot_def E mult.commute)
  show ?thesis
    unfolding V3_mul4x4_def Let_def w using assms(2)
    by (simp add: vec3_def V3_dot_def E scale3_def real3_def mult.commute)
qed

lemma topLeft_inverseOrthonormal:
  assumes "length m = 16"
  shows "M4x4_topLeft3x3 f64 (M4x4_inverseOrthonormal f64 (mat m)) =
    M3x3_transpose f64 False (M4x4_topLeft3x3 f64 (mat m))"
proof -
  note E = idx_mat [OF assms]
  show ?thesis
    by (simp add: inverseOrthonormal_mat [OF assms] M4x4_topLeft3x3_def M3x3_transpose_def E)
qed

lemma dot3_zero: "dot3 u u = 0 \<Longrightarrow> dot3 w u = 0"
  using sum_squares_zero_iff by (cases u; cases w) (auto simp: dot3_def)

lemma sub3_zero: "sub3 u (0, 0, 0) = u"
  by (cases u) (simp add: sub3_def)

lemma in_frame_scale: "in_frame x y z (scale3 k v) = scale3 k (in_frame x y z v)"
  by (cases x; cases y; cases z; cases v) (simp add: in_frame_def scale3_def add3_def algebra_simps)

text \<open>The picking ray goes through the pixel: for a perspective projection and a view matrix with an
  orthonormal frame (exact arithmetic), \<open>computePickRay\<close> returns a unit vector that points to the side the
  camera looks to, and the projection of every point on the ray is the position of the mouse in the image.\<close>

lemma pick_ray_hits_pixel:
  assumes proj: "0 < zn" "zn < zf" "0 < aspect" "0 < tan (fovy * pi / 360)"
    and view: "length m = 16" "M4x4_topLeft3x3 f64 (mat m) = frame_matrix x y z" "orthonormal x y z"
    and size: "w \<noteq> 0" "h \<noteq> 0" and s: "0 < s"
  shows "\<exists>u d.
    computePickRay f64 (M4x4_makePerspective f64 (Fin fovy) (Fin aspect) (Fin zn) (Fin zf)) (mat m)
        (Fin w) (Fin h) (Fin mx) (Fin my) = Some \<lparr>pick_point = vec3 (0, 0, 0), pick_dir = vec3 u\<rparr> \<and>
    dot3 u u = 1 \<and> dot3 z u < 0 \<and>
    V3_mul4x4 f64 (M4x4_makePerspective f64 (Fin fovy) (Fin aspect) (Fin zn) (Fin zf))
        (V3_mul3x3 f64 (M4x4_topLeft3x3 f64 (mat m)) (vec3 (scale3 s u))) =
      vec3 (mx / w * 2 - 1, 1 - my / h * 2, d)"
proof -
  define p q e f where "p = 1 / (tan (fovy * pi / 360) * aspect)" and "q = 1 / tan (fovy * pi / 360)"
    and "e = - (zf + zn) / (zf - zn)" and "f = - 2 * zf * zn / (zf - zn)"
  let ?P = "[p, 0, 0, 0, 0, q, 0, 0, 0, 0, e, -1, 0, 0, f, 0]"
  have P: "M4x4_makePerspective f64 (Fin fovy) (Fin aspect) (Fin zn) (Fin zf) = mat ?P"
    using makePerspective_mat [OF proj] by (simp add: perspective_def p_def q_def e_def f_def)
  have pos: "0 < p" "0 < q" "f < 0" "e < 0"
    using proj by (simp_all add: p_def q_def e_def f_def divide_less_0_iff mult_pos_pos)
  let ?a = "mx / w * 2 - 1" and ?b = "1 - my / h * 2"
  define W where "W = (e - 1 / 2) / f"
  have W: "0 < W" using pos by (simp add: W_def divide_neg_neg)
  define v where "v = scale3 (1 / W) (?a / p, ?b / q, -1)"
  have img: "image_point f64 (Fin w) (Fin h) (Fin mx) (Fin my) = vec3 (?a, ?b, -1 / 2)"
    using size by (simp add: image_point_def vec3_def)
  have unproject: "V3_mul4x4 f64 (mat [1 / p, 0, 0, 0, 0, 1 / q, 0, 0, 0, 0, 0, 1 / f, 0, 0, -1, e / f])
      (vec3 (?a, ?b, -1 / 2)) = vec3 v"
    using W pos by (subst mul4x4_mat) (simp_all add: v_def W_def field_simps)
  let ?r = "in_frame x y z v"
  note coords = in_frame_back [OF view(3), of v]
  have z: "dot3 z ?r = - 1 / W" using coords by (simp add: v_def scale3_def)
  then have nz: "dot3 ?r ?r \<noteq> 0" using W dot3_zero [of ?r z] by auto
  note N = V3_normalize_vec3 [OF nz]
  define l where "l = sqrt (dot3 ?r ?r)"
  have l: "0 < l" using nz dot3_nonneg [of ?r] unfolding l_def by simp
  have u: "unit3 ?r = scale3 (1 / l) ?r" by (simp add: unit3_def l_def)
  have zero: "V3_new f64 0 0 0 = vec3 (0, 0, 0)" by (simp add: vec3_def)
  have inv: "M4x4_inverse f64 (mat ?P) =
      Some (mat [1 / p, 0, 0, 0, 0, 1 / q, 0, 0, 0, 0, 0, 1 / f, 0, 0, -1, e / f])"
    using pos by (intro inverse_perspective) auto
  have ray: "computePickRay f64 (mat ?P) (mat m) (Fin w) (Fin h) (Fin mx) (Fin my) =
      Some \<lparr>pick_point = vec3 (0, 0, 0), pick_dir = vec3 (unit3 ?r)\<rparr>"
    unfolding computePickRay_def inv img topLeft_inverseOrthonormal [OF view(1)] view(2) zero Let_def option.map
      unproject mul3x3_frame vec3_ops sub3_zero N(1) ..
  have "V3_mul3x3 f64 (M4x4_topLeft3x3 f64 (mat m)) (vec3 (scale3 s (unit3 ?r))) = vec3 (scale3 (s / l) v)"
    using coords unfolding view(2) u mul3x3_frame dot3_scale by (cases v) (simp add: scale3_def [of "s / l"])
  moreover have "\<exists>d. V3_mul4x4 f64 (mat ?P) (vec3 (scale3 (s / l) v)) = vec3 (?a, ?b, d)"
  proof -
    define k where "k = s / l / W"
    have k: "0 < k" using s l W by (simp add: k_def)
    have v: "scale3 (s / l) v = (k * (?a / p), k * (?b / q), - k)" by (simp add: v_def scale3_def k_def)
    have "V3_mul4x4 f64 (mat ?P) (vec3 (k * (?a / p), k * (?b / q), - k)) = vec3 (?a, ?b, (f - e * k) / k)"
      using k pos by (simp add: mul4x4_mat scale3_def)
    then show ?thesis unfolding v by blast
  qed
  moreover have "dot3 z (unit3 ?r) < 0" using z W l by (simp add: u)
  ultimately show ?thesis using ray N(2) unfolding P by (intro exI [of _ "unit3 ?r"]) simp
qed

end
