(* ===== verification/Utm.thy ===== *)
theory Utm
  imports JsNumber
begin

text \<open>
  The conversion of UTM coordinates to latitude and longitude (\<open>js/utm.js\<close>), which the client uses for
  a link to a map. The constants the function begins with (zone 10, the northern hemisphere, the
  ellipsoid WGS 84) are kept as constants, with the branches that depend on them. A call that throws is
  \<open>None\<close>: a point out of range shows a message and then increments \<open>bulkErrors\<close>, which is not declared
  anywhere; \<open>gsrugZoner\<close>, of the branch for MTM coordinates, does not exist either.
\<close>

section \<open>The conversion\<close>

record ellipsoid =
  ell_axis :: jsnum
  ell_eccentricity :: jsnum
  ell_eastingOrg :: jsnum
  ell_scaleTm :: jsnum

definition ellipsoid_table :: "(jsnum \<times> jsnum) list" where
  "ellipsoid_table =
     [(Fin 6377563.396, Fin 0.00667054), (Fin 6377340.189, Fin 0.00667054), (Fin 6378160, Fin 0.006694542),
      (Fin 6377397.155, Fin 0.006674372), (Fin 6378206.4, Fin 0.006768658), (Fin 6378249.145, Fin 0.006803511),
      (Fin 6377276.345, Fin 0.00637847), (Fin 6377304.063, Fin 0.006637847), (Fin 6378166, Fin 0.006693422),
      (Fin 6378150, Fin 0.006693422), (Fin 6378155, Fin 0.006693422), (Fin 6378160, Fin 0.006694605),
      (Fin 6378137, Fin 0.00669438), (Fin 6378200, Fin 0.006693422), (Fin 6378270, Fin 0.006693422),
      (Fin 6378388, Fin 0.00672267), (Fin 6378245, Fin 0.006693422), (Fin 6378160, Fin 0.006694542),
      (Fin 6378165, Fin 0.006693422), (Fin 6378145, Fin 0.006694542), (Fin 6378135, Fin 0.006694318),
      (Fin 6378137, Fin 0.00669438)]"

definition geo_constants :: "nat \<Rightarrow> nat \<Rightarrow> ellipsoid" where
  "geo_constants e xtm =
     (let e = (if e = 0 then 22 else e) - 1;
          (scaleTm, eastingOrg) = (if xtm = 1 then (Fin 0.9999, Fin 304800) else (Fin 0.9996, Fin 500000))
      in \<lparr>ell_axis = idx (map fst ellipsoid_table) e, ell_eccentricity = idx (map snd ellipsoid_table) e,
          ell_eastingOrg = eastingOrg, ell_scaleTm = scaleTm\<rparr>)"

text \<open>\<open>Math.pow(a, 1.5)\<close>.\<close>

fun pow_three_halves :: "jsnum \<Rightarrow> jsnum" where
  "pow_three_halves (Fin a) = (if a < 0 then NaN else Fin (a * sqrt a))"
| "pow_three_halves NaN = NaN"
| "pow_three_halves _ = PInf"

definition rad2deg :: jsnum where
  "rad2deg = 180 / Math_PI"

text \<open>The footpoint latitude: the latitude on the central meridian with the same northing.\<close>

definition footpoint :: "ellipsoid \<Rightarrow> jsnum \<Rightarrow> jsnum" where
  "footpoint ell y =
     (let axis = ell_axis ell; eccent = ell_eccentricity ell; k0 = ell_scaleTm ell;
          e1 = (1 - Math_sqrt (1 - eccent)) / (1 + Math_sqrt (1 - eccent));
          M = y / k0;
          mu = M / (axis * (1 - eccent / 4 - 3 * eccent * eccent / 64 - 5 * eccent * eccent * eccent / 256))
      in mu + (3 * e1 / 2 - 27 * e1 * e1 * e1 / 32) * Math_sin (2 * mu)
           + (21 * e1 * e1 / 16 - 55 * e1 * e1 * e1 * e1 / 32) * Math_sin (4 * mu)
           + (151 * e1 * e1 * e1 / 96) * Math_sin (6 * mu))"

text \<open>The series in the distance from the central meridian, in degrees.\<close>

definition utm_series :: "ellipsoid \<Rightarrow> jsnum \<Rightarrow> jsnum \<Rightarrow> jsnum \<Rightarrow> jsnum \<times> jsnum" where
  "utm_series ell x phi1Rad longorig =
     (let axis = ell_axis ell; eccent = ell_eccentricity ell; k0 = ell_scaleTm ell;
          eccPrimeSquared = eccent / (1 - eccent);
          N1 = axis / Math_sqrt (1 - eccent * Math_sin phi1Rad * Math_sin phi1Rad);
          T1 = Math_tan phi1Rad * Math_tan phi1Rad;
          C1 = eccPrimeSquared * Math_cos phi1Rad * Math_cos phi1Rad;
          R1 = axis * (1 - eccent) / pow_three_halves (1 - eccent * Math_sin phi1Rad * Math_sin phi1Rad);
          D = x / (N1 * k0);
          lat = phi1Rad - (N1 * Math_tan phi1Rad / R1) *
            (D * D / 2
             - (5 + 3 * T1 + 10 * C1 - 4 * C1 * C1 - 9 * eccPrimeSquared) * D * D * D * D / 24
             + (61 + 90 * T1 + 298 * C1 + 45 * T1 * T1 - 252 * eccPrimeSquared - 3 * C1 * C1)
                 * D * D * D * D * D * D / 720);
          lon = (D - (1 + 2 * T1 + C1) * D * D * D / 6
             + (5 - 2 * C1 + 28 * T1 - 3 * C1 * C1 + 8 * eccPrimeSquared + 24 * T1 * T1)
                 * D * D * D * D * D / 120) / Math_cos phi1Rad
      in (lat * rad2deg, longorig + lon * rad2deg))"

definition utm_to_lat_long :: "jsnum list \<Rightarrow> (jsnum \<times> jsnum) option" where
  "utm_to_lat_long pnt =
     (let mrm = Fin 0; xtm = 0; ellips = 22; zone = Fin 10; zletter = CHR ''W'';
          easting = idx pnt 0; northing = idx pnt 1;
          ell = geo_constants ellips xtm
      in if zone < 0 \<or> zone > 60 then None
         else if northing < 0 \<or> northing > 10000000 then None
         else if js_eq mrm 0 \<and> (easting < 160000 \<or> easting > 834000) then None
         else
           (let scaleTm = ell_scaleTm ell;
                x = easting - ell_eastingOrg ell;
                y = (if (of_char zletter :: nat) \<ge> of_char CHR ''N'' \<or> js_eq scaleTm (Fin 0.9999) then northing
                     else northing - 10000000);
                longorig = (zone - 1) * 6 - 180 + 3
            in if js_eq scaleTm (Fin 0.9999) \<and> js_eq mrm 0 then None
               else
                 (let longorig = (if js_eq scaleTm (Fin 0.9999) then mrm else longorig)
                  in Some (utm_series ell x (footpoint ell y) longorig))))"

section \<open>In real numbers\<close>

definition wgs84 :: ellipsoid where
  "wgs84 = \<lparr>ell_axis = Fin 6378137, ell_eccentricity = Fin 0.00669438, ell_eastingOrg = Fin 500000, ell_scaleTm = Fin 0.9996\<rparr>"

lemma geo_constants_wgs84: "geo_constants 22 0 = wgs84"
  by (simp add: geo_constants_def wgs84_def ellipsoid_table_def)

lemma utm_in_range:
  "utm_to_lat_long (Fin e # Fin n # r) =
     (if 0 \<le> n \<and> n \<le> 10000000 \<and> 160000 \<le> e \<and> e \<le> 834000
      then Some (utm_series wgs84 (Fin (e - 500000)) (footpoint wgs84 (Fin n)) (Fin (-123))) else None)"
  by (auto simp: utm_to_lat_long_def geo_constants_wgs84 Let_def, simp_all add: wgs84_def)

lemma pi_ge_3: "3 \<le> pi"
proof -
  have "sin (pi / 6) \<le> pi / 6" by (rule sin_x_le_x) simp
  then show ?thesis by (simp add: sin_30)
qed

text \<open>The footpoint latitude stays below a right angle up to the northing of the poles' edge of UTM.\<close>

lemma footpoint_real:
  assumes "0 \<le> n" "n \<le> 9400000"
  obtains phi where "footpoint wgs84 (Fin n) = Fin phi" "0 < cos phi" "n = 0 \<Longrightarrow> phi = 0"
proof -
  define E where "E = (0.00669438 :: real)"
  define q where "q = sqrt (1 - E)"
  define e where "e = (1 - q) / (1 + q)"
  have q: "0.996 \<le> q" "q \<le> 1" unfolding q_def
    by (rule real_le_rsqrt) (simp_all add: power2_eq_square E_def)
  have e: "0 \<le> e" "e \<le> 0.00201" using q by (simp_all add: e_def field_simps)
  define k where "k = 6378137 * (1 - E / 4 - 3 * E * E / 64 - 5 * E * E * E / 256)"
  have k: "6367449 \<le> k" by (simp add: k_def E_def)
  define mu where "mu = n / 0.9996 / k"
  have mu: "0 \<le> mu" "mu \<le> 148 / 100" using assms k by (simp_all add: mu_def field_simps)
  define a b c where "a = 3 * e / 2 - 27 * e * e * e / 32" and "b = 21 * e * e / 16 - 55 * e * e * e * e / 32"
    and "c = 151 * e * e * e / 96"
  have pos: "0 \<le> e * e" "0 \<le> e * e * e" "0 \<le> e * e * e * e" using e by simp_all
  have e1: "e \<le> 1 / 400" using e(2) by simp
  have e2: "e * e \<le> 1 / 400 * (1 / 400)" by (rule mult_mono [OF e1 e1]) (use e in simp_all)
  have e3: "e * e * e \<le> 1 / 400 * (1 / 400) * (1 / 400)" by (rule mult_mono [OF e2 e1]) (use e in simp_all)
  have e4: "e * e * e * e \<le> 1 / 400 * (1 / 400) * (1 / 400) * (1 / 400)"
    by (rule mult_mono [OF e3 e1]) (use e in simp_all)
  note ee = pos e1 e2 e3 e4
  have abc: "\<bar>a\<bar> \<le> 1 / 250" "\<bar>b\<bar> \<le> 1 / 250" "\<bar>c\<bar> \<le> 1 / 250"
  proof -
    have "a = 3 * e / 2 - 27 * (e * e * e) / 32" "b = 21 * (e * e) / 16 - 55 * (e * e * e * e) / 32"
        "c = 151 * (e * e * e) / 96"
      by (simp_all add: a_def b_def c_def)
    then show "\<bar>a\<bar> \<le> 1 / 250" "\<bar>b\<bar> \<le> 1 / 250" "\<bar>c\<bar> \<le> 1 / 250"
      using e(1) ee by linarith+
  qed
  define phi where "phi = mu + a * sin (2 * mu) + b * sin (4 * mu) + c * sin (6 * mu)"
  have small: "\<bar>t * sin u\<bar> \<le> 1 / 250" if "\<bar>t\<bar> \<le> 1 / 250" for t u :: real
    using mult_mono [OF that abs_sin_le_one [of u]] by (simp add: abs_mult)
  have "\<bar>phi - mu\<bar> \<le> 3 / 250"
    using small [OF abc(1), of "2 * mu"] small [OF abc(2), of "4 * mu"] small [OF abc(3), of "6 * mu"]
    unfolding phi_def by linarith
  then have "- (pi / 2) < phi" "phi < pi / 2" using mu pi_ge_3 by linarith+
  then have cos: "0 < cos phi" by (rule cos_gt_zero_pi)
  have "footpoint wgs84 (Fin n) = Fin phi"
  proof -
    have root: "Math_sqrt (1 - Fin E) = Fin q" using q by (simp add: q_def E_def)
    have e_eq: "(1 - Fin q) / (1 + Fin q) = Fin e" using q by (simp add: e_def)
    have mu_eq: "Fin n / Fin 0.9996 / (Fin 6378137 * (1 - Fin E / 4 - 3 * Fin E * Fin E / 64 - 5 * Fin E * Fin E * Fin E / 256)) = Fin mu"
      using k by (simp add: mu_def k_def)
    show ?thesis
      unfolding footpoint_def wgs84_def Let_def ellipsoid.simps E_def [symmetric] root e_eq mu_eq
      by (simp add: phi_def a_def b_def c_def)
  qed
  moreover have "n = 0 \<Longrightarrow> phi = 0" by (simp add: phi_def mu_def)
  ultimately show thesis using cos that by blast
qed

text \<open>The series in real numbers: the latitude is even in the distance from the meridian, the
  longitude odd.\<close>

lemma series_real:
  assumes "0 < cos phi"
  obtains lat lon where
    "\<And>x. utm_series wgs84 (Fin x) (Fin phi) (Fin l) = (Fin (lat x), Fin (l + lon x))"
    "\<And>x. lat (- x) = lat x" "\<And>x. lon (- x) = - lon x" "\<And>x. phi = 0 \<Longrightarrow> lat x = 0" "lon 0 = 0"
proof -
  define e where "e = (0.00669438 :: real)"
  define s where "s = 1 - e * sin phi * sin phi"
  have "sin phi * sin phi \<le> 1" using abs_sin_le_one [of phi] abs_square_le_1 [of "sin phi"] by (simp add: power2_eq_square)
  then have s: "0 < s" by (simp add: s_def e_def)
  define N R where "N = 6378137 / sqrt s" and "R = 6378137 * (1 - e) / (s * sqrt s)"
  have NR: "0 < N" "0 < R" using s by (simp_all add: N_def R_def e_def)
  define T C p where "T = tan phi * tan phi" and "C = e / (1 - e) * cos phi * cos phi" and "p = e / (1 - e)"
  define u where "u = N * 0.9996"
  define F where "F = (\<lambda>D. (phi - (N * tan phi / R) * (D * D / 2 - (5 + 3 * T + 10 * C - 4 * C * C - 9 * p) * D * D * D * D / 24
      + (61 + 90 * T + 298 * C + 45 * T * T - 252 * p - 3 * C * C) * D * D * D * D * D * D / 720)) * (180 / pi))"
  define G where "G = (\<lambda>D. D - (1 + 2 * T + C) * D * D * D / 6
      + (5 - 2 * C + 28 * T - 3 * C * C + 8 * p + 24 * T * T) * D * D * D * D * D / 120)"
  have F: "F (- D) = F D" and G: "G (- D) = - G D" for D by (simp_all add: F_def G_def)
  show thesis
  proof (rule that [of "\<lambda>x. F (x / u)" "\<lambda>x. G (x / u) / cos phi * (180 / pi)"])
    fix x
    have parts: "Math_sqrt (1 - Fin e * Math_sin (Fin phi) * Math_sin (Fin phi)) = Fin (sqrt s)"
        "pow_three_halves (1 - Fin e * Math_sin (Fin phi) * Math_sin (Fin phi)) = Fin (s * sqrt s)"
        "Fin e / (1 - Fin e) = Fin p"
      using s by (simp_all add: s_def p_def e_def)
    have "Fin 6378137 / Fin (sqrt s) = Fin N" "Fin 6378137 * (1 - Fin e) / Fin (s * sqrt s) = Fin R"
      using s by (simp_all add: N_def R_def)
    then show "utm_series wgs84 (Fin x) (Fin phi) (Fin l) = (Fin (F (x / u)), Fin (l + G (x / u) / cos phi * (180 / pi)))"
      using NR assms
      unfolding utm_series_def wgs84_def Let_def ellipsoid.simps e_def [symmetric] parts rad2deg_def Math_PI_def
      by (simp add: T_def C_def p_def F_def G_def u_def)
    show "F (- x / u) = F (x / u)" using F [of "x / u"] by simp
    show "G (- x / u) / cos phi * (180 / pi) = - (G (x / u) / cos phi * (180 / pi))" using G [of "x / u"] by simp
    show "F (x / u) = 0" if "phi = 0" using that by (simp add: F_def)
    show "G (0 / u) / cos phi * (180 / pi) = 0" by (simp add: G_def)
  qed
qed



end
