(* ===== verification/Viewer.thy ===== *)
theory Viewer
  imports ViewLinks Metadata Picking Utm
begin

text \<open>
  The viewer (\<open>js/index.js\<close>): the globals of the page and the handlers of the keyboard, the mouse and
  the sliders that change them. A handler maps a state to the state after it; \<open>None\<close> is an exception
  (a failed \<open>assert\<close>, or a property of \<open>null\<close> or \<open>undefined\<close>). The calls of WebGL and of the document are left out,
  except the two uniforms of the selection and what is shown to the user in a message box.

  The callback of the camera asks for a query: \<open>triggerFrustumUpdate\<close> sets a timer unless one is set,
  with the resolution at that moment; when it fires, \<open>frustum_timeout\<close> calls \<open>getFrustum\<close> (theory Querier). The positions of the
  mouse are relative to the canvas, as \<open>getCursorPosition\<close> returns them.
\<close>

section \<open>State\<close>

text \<open>\<open>Link_message\<close> is \<open>None\<close> if a number of the link has no text, which no double lacks.\<close>

datatype message = Link_message "string option" | Place_message "jsnum \<times> jsnum" | Name_the_view

record viewer =
  v_cam :: "camera option"
  from_url :: bool
  v_trees :: "named_tree option list"
  currentCells :: "cell list option"
  canvas_width :: jsnum
  canvas_height :: jsnum
  near_plane_distance :: jsnum
  custom_clipping :: bool
  box_size_px :: jsnum
  min_box_size :: jsnum
  point_size_multiplier :: jsnum
  desired_count :: jsnum
  projectionMatrix :: farray
  query_projection :: farray
  cache_only :: bool
  existing_frustum_trigger :: "jsnum option"
  v_selection :: "selection option"
  u_selection_begin :: farray
  u_selection_end :: farray
  distanceMeasurementStart :: "farray option"
  allMeasurements :: "measurement list"
  measurement_number :: nat
  selection_cloud :: point_cloud
  v_views :: "camera option list"
  mousePosition :: "jsnum \<times> jsnum"
  mouseButtonDown :: nat
  messages :: "message list"

definition fov :: jsnum where "fov = 20"
definition far_plane_distance :: jsnum where "far_plane_distance = 10000000"

section \<open>Asking for a query\<close>

definition box_size_meters :: "viewer \<Rightarrow> jsnum" where
  "box_size_meters v = (2 * Math_tan ((fov / 2) * Math_PI / 180) * box_size_px v) / canvas_height v"

definition triggerFrustumUpdate :: "viewer \<Rightarrow> viewer" where
  "triggerFrustumUpdate v =
     (if v_cam v \<noteq> None \<and> existing_frustum_trigger v = None
      then v\<lparr>existing_frustum_trigger := Some (box_size_meters v)\<rparr> else v)"

text \<open>The timer fires after 15 ms; the argument \<open>n\<close> is the fuel of the query (theory Querier).\<close>

definition frustum_timeout ::
    "(jsnum \<Rightarrow> jsnum) \<Rightarrow> config \<Rightarrow> nat \<Rightarrow> viewer \<Rightarrow> querier \<Rightarrow> qerror + viewer \<times> querier" where
  "frustum_timeout st cfg n v s =
     (case (v_cam v, existing_frustum_trigger v) of
        (Some cam, Some gm) \<Rightarrow>
          bind_res (getFrustum cfg n (getMatrix st cam) gm s) (\<lambda>s. Inr (v\<lparr>existing_frustum_trigger := None\<rparr>, s))
      | (None, Some gm) \<Rightarrow> Inl Type_error
      | _ \<Rightarrow> Inr (v, s))"

text \<open>An operation of the camera; its callback runs if the operation notifies.\<close>

definition move_camera :: "(camera \<Rightarrow> camera) \<Rightarrow> viewer \<Rightarrow> viewer option" where
  "move_camera f v =
     map_option
       (\<lambda>cam. let v' = v\<lparr>v_cam := Some (f cam)\<rparr>
              in if motions (f cam) > motions cam then triggerFrustumUpdate v' else v')
       (v_cam v)"

text \<open>A flight of the camera to a goal, with the callback of the camera.\<close>

definition fly_to :: "(jsnum \<Rightarrow> jsnum) \<Rightarrow> camera \<Rightarrow> jsnum \<Rightarrow> viewer \<Rightarrow> viewer option" where
  "fly_to st goal speed_scale v =
     Option.bind (v_cam v) (\<lambda>cam.
       map_option (\<lambda>cam'. let v' = v\<lparr>v_cam := Some cam'\<rparr>
                     in if motions cam' > motions cam then triggerFrustumUpdate v' else v')
         (goto st goal speed_scale cam))"

definition page_setProjectionMatrix :: "(jsnum \<Rightarrow> jsnum) \<Rightarrow> viewer \<Rightarrow> viewer" where
  "page_setProjectionMatrix st v =
     (let aspect = canvas_width v / canvas_height v;
          v = v\<lparr>projectionMatrix := M4x4_makePerspective st fov aspect (near_plane_distance v) far_plane_distance\<rparr>;
          v = v\<lparr>query_projection := M4x4_makePerspective st (fov + 2) aspect (near_plane_distance v) far_plane_distance\<rparr>
      in triggerFrustumUpdate v)"

section \<open>Trees and the camera\<close>

definition toggleTreeMode :: "bool \<Rightarrow> nat \<Rightarrow> viewer \<Rightarrow> viewer option" where
  "toggleTreeMode shiftKey tree v =
     (if length (v_trees v) \<ge> tree + 1 then
        (case v_trees v ! tree of
           None \<Rightarrow> None
         | Some t \<Rightarrow>
             (let t = (if shiftKey then t\<lparr>t_enabled := True, t_override := \<not> t_override t\<rparr>
                       else t\<lparr>t_enabled := \<not> t_enabled t\<rparr>)
              in Some (triggerFrustumUpdate (v\<lparr>v_trees := (v_trees v)[tree := Some t]\<rparr>))))
      else Some v)"

definition start_camera :: "(jsnum \<Rightarrow> jsnum) \<Rightarrow> cam_config \<Rightarrow> viewer \<Rightarrow> viewer" where
  "start_camera st config v = triggerFrustumUpdate (v\<lparr>v_cam := Some (initCam st config), from_url := False\<rparr>)"

definition addTree :: "(jsnum \<Rightarrow> jsnum) \<Rightarrow> string \<Rightarrow> metadata \<Rightarrow> viewer \<Rightarrow> viewer" where
  "addTree st tree m v =
     (let v = v\<lparr>v_trees := v_trees v @ [Some (TreeInfo st tree m [1, 0, 0])]\<rparr>;
          v = (if v_cam v = None \<or> with_viewpoint m \<and> \<not> from_url v then
                 start_camera st \<lparr>cf_origin = Some (camera_origin m), cf_distance = camera_distance m,
                   cf_pitch = camera_pitch m, cf_yaw = camera_yaw m, cf_closest = NaN, cf_farthest = NaN\<rparr> v
               else v)
      in triggerFrustumUpdate v)"

definition clearSelection :: "(jsnum \<Rightarrow> jsnum) \<Rightarrow> viewer \<Rightarrow> viewer" where
  "clearSelection st v =
     v\<lparr>v_selection := None, u_selection_begin := V3_new st 0 0 0, u_selection_end := V3_new st 0 0 0\<rparr>"

section \<open>The keyboard\<close>

text \<open>The key \<open>n\<close> calls \<open>walkN\<close> of \<open>js/old_stuff.js\<close>, a file that the page does not load.\<close>

definition onKeyDown :: "(jsnum \<Rightarrow> jsnum) \<Rightarrow> string \<Rightarrow> bool \<Rightarrow> nat \<Rightarrow> viewer \<Rightarrow> viewer option" where
  "onKeyDown st href shiftKey keyCode v =
     (if 49 \<le> keyCode \<and> keyCode \<le> 57 then toggleTreeMode shiftKey (keyCode - 49) v
      else if keyCode = 67 then Some (v\<lparr>cache_only := \<not> cache_only v\<rparr>)
      else if keyCode = 70 then Some (triggerFrustumUpdate v)
      else if keyCode = 76 then
        map_option (\<lambda>cam. v\<lparr>messages := messages v @
            [Link_message (view_link href (map (map_option t_name) (v_trees v)) cam)]\<rparr>) (v_cam v)
      else if keyCode = 78 then None
      else if keyCode = 73 then
        Some (page_setProjectionMatrix st (v\<lparr>custom_clipping := False, near_plane_distance := 1\<rparr>))
      else if keyCode = 79 then
        (let v = v\<lparr>near_plane_distance := near_plane_distance v - Fin 0.5\<rparr>;
             v = v\<lparr>near_plane_distance := Math_max 1 (near_plane_distance v)\<rparr>;
             v = page_setProjectionMatrix st v
         in Some (v\<lparr>custom_clipping := near_plane_distance v > 1\<rparr>))
      else if keyCode = 80 then
        (let v = v\<lparr>near_plane_distance := near_plane_distance v + Fin 0.5\<rparr>;
             v = page_setProjectionMatrix st v
         in Some (v\<lparr>custom_clipping := near_plane_distance v > 1\<rparr>))
      else if keyCode = 27 then Some (clearSelection st v)
      else Some v)"

section \<open>The mouse\<close>

definition pick_env_of :: "(jsnum \<Rightarrow> jsnum) \<Rightarrow> viewer \<Rightarrow> camera \<Rightarrow> pick_ray \<Rightarrow> pick_env" where
  "pick_env_of st v cam ray =
     \<lparr>pk_store = st, pk_min_dist = Math_max 1 (near_plane_distance v), pk_ray = ray,
      pk_ratio = magic_ratio (canvas_height v), pk_camera = getPosition st cam\<rparr>"

definition mouse_ray :: "(jsnum \<Rightarrow> jsnum) \<Rightarrow> viewer \<Rightarrow> camera \<Rightarrow> jsnum \<times> jsnum \<Rightarrow> pick_ray option" where
  "mouse_ray st v cam p =
     computePickRay st (projectionMatrix v) (getMatrix st cam) (canvas_width v) (canvas_height v) (fst p) (snd p)"

text \<open>
  The first part of \<open>onMouseDown\<close>: the point under the mouse. \<open>V3.add\<close> reads it before it is tested, so
  the handler throws when there is none.
\<close>

definition pick :: "(jsnum \<Rightarrow> jsnum) \<Rightarrow> viewer \<Rightarrow> camera \<Rightarrow> jsnum \<times> jsnum \<Rightarrow> (farray \<times> farray) option" where
  "pick st v cam p =
     Option.bind (mouse_ray st v cam p) (\<lambda>ray.
     Option.bind (currentCells v) (\<lambda>cs.
     Option.bind (pickPointFromCells (pick_env_of st v cam ray) cs) (\<lambda>pt.
       Some (pt, V3_add st pt (getPosition st cam)))))"

definition start_selection :: "(jsnum \<Rightarrow> jsnum) \<Rightarrow> farray \<Rightarrow> camera \<Rightarrow> viewer \<Rightarrow> viewer option" where
  "start_selection st pickedPoint cam v =
     (let sel = Selection st pickedPoint (M4x4_topLeft3x3 st (getMatrix st cam)) (getPosition st cam);
          v = v\<lparr>mouseButtonDown := 4, v_selection := Some sel\<rparr>
      in case (distanceMeasurementStart v, getPoint sel) of
           (_, None) \<Rightarrow> None
         | (Some b, Some e) \<Rightarrow>
             (let (m, k) = DistanceMeasurement st b e None (measurement_number v)
              in Some (v\<lparr>allMeasurements := allMeasurements v @ [m], measurement_number := k,
                         distanceMeasurementStart := None\<rparr>))
         | (None, Some e) \<Rightarrow> Some (v\<lparr>distanceMeasurementStart := Some e\<rparr>))"

definition onMouseDown :: "(jsnum \<Rightarrow> jsnum) \<Rightarrow> nat \<Rightarrow> bool \<Rightarrow> jsnum \<times> jsnum \<Rightarrow> viewer \<Rightarrow> viewer option" where
  "onMouseDown st which shiftKey p v =
     Option.bind (v_cam v) (\<lambda>cam.
       let cam = stopProfile cam;
           v = v\<lparr>v_cam := Some cam, mousePosition := p\<rparr>;
           drag = (\<lambda>v. if (which = 1 \<or> which = 2) \<and> \<not> shiftKey then v\<lparr>mouseButtonDown := which\<rparr> else v)
       in if which = 1 \<and> shiftKey \<or> which = 3 then
            Option.bind (pick st v cam p) (\<lambda>(pickedPoint, world_pick_point).
              let v = drag v in
              if which = 1 \<and> shiftKey then start_selection st pickedPoint cam v
              else if shiftKey then
                map_option (\<lambda>lat_lon. v\<lparr>messages := messages v @ [Place_message lat_lon]\<rparr>)
                  (utm_to_lat_long world_pick_point)
              else
                (let goal_cam = OrbitCam_new st \<lparr>cf_origin = Some world_pick_point, cf_distance = V3_length pickedPoint,
                       cf_pitch = cpitch cam, cf_yaw = cyaw cam, cf_closest = NaN, cf_farthest = NaN\<rparr>
                 in fly_to st goal_cam 4 v))
          else Some (drag v))"

text \<open>With the button released the selection is shown: the box, or the point as a marker.\<close>

definition onMouseUp :: "(jsnum \<Rightarrow> jsnum) \<Rightarrow> jsnum \<times> jsnum \<Rightarrow> viewer \<Rightarrow> viewer option" where
  "onMouseUp st p v =
     map_option (\<lambda>v. v\<lparr>mouseButtonDown := 0\<rparr>)
       (if mouseButtonDown v = 4 then
          Option.bind (v_selection v) (\<lambda>sel.
            if \<not> isPoint sel then
              Option.bind (v_cam v) (\<lambda>cam.
                map_option (\<lambda>ray. v\<lparr>v_selection := Some (setEndPoint st (pick_dir ray) sel)\<rparr>) (mouse_ray st v cam p))
            else
              map_option (\<lambda>pt.
                let cloud = selection_cloud v;
                    cloud = (if length (vertices cloud) < 1
                             then cloud\<lparr>vertices := vertices cloud @ [[0, 0, 1]], colors := colors cloud @ [[1, 0, 0]]\<rparr>
                             else cloud);
                    cloud = cloud\<lparr>vertices := (vertices cloud)[0 := pt], colors := (colors cloud)[0 := [1, 0, 0]]\<rparr>
                in v\<lparr>selection_cloud := cloud_setupGL cloud\<rparr>) (getPoint sel))
        else Some v)"

definition onMouseMove :: "(jsnum \<Rightarrow> jsnum) \<Rightarrow> jsnum \<times> jsnum \<Rightarrow> viewer \<Rightarrow> viewer option" where
  "onMouseMove st p v =
     (let deltaX = (fst p - fst (mousePosition v)) / canvas_width v;
          deltaY = (snd p - snd (mousePosition v)) / canvas_height v
      in if mouseButtonDown v = 1 then
           map_option (\<lambda>v. v\<lparr>mousePosition := p\<rparr>)
             (Option.bind (move_camera (yaw (- deltaX * 5)) v) (move_camera (pitch (- deltaY * 5))))
         else if mouseButtonDown v = 2 then
           map_option (\<lambda>v. v\<lparr>mousePosition := p\<rparr>)
             (Option.bind (move_camera (\<lambda>cam. goLeft st (deltaX * Fin 0.5 * distance cam) cam) v)
               (move_camera (\<lambda>cam. goUp st (deltaY * Fin 0.5 * distance cam) cam)))
         else if mouseButtonDown v = 4 then
           Option.bind (v_selection v) (\<lambda>sel. Option.bind (v_cam v) (\<lambda>cam.
             map_option (\<lambda>ray.
               let sel' = setEndPoint st (pick_dir ray) sel;
                   v = v\<lparr>v_selection := Some sel'\<rparr>;
                   v = (if isPoint sel then v\<lparr>u_selection_begin := begin_selection sel'\<rparr> else v)
               in v\<lparr>u_selection_end := the (end_selection sel')\<rparr>) (mouse_ray st v cam p)))
         else Some v)"

definition mouseScroll :: "(jsnum \<Rightarrow> jsnum) \<Rightarrow> jsnum \<Rightarrow> viewer \<Rightarrow> viewer option" where
  "mouseScroll st wheel_delta v =
     Option.bind (v_cam v) (\<lambda>cam.
       let cam = stopProfile cam;
           v = v\<lparr>v_cam := Some cam\<rparr>;
           move_by = wheel_delta * Fin 0.01 * distance cam / 10;
           v = (if custom_clipping v then
                  page_setProjectionMatrix st (v\<lparr>near_plane_distance := Math_max 1 (near_plane_distance v - move_by / 2)\<rparr>)
                else v)
       in move_camera (goCloser move_by) v)"

definition onFFMouseWheel :: "(jsnum \<Rightarrow> jsnum) \<Rightarrow> jsnum \<Rightarrow> viewer \<Rightarrow> viewer option" where
  "onFFMouseWheel st detail v = mouseScroll st (Fin (-40) * detail) v"

definition onMouseWheel :: "(jsnum \<Rightarrow> jsnum) \<Rightarrow> jsnum \<Rightarrow> viewer \<Rightarrow> viewer option" where
  "onMouseWheel st wheelDelta v = mouseScroll st wheelDelta v"

section \<open>The canvas and the sliders\<close>

definition onCanvasResize :: "(jsnum \<Rightarrow> jsnum) \<Rightarrow> viewer \<Rightarrow> viewer" where
  "onCanvasResize st v =
     page_setProjectionMatrix st (v\<lparr>min_box_size := (2 * Math_tan ((fov / 2) * Math_PI / 180)) / canvas_height v\<rparr>)"

definition onWindowResize :: "(jsnum \<Rightarrow> jsnum) \<Rightarrow> jsnum \<Rightarrow> jsnum \<Rightarrow> viewer \<Rightarrow> viewer" where
  "onWindowResize st innerWidth innerHeight v =
     onCanvasResize st (v\<lparr>canvas_height := innerHeight - 20, canvas_width := innerWidth - 20\<rparr>)"

definition onPointSliderMove :: "jsnum \<Rightarrow> viewer \<Rightarrow> viewer" where
  "onPointSliderMove x v = v\<lparr>point_size_multiplier := x\<rparr>"

definition onPointCountSliderMove :: "jsnum \<Rightarrow> viewer \<Rightarrow> viewer" where
  "onPointCountSliderMove x v = triggerFrustumUpdate (v\<lparr>desired_count := x\<rparr>)"

definition onSliderMove :: "jsnum \<Rightarrow> viewer \<Rightarrow> viewer" where
  "onSliderMove x v = triggerFrustumUpdate (v\<lparr>box_size_px := x\<rparr>)"

section \<open>Saved views\<close>

text \<open>A view is the camera that its button flies to; a view that was closed is \<open>None\<close>.\<close>

definition addView :: "(jsnum \<Rightarrow> jsnum) \<Rightarrow> cam_config \<Rightarrow> viewer \<Rightarrow> viewer" where
  "addView st viewpoint v = v\<lparr>v_views := v_views v @ [Some (OrbitCam_new st viewpoint)]\<rparr>"

definition onAddView :: "(jsnum \<Rightarrow> jsnum) \<Rightarrow> string \<Rightarrow> viewer \<Rightarrow> viewer option" where
  "onAddView st name v =
     (if name = '''' then Some (v\<lparr>messages := messages v @ [Name_the_view]\<rparr>)
      else map_option (\<lambda>cam. addView st (getConfig st cam) v) (v_cam v))"

definition click_view :: "(jsnum \<Rightarrow> jsnum) \<Rightarrow> nat \<Rightarrow> viewer \<Rightarrow> viewer option" where
  "click_view st i v =
     (if i < length (v_views v) then
        (case v_views v ! i of None \<Rightarrow> Some v | Some goal \<Rightarrow> fly_to st goal (Fin 0.9) v)
      else Some v)"

definition close_view :: "nat \<Rightarrow> viewer \<Rightarrow> viewer" where
  "close_view i v = (if i < length (v_views v) then v\<lparr>v_views := (v_views v)[i := None]\<rparr> else v)"

section \<open>Opening the page\<close>

text \<open>The globals at their initial values.\<close>

definition globals :: viewer where
  "globals =
     \<lparr>v_cam = None, from_url = False, v_trees = [], currentCells = None, canvas_width = 0, canvas_height = 0,
      near_plane_distance = 1, custom_clipping = False, box_size_px = 1, min_box_size = 0,
      point_size_multiplier = Fin 1.4142, desired_count = 0, projectionMatrix = [], query_projection = [],
      cache_only = False, existing_frustum_trigger = None, v_selection = None, u_selection_begin = [0, 0, 0],
      u_selection_end = [0, 0, 0], distanceMeasurementStart = None, allMeasurements = [], measurement_number = 1,
      selection_cloud = PointCloud, v_views = [], mousePosition = (0, 0), mouseButtonDown = 0, messages = []\<rparr>"

text \<open>The parts of \<open>start\<close> that set them: the sliders, the marker of the selection, and the projection.\<close>

definition start_settings :: "viewer \<Rightarrow> viewer" where
  "start_settings v = onPointCountSliderMove 400 (onPointSliderMove (Fin 1.41) (onSliderMove 5 v))"

definition start_cloud :: "viewer \<Rightarrow> viewer" where
  "start_cloud v = v\<lparr>selection_cloud := cloud_setupGL PointCloud\<rparr>"

definition default_projection :: "(jsnum \<Rightarrow> jsnum) \<Rightarrow> viewer \<Rightarrow> farray" where
  "default_projection st v =
     M4x4_makePerspective st fov (canvas_width v / canvas_height v) (near_plane_distance v) far_plane_distance"

definition start_projection :: "(jsnum \<Rightarrow> jsnum) \<Rightarrow> viewer \<Rightarrow> viewer" where
  "start_projection st v =
     (let v = v\<lparr>projectionMatrix := default_projection st v\<rparr>
      in v\<lparr>query_projection := projectionMatrix v\<rparr>)"

text \<open>\<open>start\<close>: the camera of the query, if it has one.\<close>

definition camera_from_query :: "(jsnum \<Rightarrow> jsnum) \<Rightarrow> string \<Rightarrow> viewer \<Rightarrow> viewer" where
  "camera_from_query st query v =
     (case getViewpointFromQuery st query of
        None \<Rightarrow> v
      | Some config \<Rightarrow> (start_camera st (cam_config.truncate config) v)\<lparr>from_url := True\<rparr>)"

text \<open>\<open>start\<close>, for a canvas of a given size.\<close>

definition start_page :: "(jsnum \<Rightarrow> jsnum) \<Rightarrow> string \<Rightarrow> jsnum \<times> jsnum \<Rightarrow> viewer" where
  "start_page st query canvas =
     camera_from_query st query (start_projection st (start_cloud (start_settings
       (globals\<lparr>canvas_width := fst canvas, canvas_height := snd canvas\<rparr>))))"

text \<open>
  When the shaders are loaded the page is ready: the canvas takes its size, and a query is asked for.
\<close>

definition onProgramLoaded :: "(jsnum \<Rightarrow> jsnum) \<Rightarrow> jsnum \<Rightarrow> jsnum \<Rightarrow> viewer \<Rightarrow> viewer" where
  "onProgramLoaded st innerWidth innerHeight v =
     (let v = v\<lparr>projectionMatrix := default_projection st v\<rparr>
      in triggerFrustumUpdate (onWindowResize st innerWidth innerHeight v))"

text \<open>The page without a camera, when it is ready to be drawn.\<close>

definition new_viewer :: viewer where
  "new_viewer = start_cloud (start_settings globals)"

lemma new_viewer [simp]:
  "v_cam new_viewer = None" "currentCells new_viewer = None" "allMeasurements new_viewer = []" "v_trees new_viewer = []"
  "mouseButtonDown new_viewer = 0" "v_selection new_viewer = None" "selection_cloud new_viewer = cloud_setupGL PointCloud"
  "desired_count new_viewer = 400" "box_size_px new_viewer = 5" "point_size_multiplier new_viewer = Fin 1.41"
  by (simp_all add: new_viewer_def start_cloud_def start_settings_def globals_def onPointCountSliderMove_def
    onPointSliderMove_def onSliderMove_def triggerFrustumUpdate_def)

text \<open>The events of the page, for a given address and array type.\<close>

datatype page_event =
    Key bool nat | Mouse_down nat bool "jsnum \<times> jsnum" | Mouse_up "jsnum \<times> jsnum" | Mouse_move "jsnum \<times> jsnum"
  | Scroll jsnum | FF_wheel jsnum | Wheel jsnum | Resize jsnum jsnum | Point_slider jsnum | Count_slider jsnum | Resolution_slider jsnum
  | Metadata_loaded string string | Cells_shown "cell list" | Flight_tick nat | Trigger_done
  | Add_view string | Click_view nat | Close_view nat

fun handle_event :: "(jsnum \<Rightarrow> jsnum) \<Rightarrow> string \<Rightarrow> page_event \<Rightarrow> viewer \<Rightarrow> viewer option" where
  "handle_event st href (Key shift k) v = onKeyDown st href shift k v"
| "handle_event st href (Mouse_down b shift p) v = onMouseDown st b shift p v"
| "handle_event st href (Mouse_up p) v = onMouseUp st p v"
| "handle_event st href (Mouse_move p) v = onMouseMove st p v"
| "handle_event st href (Scroll d) v = mouseScroll st d v"
| "handle_event st href (FF_wheel d) v = onFFMouseWheel st d v"
| "handle_event st href (Wheel d) v = onMouseWheel st d v"
| "handle_event st href (Resize w h) v = Some (onWindowResize st w h v)"
| "handle_event st href (Point_slider x) v = Some (onPointSliderMove x v)"
| "handle_event st href (Count_slider x) v = Some (onPointCountSliderMove x v)"
| "handle_event st href (Resolution_slider x) v = Some (onSliderMove x v)"
| "handle_event st href (Metadata_loaded tree file) v = Some (addTree st tree (MetaData st file) v)"
| "handle_event st href (Cells_shown cs) v = Some (v\<lparr>currentCells := Some cs\<rparr>)"
| "handle_event st href (Flight_tick i) v =
     (case v_cam v of
        Some cam \<Rightarrow> if i < length (scheduled cam) then move_camera (tick st i) v else Some v
      | None \<Rightarrow> Some v)"
| "handle_event st href Trigger_done v = Some (v\<lparr>existing_frustum_trigger := None\<rparr>)"
| "handle_event st href (Add_view name) v = onAddView st name v"
| "handle_event st href (Click_view i) v = click_view st i v"
| "handle_event st href (Close_view i) v = Some (close_view i v)"

text \<open>A handler that throws leaves the page running; the model stops there.\<close>

fun handle_events :: "(jsnum \<Rightarrow> jsnum) \<Rightarrow> string \<Rightarrow> page_event list \<Rightarrow> viewer \<Rightarrow> viewer option" where
  "handle_events st href [] v = Some v"
| "handle_events st href (e # es) v = Option.bind (handle_event st href e v) (handle_events st href es)"

section \<open>The projection follows the near plane\<close>

definition projection_of :: "(jsnum \<Rightarrow> jsnum) \<Rightarrow> jsnum \<Rightarrow> viewer \<Rightarrow> farray" where
  "projection_of st f v =
     M4x4_makePerspective st f (canvas_width v / canvas_height v) (near_plane_distance v) far_plane_distance"

definition clipping_ok :: "viewer \<Rightarrow> bool" where
  "clipping_ok v \<longleftrightarrow>
     \<not> near_plane_distance v < 1 \<and>
     (custom_clipping v \<or> near_plane_distance v = 1 \<or> near_plane_distance v = NaN)"

definition projection_ok :: "(jsnum \<Rightarrow> jsnum) \<Rightarrow> viewer \<Rightarrow> bool" where
  "projection_ok st v \<longleftrightarrow>
     projectionMatrix v = projection_of st fov v \<and> query_projection v = projection_of st (fov + 2) v"

definition view_ok :: "(jsnum \<Rightarrow> jsnum) \<Rightarrow> viewer \<Rightarrow> bool" where
  "view_ok st v \<longleftrightarrow> clipping_ok v \<and> projection_ok st v"

text \<open>What the invariant reads, so that the other fields can change freely.\<close>

definition view_part :: "viewer \<Rightarrow> jsnum \<times> jsnum \<times> jsnum \<times> bool \<times> farray \<times> farray" where
  "view_part v = (canvas_width v, canvas_height v, near_plane_distance v, custom_clipping v, projectionMatrix v,
     query_projection v)"

lemma view_ok_cong: "view_part v = view_part w \<Longrightarrow> view_ok st v = view_ok st w"
  by (simp add: view_part_def view_ok_def clipping_ok_def projection_ok_def projection_of_def)

text \<open>All events but those that move the near plane, change the size of the canvas or the number of cells, or bring new cells.\<close>

fun quiet :: "page_event \<Rightarrow> bool" where
  "quiet (Key _ k) = (k \<noteq> 73 \<and> k \<noteq> 79 \<and> k \<noteq> 80)"
| "quiet (Scroll _) = False"
| "quiet (FF_wheel _) = False"
| "quiet (Wheel _) = False"
| "quiet (Resize _ _) = False"
| "quiet (Count_slider _) = False"
| "quiet (Cells_shown _) = False"
| "quiet _ = True"

text \<open>
  What a handler does to the rest: a relation between the state before and after it that every change of the other
  fields keeps, with new measurements and a new marker in the only ways the code makes them.
\<close>

locale kept =
  fixes R :: "viewer \<Rightarrow> viewer \<Rightarrow> bool"
  assumes same: "R v v"
    and trans: "R u v \<Longrightarrow> R v w \<Longrightarrow> R u w"
    and camera: "R v (v\<lparr>v_cam := a\<rparr>)" "R v (v\<lparr>from_url := b\<rparr>)" "R v (v\<lparr>v_views := vs\<rparr>)"
    and toggled: "i < length (v_trees v) \<Longrightarrow> v_trees v ! i = Some t \<Longrightarrow>
      R v (v\<lparr>v_trees := (v_trees v)[i := Some (t\<lparr>t_enabled := b, t_override := o'\<rparr>)]\<rparr>)"
    and added: "R v (v\<lparr>v_trees := v_trees v @ [Some (TreeInfo st name md color)]\<rparr>)"
    and query: "R v (v\<lparr>existing_frustum_trigger := g\<rparr>)" "R v (v\<lparr>cache_only := b\<rparr>)"
      "R v (v\<lparr>box_size_px := x\<rparr>)" "R v (v\<lparr>point_size_multiplier := x\<rparr>)"
    and mouse: "R v (v\<lparr>mousePosition := p\<rparr>)" "R v (v\<lparr>mouseButtonDown := n\<rparr>)" "R v (v\<lparr>messages := ms\<rparr>)"
    and selected: "R v (v\<lparr>v_selection := s\<rparr>)" "R v (v\<lparr>u_selection_begin := r\<rparr>)" "R v (v\<lparr>u_selection_end := r\<rparr>)"
      "R v (v\<lparr>distanceMeasurementStart := q\<rparr>)" "R v (v\<lparr>measurement_number := n\<rparr>)"
    and measured: "ms_vbo m = None \<Longrightarrow> R v (v\<lparr>allMeasurements := allMeasurements v @ [m]\<rparr>)"
    and marked: "R v (v\<lparr>selection_cloud := cloud_setupGL k\<rparr>)"
begin

lemma steps:
  assumes "R u v"
  shows "R u (v\<lparr>v_cam := a\<rparr>)" "R u (v\<lparr>from_url := b\<rparr>)" "R u (v\<lparr>v_views := vs\<rparr>)"
    "R u (v\<lparr>existing_frustum_trigger := g\<rparr>)" "R u (v\<lparr>cache_only := b\<rparr>)"
    "R u (v\<lparr>box_size_px := x\<rparr>)" "R u (v\<lparr>point_size_multiplier := x\<rparr>)" "R u (v\<lparr>mousePosition := p\<rparr>)"
    "R u (v\<lparr>mouseButtonDown := n\<rparr>)" "R u (v\<lparr>messages := ls\<rparr>)" "R u (v\<lparr>v_selection := s\<rparr>)"
    "R u (v\<lparr>u_selection_begin := r\<rparr>)" "R u (v\<lparr>u_selection_end := r\<rparr>)" "R u (v\<lparr>distanceMeasurementStart := q\<rparr>)"
    "R u (v\<lparr>measurement_number := n\<rparr>)" "R u (v\<lparr>selection_cloud := cloud_setupGL k\<rparr>)"
  by (rule trans [OF assms], rule camera query mouse selected marked)+

lemma adds_measurement: "R u v \<Longrightarrow> \<exists>m. ms = allMeasurements v @ [m] \<and> ms_vbo m = None \<Longrightarrow> R u (v\<lparr>allMeasurements := ms\<rparr>)"
  using measured trans by blast

lemma trigger: "R u v \<Longrightarrow> R u (triggerFrustumUpdate v)"
  by (simp add: triggerFrustumUpdate_def steps same)

lemmas changes = same steps adds_measurement trigger

definition keeps :: "viewer \<Rightarrow> viewer option \<Rightarrow> bool" where
  "keeps v r \<longleftrightarrow> (case r of None \<Rightarrow> True | Some w \<Rightarrow> R v w)"

lemma keeps_simps [simp]: "keeps v None" "keeps v (Some w) \<longleftrightarrow> R v w"
  by (simp_all add: keeps_def)

lemma keepsD: "keeps v r \<Longrightarrow> r = Some w \<Longrightarrow> R v w"
  by simp

lemma keeps_bind: "(\<And>y. r = Some y \<Longrightarrow> keeps v (f y)) \<Longrightarrow> keeps v (Option.bind r f)"
  by (cases r) simp_all

lemma keeps_map: "(\<And>y. r = Some y \<Longrightarrow> R v (f y)) \<Longrightarrow> keeps v (map_option f r)"
  by (cases r) simp_all

lemma keeps_from: "keeps v r \<Longrightarrow> R u v \<Longrightarrow> keeps u r"
  by (cases r) (auto intro: trans)

lemma keeps_then_map: "keeps v r \<Longrightarrow> (\<And>w. R w (f w)) \<Longrightarrow> keeps v (map_option f r)"
  by (cases r) (auto intro: trans)

lemma keeps_then: "keeps v r \<Longrightarrow> (\<And>w. keeps w (f w)) \<Longrightarrow> keeps v (Option.bind r f)"
  by (cases r) (auto intro: keeps_from)

lemma keeps_if: "(b \<Longrightarrow> keeps v x) \<Longrightarrow> (\<not> b \<Longrightarrow> keeps v y) \<Longrightarrow> keeps v (if b then x else y)"
  by simp

lemma keeps_move: "keeps v (move_camera f v)"
  unfolding move_camera_def Let_def by (rule keeps_map) (simp add: changes)

lemma keeps_fly: "keeps v (fly_to st goal s v)"
  unfolding fly_to_def by (intro keeps_bind keeps_map) (simp add: Let_def changes)

lemma keeps_toggle: "keeps v (toggleTreeMode shift k v)"
proof -
  have "R v (triggerFrustumUpdate (v\<lparr>v_trees := (v_trees v)[k := Some (if shift then t\<lparr>t_enabled := True, t_override := \<not> t_override t\<rparr>
      else t\<lparr>t_enabled := \<not> t_enabled t\<rparr>)]\<rparr>))" if "k < length (v_trees v)" "v_trees v ! k = Some t" for t
    using toggled [OF that, where b = True and o' = "\<not> t_override t"]
      toggled [OF that, where b = "\<not> t_enabled t" and o' = "t_override t"]
    by (cases shift) (simp_all add: trigger)
  then show ?thesis
    by (auto simp: toggleTreeMode_def Let_def same Suc_le_eq split: option.split)
qed

lemma keeps_selection: "R u v \<Longrightarrow> keeps u (start_selection st pt cam v)"
  by (simp add: start_selection_def DistanceMeasurement_def Let_def changes split: option.split)

lemma keeps_mouse_down: "keeps v (onMouseDown st b shift p v)"
proof -
  have drag: "R v (if c then (v\<lparr>v_cam := x, mousePosition := q\<rparr>)\<lparr>mouseButtonDown := n\<rparr> else v\<lparr>v_cam := x, mousePosition := q\<rparr>)"
    for c x q n by (simp add: changes)
  show ?thesis
    unfolding onMouseDown_def Let_def
    by (intro keeps_bind keeps_if, simp only: split_beta, intro keeps_if keeps_map)
      (auto intro!: keeps_selection keeps_from [OF keeps_fly] simp: drag changes)
qed

lemma keeps_mouse_up: "keeps v (onMouseUp st p v)"
  unfolding onMouseUp_def Let_def
  by (rule keeps_then_map, intro keeps_if keeps_bind keeps_map) (simp_all add: changes)

lemma keeps_mouse_move: "keeps v (onMouseMove st p v)"
  unfolding onMouseMove_def Let_def
  by (intro keeps_if keeps_then_map keeps_then keeps_move; (intro keeps_bind keeps_map)?; simp add: changes)

lemma keeps_views: "keeps v (onAddView st name v)" "keeps v (click_view st i v)" "R v (close_view i v)"
  by (auto simp: onAddView_def addView_def click_view_def close_view_def keeps_fly changes intro!: keeps_map split: option.splits)

lemma add_tree: "R v (addTree st tree m v)"
  using added [of v st tree m "[1, 0, 0]"] by (simp add: addTree_def start_camera_def Let_def changes)

lemma cleared: "R u v \<Longrightarrow> R u (clearSelection st v)"
  by (simp add: clearSelection_def changes)

text \<open>The keys that do not move the near plane.\<close>

lemma keeps_key: "k \<noteq> 73 \<Longrightarrow> k \<noteq> 79 \<Longrightarrow> k \<noteq> 80 \<Longrightarrow> keeps v (onKeyDown st href shift k v)"
  unfolding onKeyDown_def by (intro keeps_if) (simp_all add: cleared keeps_toggle keeps_map changes)

lemma keeps_quiet: "quiet e \<Longrightarrow> keeps v (handle_event st href e v)"
  by (cases e) (simp_all add: keeps_key keeps_mouse_down keeps_mouse_up keeps_mouse_move keeps_move keeps_views add_tree
    onPointSliderMove_def onSliderMove_def changes split: option.split)

end

text \<open>Quiet handlers keep what the invariant reads.\<close>

interpretation part: kept "\<lambda>v w. view_part w = view_part v"
  by unfold_locales (simp_all add: view_part_def)

lemma view_part_simps [simp]:
  "view_part (triggerFrustumUpdate v) = view_part v" "view_part (v\<lparr>v_cam := a\<rparr>) = view_part v"
  "view_part (v\<lparr>from_url := h\<rparr>) = view_part v" "view_part (v\<lparr>currentCells := i\<rparr>) = view_part v"
  "view_part (v\<lparr>desired_count := j\<rparr>) = view_part v"
  by (simp_all add: view_part_def triggerFrustumUpdate_def)

lemma setProjection_ok: "projection_ok st (page_setProjectionMatrix st v)"
  by (simp add: page_setProjectionMatrix_def Let_def projection_ok_def projection_of_def triggerFrustumUpdate_def)

lemma setProjection_fields [simp]:
  "near_plane_distance (page_setProjectionMatrix st v) = near_plane_distance v"
  "custom_clipping (page_setProjectionMatrix st v) = custom_clipping v"
  by (simp_all add: page_setProjectionMatrix_def Let_def triggerFrustumUpdate_def)

lemma projection_ok_clipping [simp]: "projection_ok st (v\<lparr>custom_clipping := b\<rparr>) = projection_ok st v"
  by (simp add: projection_ok_def projection_of_def)

lemma clipping_ok_setProjection [simp]: "clipping_ok (page_setProjectionMatrix st v) = clipping_ok v"
  by (simp add: clipping_ok_def)

lemma Math_max_one: "\<not> Math_max 1 x < 1"
  by (cases x) (auto simp: Math_max_def)

lemma closer_half: "\<not> x < 1 \<Longrightarrow> \<not> x + Fin 0.5 < (1 :: jsnum)"
  by (cases x) auto

lemma not_above_one: "\<not> x < 1 \<Longrightarrow> 1 < x \<or> x = 1 \<or> x = (NaN :: jsnum)"
  by (cases x) auto

section \<open>Every handler keeps the view consistent\<close>

lemma keeps_view: "part.keeps v r \<Longrightarrow> r = Some w \<Longrightarrow> view_ok st v \<Longrightarrow> view_ok st w"
  using view_ok_cong [of w v st] by simp

lemma scroll_ok:
  assumes "mouseScroll st d v = Some w" and "view_ok st v"
  shows "view_ok st w"
proof -
  obtain cam where cam: "v_cam v = Some cam" using assms(1) by (cases "v_cam v") (simp_all add: mouseScroll_def)
  define m where "m = d * Fin 0.01 * distance (stopProfile cam) / 10"
  define u where "u = (if custom_clipping v then page_setProjectionMatrix st (v\<lparr>v_cam := Some (stopProfile cam),
      near_plane_distance := Math_max 1 (near_plane_distance v - m / 2)\<rparr>) else v\<lparr>v_cam := Some (stopProfile cam)\<rparr>)"
  have move: "move_camera (goCloser m) u = Some w"
    using assms(1) unfolding mouseScroll_def cam u_def m_def
    by (cases "custom_clipping v") (simp_all add: Let_def)
  have "view_ok st u"
  proof (cases "custom_clipping v")
    case True
    then show ?thesis
      by (simp only: u_def if_True view_ok_def setProjection_ok clipping_ok_setProjection)
        (simp add: clipping_ok_def Math_max_one [simplified])
  next
    case False
    then show ?thesis using assms(2) view_ok_cong [of u v st] by (simp add: u_def)
  qed
  then show ?thesis using keeps_view [OF part.keeps_move move] by blast
qed

lemma key_ok:
  assumes "onKeyDown st href shift k v = Some w" and "view_ok st v"
  shows "view_ok st w"
proof -
  have near: "\<not> near_plane_distance v < 1" using assms(2) by (simp add: view_ok_def clipping_ok_def)
  consider (near) "k = 79" | (far) "k = 80" | (reset) "k = 73"
    | (other) "k \<noteq> 79" "k \<noteq> 80" "k \<noteq> 73" by blast
  then show ?thesis
  proof cases
    case near
    let ?v = "v\<lparr>near_plane_distance := Math_max 1 (near_plane_distance v - Fin 0.5)\<rparr>"
    have "w = (page_setProjectionMatrix st ?v)\<lparr>custom_clipping := near_plane_distance ?v > 1\<rparr>"
      using assms(1) near by (simp add: onKeyDown_def Let_def eq_commute)
    then show ?thesis
      using not_above_one [OF Math_max_one] Math_max_one
      by (simp only: view_ok_def projection_ok_clipping setProjection_ok) (simp add: clipping_ok_def)
  next
    case far
    let ?v = "v\<lparr>near_plane_distance := near_plane_distance v + Fin 0.5\<rparr>"
    have "w = (page_setProjectionMatrix st ?v)\<lparr>custom_clipping := near_plane_distance ?v > 1\<rparr>"
      using assms(1) far by (simp add: onKeyDown_def Let_def eq_commute)
    then show ?thesis
      using not_above_one [OF closer_half [OF near]] closer_half [OF near]
      by (simp only: view_ok_def projection_ok_clipping setProjection_ok) (simp add: clipping_ok_def)
  next
    case reset
    then have "w = page_setProjectionMatrix st (v\<lparr>custom_clipping := False, near_plane_distance := 1\<rparr>)"
      using assms(1) by (simp add: onKeyDown_def Let_def eq_commute)
    then show ?thesis
      by (simp only: view_ok_def setProjection_ok clipping_ok_setProjection) (simp add: clipping_ok_def)
  next
    case other
    then show ?thesis using assms keeps_view [OF part.keeps_key] by blast
  qed
qed

lemma resize_ok: "view_ok st v \<Longrightarrow> view_ok st (onWindowResize st w h v)"
  by (simp only: onWindowResize_def onCanvasResize_def view_ok_def setProjection_ok clipping_ok_setProjection)
    (simp add: clipping_ok_def)

lemma resize_any: "clipping_ok v \<Longrightarrow> view_ok st (onWindowResize st w h v)"
  by (simp only: onWindowResize_def onCanvasResize_def view_ok_def setProjection_ok clipping_ok_setProjection)
    (simp add: clipping_ok_def)

lemma event_ok:
  assumes "handle_event st href e v = Some w" and "view_ok st v"
  shows "view_ok st w"
proof -
  consider (key) shift k where "e = Key shift k" | (scroll) d where "handle_event st href e v = mouseScroll st d v"
    | (resize) x y where "e = Resize x y" | (cells) cs where "e = Cells_shown cs"
    | (count) x where "e = Count_slider x" | (quiet) "quiet e"
    by (cases e) (auto simp: onFFMouseWheel_def onMouseWheel_def)
  then show ?thesis
  proof cases
    case key
    then show ?thesis using assms key_ok by simp
  next
    case scroll
    then show ?thesis using assms scroll_ok by simp
  next
    case resize
    then show ?thesis using assms resize_ok by auto
  next
    case cells
    then have "w = v\<lparr>currentCells := Some cs\<rparr>" using assms(1) by simp
    then show ?thesis using assms(2) view_ok_cong [of w v st] by simp
  next
    case count
    then have "w = triggerFrustumUpdate (v\<lparr>desired_count := x\<rparr>)" using assms(1) by (simp add: onPointCountSliderMove_def)
    then show ?thesis using assms(2) view_ok_cong [of w v st] by simp
  next
    case quiet
    then show ?thesis using keeps_view [OF part.keeps_quiet assms] by blast
  qed
qed

lemma events_ok: "handle_events st href es v = Some w \<Longrightarrow> view_ok st v \<Longrightarrow> view_ok st w"
proof (induction es arbitrary: v)
  case (Cons e es)
  from Cons.prems(1) obtain u where "handle_event st href e v = Some u" "handle_events st href es u = Some w"
    by (auto simp: bind_eq_Some_conv)
  then show ?case using Cons.IH event_ok Cons.prems(2) by blast
qed simp

lemma start_settings_fields:
  "view_part (start_settings v) = view_part v" "near_plane_distance (start_settings v) = near_plane_distance v"
  "custom_clipping (start_settings v) = custom_clipping v"
  by (simp_all add: start_settings_def onPointCountSliderMove_def onPointSliderMove_def onSliderMove_def triggerFrustumUpdate_def
    view_part_def)

lemma start_ok: "view_ok st (onProgramLoaded st w h (start_page st query canvas))"
proof -
  have "near_plane_distance (start_page st query canvas) = 1"
    by (simp add: start_page_def camera_from_query_def start_camera_def triggerFrustumUpdate_def start_projection_def
      start_cloud_def start_settings_fields globals_def Let_def split: option.split)
  then have "clipping_ok ((start_page st query canvas)\<lparr>projectionMatrix := m\<rparr>)" for m
    by (simp add: clipping_ok_def)
  then show ?thesis
    unfolding onProgramLoaded_def Let_def by (metis view_ok_cong view_part_simps(1) resize_any)
qed



section \<open>Handlers that throw\<close>

lemma pick_needed:
  "v_cam v = Some cam \<Longrightarrow> which = 1 \<and> shift \<or> which = 3 \<Longrightarrow>
     pick st (v\<lparr>v_cam := Some (stopProfile cam), mousePosition := p\<rparr>) (stopProfile cam) p = None \<Longrightarrow>
     onMouseDown st which shift p v = None"
  by (auto simp: onMouseDown_def Let_def)

text \<open>C40. What the user can do to make a handler throw: after the key escape during the drag of a
  selection, every move of the mouse and its release throw, so the drag never ends; the number
  key of a tree that was removed throws; a right click or a shift click throws when no cells are
  shown yet; and the key \<open>n\<close> always throws, since \<open>walkN\<close> is not loaded.\<close>

theorem viewer_handlers_throw:
  assumes "mouseButtonDown d = 4"
    and "k < 9" "k < length (v_trees r)" "v_trees r ! k = None"
    and "v_cam c = Some cam" "currentCells c = None"
  shows "(\<exists>w. onKeyDown st href shift 27 d = Some w \<and> mouseButtonDown w = 4 \<and>
      onMouseMove st p w = None \<and> onMouseUp st p w = None) \<and>
    onKeyDown st href shift (49 + k) r = None \<and>
    onMouseDown st 3 shift p c = None \<and> onMouseDown st 1 True p c = None \<and>
    onKeyDown st href shift 78 v = None"
proof -
  have "onKeyDown st href shift 27 d = Some (clearSelection st d)" by (simp add: onKeyDown_def)
  moreover have "mouseButtonDown (clearSelection st d) = 4" "v_selection (clearSelection st d) = None"
    using assms(1) by (simp_all add: clearSelection_def)
  moreover have "onMouseMove st p w = None \<and> onMouseUp st p w = None"
    if "mouseButtonDown w = 4" "v_selection w = None" for w
    using that by (simp add: onMouseMove_def onMouseUp_def)
  moreover have "onKeyDown st href shift (49 + k) r = None"
    using assms(2-4) by (simp add: onKeyDown_def toggleTreeMode_def)
  moreover have "pick st (c\<lparr>v_cam := Some (stopProfile cam), mousePosition := p\<rparr>) (stopProfile cam) p = None"
    using assms(6) by (cases "mouse_ray st (c\<lparr>v_cam := Some (stopProfile cam), mousePosition := p\<rparr>) (stopProfile cam) p")
      (simp_all add: pick_def)
  moreover have "onKeyDown st href shift 78 v = None" by (simp add: onKeyDown_def)
  ultimately show ?thesis using pick_needed [OF assms(5)] by blast
qed

lemma viewer_handlers_throw_witness:
  "onKeyDown f64 '''' False 50 (new_viewer\<lparr>v_trees := [Some (TreeInfo f64 ''a'' (metadata_defaults f64) []), None]\<rparr>) = None"
  using viewer_handlers_throw [of "new_viewer\<lparr>mouseButtonDown := 4\<rparr>" 1
      "new_viewer\<lparr>v_trees := [Some (TreeInfo f64 ''a'' (metadata_defaults f64) []), None]\<rparr>"
      "new_viewer\<lparr>v_cam := Some demo_camera\<rparr>" demo_camera f64 "''''" False]
  by simp

text \<open>A slider that moves while the timer is set does not change the resolution of the query that
  the timer starts: the resolution was computed when the timer was set.\<close>

lemma trigger_keeps_resolution:
  "existing_frustum_trigger v = Some gm \<Longrightarrow> existing_frustum_trigger (onSliderMove x v) = Some gm"
  by (simp add: onSliderMove_def triggerFrustumUpdate_def)

end
