(* ===== verification/CameraView.thy ===== *)
theory CameraView
  imports CameraMotion Picking
begin

text \<open>
  The view of the camera (\<open>getMatrix\<close> of \<open>js/orbitcam.js\<close>), in exact arithmetic: for every pose with a positive distance the view
  matrix is the rigid motion whose rows are the vectors to the right, up and against the direction of the view. It keeps the horizon
  level, and puts the origin of the camera in the middle of the image, at the distance of the camera.
  \<open>camera_view\<close> states this, and \<open>picked_pixel\<close> is the property of the picking ray (theory Picking) for the matrix of the camera.
\<close>

section \<open>The axes of the camera\<close>

definition forward3 :: "real \<Rightarrow> real \<Rightarrow> real \<times> real \<times> real" where
  "forward3 p y = (cos y * cos p, sin y * cos p, sin p)"

definition right3 :: "real \<Rightarrow> real \<times> real \<times> real" where
  "right3 y = (sin y, - cos y, 0)"

definition up3 :: "real \<Rightarrow> real \<Rightarrow> real \<times> real \<times> real" where
  "up3 p y = (cos y * sin (- p), sin y * sin (- p), cos p)"

lemma squares: "cos y * cos y + sin y * sin y = (1 :: real)" "sin y * sin y = 1 - cos y * cos (y :: real)"
  using sin_cos_squared_add2 [of y] by (simp_all add: power2_eq_square algebra_simps)

lemma camera_axes:
  "dot3 (forward3 p y) (forward3 p y) = 1" "dot3 (up3 p y) (up3 p y) = 1" "dot3 (right3 y) (right3 y) = 1"
  "dot3 (right3 y) (forward3 p y) = 0" "dot3 (right3 y) (up3 p y) = 0" "dot3 (up3 p y) (forward3 p y) = 0"
  "cross3 (up3 p y) (scale3 (- 1) (forward3 p y)) = right3 y" "cross3 (scale3 (- 1) (forward3 p y)) (right3 y) = up3 p y"
  by (simp_all add: forward3_def up3_def right3_def dot3_def cross3_def scale3_def algebra_simps)
    (use squares [of y] squares [of p] in \<open>algebra\<close>)+

section \<open>The view matrix\<close>

lemma finite_position:
  assumes "finite_camera cam o3 d p y"
  shows "getPosition f64 cam = vec3 (add3 o3 (scale3 (- d) (forward3 p y)))"
    and "getUp f64 cam = vec3 (up3 p y)" and "origin cam = vec3 o3"
  using assms
  by (cases o3; simp add: finite_camera_def getPosition_def getForward_def getUp_def forward3_def up3_def vec3_def add3_def scale3_def V3_defs real3_def)+

lemma unit3_scale:
  assumes "dot3 u u = 1" and "0 < d"
  shows "unit3 (scale3 (- d) u) = scale3 (- 1) u"
proof -
  have "dot3 (scale3 (- d) u) (scale3 (- d) u) = d * d"
    using assms(1) by simp
  then have "sqrt (dot3 (scale3 (- d) u) (scale3 (- d) u)) = d"
    using assms(2) by simp
  then show ?thesis
    using assms(2) by (cases u) (simp add: unit3_def scale3_def)
qed

lemma unit3_unit: "dot3 u u = 1 \<Longrightarrow> unit3 u = u"
  by (cases u) (simp add: unit3_def scale3_def)

definition eye3 :: "real \<times> real \<times> real \<Rightarrow> real \<Rightarrow> real \<Rightarrow> real \<Rightarrow> real \<times> real \<times> real" where
  "eye3 o3 d p y = add3 o3 (scale3 (- d) (forward3 p y))"

lemma eye3_origin: "sub3 (eye3 o3 d p y) o3 = scale3 (- d) (forward3 p y)"
  by (cases o3; cases "forward3 p y") (simp add: eye3_def add3_def sub3_def scale3_def)

lemma camera_matrix:
  assumes "finite_camera cam o3 d p y" and "0 < d"
  shows "getMatrix f64 cam = mat (frame_mat (right3 y) (up3 p y) (scale3 (- 1) (forward3 p y)) (eye3 o3 d p y))"
proof -
  have z: "unit3 (sub3 (eye3 o3 d p y) o3) = scale3 (- 1) (forward3 p y)"
    unfolding eye3_origin by (rule unit3_scale [OF camera_axes(1) assms(2)])
  have 1: "dot3 (sub3 (eye3 o3 d p y) o3) (sub3 (eye3 o3 d p y) o3) \<noteq> 0"
    unfolding eye3_origin using camera_axes(1) [of p y] assms(2) by simp
  have "cross3 (up3 p y) (scale3 d (scale3 (- 1) (forward3 p y))) = scale3 d (right3 y)"
    by (simp only: cross3_scale [of _ d] camera_axes(7))
  then have c: "cross3 (up3 p y) (sub3 (eye3 o3 d p y) o3) = scale3 d (right3 y)"
    by (simp add: eye3_origin)
  have 2: "dot3 (cross3 (up3 p y) (sub3 (eye3 o3 d p y) o3)) (cross3 (up3 p y) (sub3 (eye3 o3 d p y) o3)) \<noteq> 0"
    unfolding c using camera_axes(3) [of y] assms(2) by simp
  show ?thesis
    unfolding getMatrix_def finite_position [OF assms(1)] eye3_def [symmetric] makeLookAt_frame(1) [OF 1 2] z
      camera_axes(7) unit3_unit [OF camera_axes(3)] camera_axes(8) ..
qed

lemma camera_frame:
  assumes "finite_camera cam o3 d p y" and "0 < d"
  shows "\<exists>m. getMatrix f64 cam = mat m \<and> rigid m \<and> det4 m = 1"
    and "M4x4_topLeft3x3 f64 (getMatrix f64 cam) = frame_matrix (right3 y) (up3 p y) (scale3 (- 1) (forward3 p y))"
    and "orthonormal (right3 y) (up3 p y) (scale3 (- 1) (forward3 p y))"
proof -
  let ?r = "right3 y" and ?u = "up3 p y" and ?f = "forward3 p y"
  note M = camera_matrix [OF assms]
  have "rigid (frame_mat ?r ?u (scale3 (- 1) ?f) (eye3 o3 d p y))"
    using affine_frame_mat [of ?r ?u "scale3 (- 1) ?f" "eye3 o3 d p y"]
    by (simp add: rigid_def frame_mat_def right3_def up3_def forward3_def scale3_def Let_def triple_simps)
      (intro conjI; use squares [of y] squares [of p] in algebra)
  moreover have "det4 (frame_mat ?r ?u (scale3 (- 1) ?f) (eye3 o3 d p y)) = 1"
    by (simp add: det4_def det3_def frame_mat_def right3_def up3_def forward3_def scale3_def)
      (use squares [of y] squares [of p] in algebra)
  ultimately show "\<exists>m. getMatrix f64 cam = mat m \<and> rigid m \<and> det4 m = 1"
    using M by blast
  show "M4x4_topLeft3x3 f64 (getMatrix f64 cam) = frame_matrix ?r ?u (scale3 (- 1) ?f)"
    unfolding M by (simp add: frame_mat_def M4x4_topLeft3x3_def mat_def frame_matrix_def right3_def up3_def forward3_def scale3_def)
  show "orthonormal ?r ?u (scale3 (- 1) ?f)"
    using camera_axes(1,2,4-6) [where p = p and y = y] camera_axes(3) [of y]
    by (simp add: orthonormal_def right3_def up3_def forward3_def scale3_def dot3_def)
qed

text \<open>A camera ten metres from the origin, half a radian above it.\<close>

definition demo_pose :: camera where
  "demo_pose = OrbitCam_new f64 \<lparr>cf_origin = None, cf_distance = Fin 10, cf_pitch = Fin (- 1 / 2), cf_yaw = Fin 1,
     cf_closest = Fin 1, cf_farthest = Fin 100\<rparr>"

lemma demo_pose: "finite_camera demo_pose (0, 0, 0) 10 (- 1 / 2) 1" "(0 :: real) < 10"
  by (simp_all add: demo_pose_def finite_camera_def OrbitCam_new_def or_default_def V3_new_def real3_def Let_def)

section \<open>Properties\<close>

text \<open>C25. The view of the camera (exact arithmetic): for every finite pose with a positive distance the view matrix is a
  rigid motion (of determinant one) that takes a point to its coordinates along the vectors to the right, up, and against the direction
  of the view, which are orthonormal and of which the first is horizontal; the origin of the camera is straight ahead at
  the distance of the camera.\<close>

theorem camera_view:
  assumes "finite_camera cam o3 d p y" and "0 < d"
  shows "M4x4_transformPoint f64 (getMatrix f64 cam) (vec3 q) =
      vec3 (dot3 (right3 y) (sub3 q o3), dot3 (up3 p y) (sub3 q o3), - dot3 (forward3 p y) (sub3 q o3) - d) \<and>
    (\<exists>m. getMatrix f64 cam = mat m \<and> rigid m \<and> det4 m = 1) \<and>
    M4x4_topLeft3x3 f64 (getMatrix f64 cam) = frame_matrix (right3 y) (up3 p y) (scale3 (- 1) (forward3 p y)) \<and>
    orthonormal (right3 y) (up3 p y) (scale3 (- 1) (forward3 p y)) \<and> snd (snd (right3 y)) = 0"
proof -
  let ?r = "right3 y" and ?u = "up3 p y" and ?f = "forward3 p y"
  have o: "dot3 v (sub3 q (eye3 o3 d p y)) = dot3 v (sub3 q o3) + d * dot3 v ?f" for v
    by (cases v; cases q; cases o3; cases ?f)
      (simp add: eye3_def add3_def sub3_def scale3_def dot3_def algebra_simps)
  have "M4x4_transformPoint f64 (getMatrix f64 cam) (vec3 q) =
      vec3 (dot3 ?r (sub3 q o3), dot3 ?u (sub3 q o3), - dot3 ?f (sub3 q o3) - d)"
    unfolding camera_matrix [OF assms] frame_transform by (simp add: o camera_axes)
  with camera_frame [OF assms] show ?thesis
    by (simp add: right3_def)
qed

lemma camera_view_witness:
  "M4x4_transformPoint f64 (getMatrix f64 demo_pose) (vec3 (0, 0, 0)) = vec3 (0, 0, - 10)"
  using camera_view [OF demo_pose, of "(0, 0, 0)"] by (simp add: triple_simps forward3_def right3_def up3_def)

text \<open>C24. The picking ray goes through the pixel (exact arithmetic): for a perspective projection and any finite pose of
  the camera with a positive distance, \<open>computePickRay\<close> returns a unit vector on the side the camera looks to,
  and every point of the world in that direction from the position of the camera is drawn exactly where the mouse is.\<close>

theorem picked_pixel:
  assumes "0 < zn" "zn < zf" "0 < aspect" "0 < tan (fovy * pi / 360)"
    and "finite_camera cam o3 d p y" "0 < d" and "w \<noteq> 0" "h \<noteq> 0" and "0 < s"
  shows "\<exists>u z.
    computePickRay f64 (M4x4_makePerspective f64 (Fin fovy) (Fin aspect) (Fin zn) (Fin zf)) (getMatrix f64 cam)
        (Fin w) (Fin h) (Fin mx) (Fin my) = Some \<lparr>pick_point = vec3 (0, 0, 0), pick_dir = vec3 u\<rparr> \<and>
    dot3 u u = 1 \<and> 0 < dot3 (forward3 p y) u \<and> getPosition f64 cam = vec3 (eye3 o3 d p y) \<and>
    V3_mul4x4 f64 (M4x4_makePerspective f64 (Fin fovy) (Fin aspect) (Fin zn) (Fin zf))
        (M4x4_transformPoint f64 (getMatrix f64 cam) (vec3 (add3 (eye3 o3 d p y) (scale3 s u)))) =
      vec3 (mx / w * 2 - 1, 1 - my / h * 2, z)"
proof -
  let ?P = "M4x4_makePerspective f64 (Fin fovy) (Fin aspect) (Fin zn) (Fin zf)"
  let ?m = "frame_mat (right3 y) (up3 p y) (scale3 (- 1) (forward3 p y)) (eye3 o3 d p y)"
  note M = camera_matrix [OF assms(5,6)]
  have "length ?m = 16" and T: "M4x4_topLeft3x3 f64 (mat ?m) = frame_matrix (right3 y) (up3 p y) (scale3 (- 1) (forward3 p y))"
    and "orthonormal (right3 y) (up3 p y) (scale3 (- 1) (forward3 p y))"
    using affine_frame_mat camera_frame [OF assms(5,6)] by (auto simp: affine_def M [symmetric])
  from pick_ray_hits_pixel [OF assms(1-4) this assms(7-9)] obtain u z where u:
    "computePickRay f64 ?P (mat ?m) (Fin w) (Fin h) (Fin mx) (Fin my) = Some \<lparr>pick_point = vec3 (0, 0, 0), pick_dir = vec3 u\<rparr>"
    "dot3 u u = 1" "dot3 (scale3 (- 1) (forward3 p y)) u < 0"
    "V3_mul4x4 f64 ?P (V3_mul3x3 f64 (M4x4_topLeft3x3 f64 (mat ?m)) (vec3 (scale3 s u))) =
      vec3 (mx / w * 2 - 1, 1 - my / h * 2, z)"
    by blast
  have "sub3 (add3 (eye3 o3 d p y) (scale3 s u)) (eye3 o3 d p y) = scale3 s u"
    by (cases "eye3 o3 d p y"; cases u) (simp add: add3_def sub3_def scale3_def)
  then have "M4x4_transformPoint f64 (mat ?m) (vec3 (add3 (eye3 o3 d p y) (scale3 s u))) =
      V3_mul3x3 f64 (M4x4_topLeft3x3 f64 (mat ?m)) (vec3 (scale3 s u))"
    unfolding frame_transform T mul3x3_frame by simp
  moreover have "getPosition f64 cam = vec3 (eye3 o3 d p y)"
    using finite_position(1) [OF assms(5)] by (simp add: eye3_def)
  ultimately show ?thesis
    using u unfolding M by (intro exI [of _ u] exI [of _ z]) simp
qed

text \<open>A click in an image of 800 by 400 pixels.\<close>

lemma picked_pixel_witness:
  "\<exists>u z. computePickRay f64 (M4x4_makePerspective f64 (Fin 90) (Fin 2) (Fin 1) (Fin 100)) (getMatrix f64 demo_pose)
      (Fin 800) (Fin 400) (Fin 600) (Fin 100) = Some \<lparr>pick_point = vec3 (0, 0, 0), pick_dir = vec3 u\<rparr> \<and>
    V3_mul4x4 f64 (M4x4_makePerspective f64 (Fin 90) (Fin 2) (Fin 1) (Fin 100))
      (M4x4_transformPoint f64 (getMatrix f64 demo_pose) (vec3 (add3 (eye3 (0, 0, 0) 10 (- 1 / 2) 1) (scale3 7 u)))) =
      vec3 (600 / 800 * 2 - 1, 1 - 100 / 400 * 2, z)"
proof -
  have "(0 :: real) < 1" "(1 :: real) < 100" "(0 :: real) < 2" "0 < tan (90 * pi / 360)"
    by (simp_all add: tan_45)
  from picked_pixel [OF this demo_pose, of 800 400 7 600 100] show ?thesis
    by simp blast
qed

end
