(* ===== verification/Drawing.thy ===== *)
theory Drawing
  imports Viewer Loading CameraView
begin

text \<open>
  Drawing a frame (\<open>renderLoop\<close> of \<open>js/index.js\<close>, with the \<open>loadGL\<close> and \<open>render\<close> methods of the measurements and of the
  point cloud). The screen holds the buffers of WebGL, those with bytes of cells in the record \<open>gl\<close> of theory CellModel
  and those with numbers apart, and the calls that were made. WebGL itself is taken to work: \<open>getError\<close> returns no
  error. The texture with the text of a measurement is left out, and a frame that throws is \<open>None\<close>.

  \<open>frame_uploads_once\<close> says what a frame draws, and that it uploads every cell and measurement once.
  \<open>labels_face_camera\<close> is about the texts of the measurements.
\<close>

section \<open>The screen\<close>

datatype shader = Curr_program | Line_shader | Textured_shader | Old_program

datatype gl_call =
    Use_program shader
  | Clear_color farray
  | Clear_buffers bool
  | Uniform shader string farray
  | Attribute shader string "nat option" nat nat nat
  | Draw_arrays string nat nat
  | Draw_cell draw
  | Draw_cloud shader farray farray nat

record screen =
  s_gl :: gl
  s_arrays :: "nat \<rightharpoonup> farray"
  s_calls :: "gl_call list"

definition emit :: "gl_call list \<Rightarrow> screen \<Rightarrow> screen" where
  "emit cs s = s\<lparr>s_calls := s_calls s @ cs\<rparr>"

text \<open>\<open>createBuffer\<close>, \<open>bindBuffer\<close> and \<open>bufferData\<close> for an array of numbers.\<close>

definition upload :: "farray \<Rightarrow> screen \<Rightarrow> nat \<times> screen" where
  "upload a s =
     (let b = next_buffer (s_gl s)
      in (b, s\<lparr>s_gl := (s_gl s)\<lparr>next_buffer := b + 1, bound := Some b\<rparr>, s_arrays := (s_arrays s)(b \<mapsto> a)\<rparr>))"

definition bind_buffer :: "nat option \<Rightarrow> screen \<Rightarrow> screen" where
  "bind_buffer b s = s\<lparr>s_gl := (s_gl s)\<lparr>bound := b\<rparr>\<rparr>"

section \<open>Measurements and clouds\<close>

definition measurement_loadGL :: "measurement \<Rightarrow> screen \<Rightarrow> measurement \<times> screen" where
  "measurement_loadGL m s =
     (let (b, s) = upload (measurement_vertices m) s in (m\<lparr>ms_vbo := Some b\<rparr>, s))"

definition measurement_render :: "shader \<Rightarrow> measurement \<Rightarrow> screen \<Rightarrow> screen option" where
  "measurement_render program m s =
     (if ms_vbo m = None then None
      else Some (emit
        [Attribute program ''vertex'' (ms_vbo m) 3 (6 * 4) 0,
         Attribute program ''color'' (ms_vbo m) 3 (6 * 4) (3 * 4),
         Draw_arrays ''LINES'' 0 2] (bind_buffer (ms_vbo m) s)))"

definition measurement_renderText :: "shader \<Rightarrow> measurement \<Rightarrow> screen \<Rightarrow> screen option" where
  "measurement_renderText program m s =
     (let quadOffset = 12 * 4
      in if ms_vbo m = None then None
         else Some (emit
           [Attribute program ''vertex'' (ms_vbo m) 3 (5 * 4) quadOffset,
            Attribute program ''textureCoord'' (ms_vbo m) 2 (5 * 4) (quadOffset + 3 * 4),
            Uniform program ''sampler'' [0],
            Draw_arrays ''TRIANGLE_STRIP'' 0 4] (bind_buffer (ms_vbo m) s)))"

text \<open>A cloud without buffers has no context, and the code reads a method of \<open>null\<close>.\<close>

definition cloud_render :: "shader \<Rightarrow> point_cloud \<Rightarrow> screen \<Rightarrow> screen option" where
  "cloud_render program c s =
     (case (vertex_buffer c, color_buffer c) of
        (Some v, Some k) \<Rightarrow> Some (emit [Draw_cloud program v k (vertex_items c)] s)
      | _ \<Rightarrow> None)"

section \<open>The frame\<close>

definition makeBillboardSpher :: "(jsnum \<Rightarrow> jsnum) \<Rightarrow> farray \<Rightarrow> farray option" where
  "makeBillboardSpher st T_cam_world =
     map_option (\<lambda>r. r[12 := 0, 13 := 0, 14 := 0]) (M4x4_inverse st T_cam_world)"

definition meters_to_pixels :: "viewer \<Rightarrow> jsnum" where
  "meters_to_pixels v = canvas_height v / (2 * Math_tan ((fov / 2) * Math_PI / 180))"

definition draw_cell :: "(jsnum \<Rightarrow> jsnum) \<Rightarrow> farray \<Rightarrow> cell \<Rightarrow> screen \<Rightarrow> (cell \<times> screen) option" where
  "draw_cell st cam_position c s =
     (let s = emit [Uniform Curr_program ''pointSize'' [20]] s;
          (g, c) = (if vbo c = None then Cell_loadGL (s_gl s) c else (s_gl s, c))
      in map_option (\<lambda>(d, g). (c, emit [Draw_cell d] (s\<lparr>s_gl := g\<rparr>))) (Cell_render st cam_position g c))"

fun draw_cells :: "(jsnum \<Rightarrow> jsnum) \<Rightarrow> farray \<Rightarrow> cell list \<Rightarrow> screen \<Rightarrow> (cell list \<times> screen) option" where
  "draw_cells st p [] s = Some ([], s)"
| "draw_cells st p (c # cs) s =
     Option.bind (draw_cell st p c s) (\<lambda>(c, s). map_option (\<lambda>(cs, s). (c # cs, s)) (draw_cells st p cs s))"

definition draw_line :: "measurement \<Rightarrow> screen \<Rightarrow> (measurement \<times> screen) option" where
  "draw_line m s =
     (let (m, s) = (if ms_vbo m = None then measurement_loadGL m s else (m, s))
      in map_option (\<lambda>s. (m, s)) (measurement_render Line_shader m s))"

fun draw_lines :: "measurement list \<Rightarrow> screen \<Rightarrow> (measurement list \<times> screen) option" where
  "draw_lines [] s = Some ([], s)"
| "draw_lines (m # ms) s =
     Option.bind (draw_line m s) (\<lambda>(m, s). map_option (\<lambda>(ms, s). (m # ms, s)) (draw_lines ms s))"

definition billboard :: "(jsnum \<Rightarrow> jsnum) \<Rightarrow> farray \<Rightarrow> farray \<Rightarrow> farray \<Rightarrow> farray" where
  "billboard st T_cam_world r mid =
     M4x4_mul st T_cam_world (M4x4_mul st (M4x4_makeTranslate st mid) r)"

fun draw_texts :: "(jsnum \<Rightarrow> jsnum) \<Rightarrow> farray \<Rightarrow> farray \<Rightarrow> measurement list \<Rightarrow> screen \<Rightarrow> screen option" where
  "draw_texts st T r [] s = Some s"
| "draw_texts st T r (m # ms) s =
     Option.bind
       (measurement_renderText Textured_shader m
          (emit [Uniform Textured_shader ''T_camera_world'' (billboard st T r (ms_mid m))] s))
       (draw_texts st T r ms)"

definition draw_shown_cells :: "(jsnum \<Rightarrow> jsnum) \<Rightarrow> camera \<Rightarrow> viewer \<Rightarrow> screen \<Rightarrow> (viewer \<times> screen) option" where
  "draw_shown_cells st cam v s =
     (case currentCells v of
        None \<Rightarrow> Some (v, s)
      | Some cs \<Rightarrow>
          (let s = emit [Use_program Curr_program,
                 Uniform Curr_program ''R_camera_world'' (M4x4_topLeft3x3 st (getMatrix st cam))] s;
               s = (case v_selection v of None \<Rightarrow> s
                    | Some sel \<Rightarrow> emit [Uniform Curr_program ''p_selection_camera''
                         (V3_sub st (getPosition st cam) (p_world_selection sel))] s)
           in map_option (\<lambda>(cs, s). (v\<lparr>currentCells := Some cs\<rparr>, s)) (draw_cells st (getPosition st cam) cs s)))"

definition draw_measurements :: "(jsnum \<Rightarrow> jsnum) \<Rightarrow> camera \<Rightarrow> viewer \<Rightarrow> screen \<Rightarrow> (viewer \<times> screen) option" where
  "draw_measurements st cam v s =
     (let s = emit [Use_program Line_shader, Uniform Line_shader ''T_camera_world'' (getMatrix st cam),
                Uniform Line_shader ''lift'' [-10]] s
      in Option.bind (draw_lines (allMeasurements v) s) (\<lambda>(ms, s).
         let s = emit [Use_program Textured_shader, Uniform Textured_shader ''lift'' [-1]] s
         in Option.bind (makeBillboardSpher st (getMatrix st cam)) (\<lambda>r.
            map_option (\<lambda>s. (v\<lparr>allMeasurements := ms\<rparr>, s)) (draw_texts st (getMatrix st cam) r ms s))))"

definition draw_selection :: "(jsnum \<Rightarrow> jsnum) \<Rightarrow> camera \<Rightarrow> viewer \<Rightarrow> screen \<Rightarrow> screen option" where
  "draw_selection st cam v s =
     map_option (emit [Use_program Curr_program])
       (cloud_render Old_program (selection_cloud v)
         (emit [Clear_buffers False, Use_program Old_program,
            Uniform Old_program ''modelViewMatrixUniform'' (getMatrix st cam),
            Uniform Old_program ''meters_to_pixels'' [meters_to_pixels v]] s))"

definition renderLoop :: "(jsnum \<Rightarrow> jsnum) \<Rightarrow> viewer \<Rightarrow> screen \<Rightarrow> (viewer \<times> screen) option" where
  "renderLoop st v s =
     (case v_cam v of
        None \<Rightarrow> Some (v, s)
      | Some cam \<Rightarrow>
          (let s = emit [Clear_color [0, Fin 0.5, 1, 1], Clear_buffers True, Use_program Curr_program,
                 Uniform Curr_program ''m'' [box_size_meters v],
                 Uniform Curr_program ''point_size_multiplier'' [point_size_multiplier v],
                 Uniform Curr_program ''meters_to_pixels'' [meters_to_pixels v]] s
           in Option.bind (draw_shown_cells st cam v s) (\<lambda>(v, s).
              Option.bind (draw_measurements st cam v s) (\<lambda>(v, s).
              map_option (\<lambda>s. (v, s)) (draw_selection st cam v s)))))"

section \<open>Buffers stay as they are\<close>

text \<open>Nothing deletes or overwrites a buffer: a later screen has the earlier buffers, and maybe more.\<close>

definition screen_extends :: "screen \<Rightarrow> screen \<Rightarrow> bool" where
  "screen_extends s s' \<longleftrightarrow>
     next_buffer (s_gl s) \<le> next_buffer (s_gl s') \<and>
     (\<forall>b < next_buffer (s_gl s). contents (s_gl s') b = contents (s_gl s) b \<and> s_arrays s' b = s_arrays s b)"

lemma screen_extends_refl [simp]: "screen_extends s s"
  by (simp add: screen_extends_def)

lemma screen_extends_trans: "screen_extends s t \<Longrightarrow> screen_extends t u \<Longrightarrow> screen_extends s u"
  by (auto simp: screen_extends_def)

text \<open>A cell, or a measurement, is ready if its buffer, when it has one, holds its data.\<close>

definition cell_ready :: "screen \<Rightarrow> cell \<Rightarrow> bool" where
  "cell_ready s c \<longleftrightarrow>
     (\<forall>b. vbo c = Some b \<longrightarrow> b < next_buffer (s_gl s) \<and> contents (s_gl s) b = Some (data c))"

definition measurement_ready :: "screen \<Rightarrow> measurement \<Rightarrow> bool" where
  "measurement_ready s m \<longleftrightarrow>
     (\<forall>b. ms_vbo m = Some b \<longrightarrow> b < next_buffer (s_gl s) \<and> s_arrays s b = Some (measurement_vertices m))"

lemma measurement_vertices_vbo [simp]: "measurement_vertices (m\<lparr>ms_vbo := b\<rparr>) = measurement_vertices m"
  by (simp add: measurement_vertices_def)

lemma ready_later:
  assumes "screen_extends s s'"
  shows "cell_ready s c \<Longrightarrow> cell_ready s' c" and "measurement_ready s m \<Longrightarrow> measurement_ready s' m"
  using assms by (auto simp: screen_extends_def cell_ready_def measurement_ready_def)

lemma emit_simps [simp]:
  "s_gl (emit cs s) = s_gl s" "s_arrays (emit cs s) = s_arrays s" "s_calls (emit cs s) = s_calls s @ cs"
  "screen_extends s (emit cs s') = screen_extends s s'" "screen_extends (emit cs s) s' = screen_extends s s'"
  "cell_ready (emit cs s) c = cell_ready s c" "measurement_ready (emit cs s) m = measurement_ready s m"
  by (simp_all add: emit_def screen_extends_def cell_ready_def measurement_ready_def)

section \<open>What was drawn\<close>

text \<open>The cells that some calls draw, with the bytes in their buffers, and the arrays of the lines.\<close>

fun cell_draws :: "gl_call list \<Rightarrow> draw list" where
  "cell_draws [] = []"
| "cell_draws (Draw_cell d # cs) = d # cell_draws cs"
| "cell_draws (_ # cs) = cell_draws cs"

fun line_buffers :: "gl_call list \<Rightarrow> nat option list" where
  "line_buffers [] = []"
| "line_buffers (Attribute Line_shader n b _ _ _ # cs) = (if n = ''vertex'' then b # line_buffers cs else line_buffers cs)"
| "line_buffers (_ # cs) = line_buffers cs"

lemma cell_draws_append [simp]: "cell_draws (cs @ ds) = cell_draws cs @ cell_draws ds"
  by (induction cs rule: cell_draws.induct) simp_all

lemma line_buffers_append [simp]: "line_buffers (cs @ ds) = line_buffers cs @ line_buffers ds"
  by (induction cs rule: line_buffers.induct) simp_all

text \<open>\<open>made s s' ds bs\<close>: between the screens the calls drew the cells \<open>ds\<close> and the lines in the buffers \<open>bs\<close>.\<close>

definition made :: "screen \<Rightarrow> screen \<Rightarrow> draw list \<Rightarrow> nat option list \<Rightarrow> bool" where
  "made s s' ds bs \<longleftrightarrow> (\<exists>calls. s_calls s' = s_calls s @ calls \<and> cell_draws calls = ds \<and> line_buffers calls = bs)"

lemma made_trans: "made s t ds bs \<Longrightarrow> made t u ds' bs' \<Longrightarrow> made s u (ds @ ds') (bs @ bs')"
  by (auto simp: made_def)

lemma made_refl [simp]: "made s s [] []"
  by (simp add: made_def)

definition picture :: "screen \<Rightarrow> draw \<Rightarrow> byte list option \<times> jsnum \<times> bool list" where
  "picture s d = (Option.bind (d_buffer d) (contents (s_gl s)), d_count d, u_show_children d)"

definition picture_of :: "cell \<Rightarrow> byte list option \<times> jsnum \<times> bool list" where
  "picture_of c = (Some (data c), Cell_numPoints c, map (bit (show_children c)) [0..<8])"

definition line_array :: "screen \<Rightarrow> nat option \<Rightarrow> farray option" where
  "line_array s b = Option.bind b (s_arrays s)"

text \<open>A cell after the frame is the cell before it, with a buffer.\<close>

definition loaded_cell :: "screen \<Rightarrow> cell \<Rightarrow> cell \<Rightarrow> bool" where
  "loaded_cell s c c' \<longleftrightarrow> cell_ready s c' \<and> (\<exists>b. c' = c\<lparr>vbo := Some b\<rparr>) \<and> (vbo c \<noteq> None \<longrightarrow> c' = c)"

definition loaded_measurement :: "screen \<Rightarrow> measurement \<Rightarrow> measurement \<Rightarrow> bool" where
  "loaded_measurement s m m' \<longleftrightarrow> measurement_ready s m' \<and> (\<exists>b. m' = m\<lparr>ms_vbo := Some b\<rparr>) \<and> (ms_vbo m \<noteq> None \<longrightarrow> m' = m)"

text \<open>A draw that shows a cell: from its bytes, in a buffer that stays.\<close>

definition shows_cell :: "screen \<Rightarrow> cell \<Rightarrow> draw \<Rightarrow> bool" where
  "shows_cell s c d \<longleftrightarrow> (\<exists>b. d_buffer d = Some b \<and> b < next_buffer (s_gl s)) \<and> picture s d = picture_of c"

definition draws_cells :: "cell list \<Rightarrow> screen \<Rightarrow> cell list \<Rightarrow> screen \<Rightarrow> bool" where
  "draws_cells cs s cs' s' \<longleftrightarrow>
     screen_extends s s' \<and> list_all2 (loaded_cell s') cs cs' \<and>
     next_buffer (s_gl s') = next_buffer (s_gl s) + length (filter (\<lambda>c. vbo c = None) cs) \<and>
     (\<exists>ds. made s s' ds [] \<and> list_all2 (shows_cell s') cs ds)"

lemma show_flags: "map (\<lambda>i. show_children c AND bit_mask i \<noteq> 0) [0..<8] = map (bit (show_children c)) [0..<8]"
  by (rule map_cong) (simp_all add: mask_and_zero_iff)

lemma draw_cell_draws:
  assumes "cell_ready s c"
  shows "\<exists>c' s'. draw_cell st p c s = Some (c', s') \<and> draws_cells [c] s [c'] s'"
proof (cases "vbo c")
  case None
  then show ?thesis
    by (simp add: draw_cell_def Let_def Cell_loadGL_def Cell_render_def draws_cells_def screen_extends_def
      loaded_cell_def cell_ready_def picture_def picture_of_def made_def shows_cell_def show_flags Cell_numPoints_def) blast
next
  case (Some b)
  have self: "\<exists>b. c = c\<lparr>vbo := Some b\<rparr>"
    by (rule exI [of _ b]) (use Some in \<open>cases c, simp\<close>)
  from Some assms show ?thesis
    by (auto intro: self simp: draw_cell_def Let_def Cell_render_def draws_cells_def screen_extends_def
      loaded_cell_def cell_ready_def picture_def picture_of_def made_def shows_cell_def show_flags Cell_numPoints_def)
qed

lemma picture_later:
  assumes "screen_extends s s'" and "d_buffer d = Some b" and "b < next_buffer (s_gl s)"
  shows "picture s' d = picture s d"
  using assms by (simp add: screen_extends_def picture_def)

lemma loaded_later: "screen_extends s s' \<Longrightarrow> loaded_cell s c c' \<Longrightarrow> loaded_cell s' c c'"
  "screen_extends s s' \<Longrightarrow> loaded_measurement s m m' \<Longrightarrow> loaded_measurement s' m m'"
  using ready_later by (auto simp: loaded_cell_def loaded_measurement_def)

lemma shows_later: "screen_extends s s' \<Longrightarrow> shows_cell s c d \<Longrightarrow> shows_cell s' c d"
  unfolding shows_cell_def using picture_later by (fastforce simp: screen_extends_def)

lemma draws_cells_append:
  assumes "draws_cells xs s xs' s'" and "draws_cells ys s' ys' s''"
  shows "draws_cells (xs @ ys) s (xs' @ ys') s''"
proof -
  have e: "screen_extends s s'" "screen_extends s' s''"
    using assms by (simp_all add: draws_cells_def)
  obtain ds ds' where d: "made s s' ds []" "list_all2 (shows_cell s') xs ds" "made s' s'' ds' []" "list_all2 (shows_cell s'') ys ds'"
    using assms unfolding draws_cells_def by blast
  have "list_all2 (shows_cell s'') xs ds" "list_all2 (loaded_cell s'') xs xs'"
    using d(2) assms(1) loaded_later(1) [OF e(2)] shows_later [OF e(2)]
    by (auto simp: draws_cells_def intro: list_all2_mono)
  then show ?thesis
    using assms d(4) screen_extends_trans [OF e] made_trans [OF d(1,3)]
    by (auto simp: draws_cells_def intro: list_all2_appendI)
qed

lemma draw_cells_draws:
  assumes "\<forall>c \<in> set cs. cell_ready s c"
  shows "\<exists>cs' s'. draw_cells st p cs s = Some (cs', s') \<and> draws_cells cs s cs' s'"
  using assms
proof (induction cs arbitrary: s)
  case Nil
  then show ?case
    by (simp add: draws_cells_def)
next
  case (Cons c cs)
  obtain c' t where c: "draw_cell st p c s = Some (c', t)" "draws_cells [c] s [c'] t"
    using draw_cell_draws [of s c st p] Cons.prems by auto
  then have "\<forall>c \<in> set cs. cell_ready t c"
    using Cons.prems ready_later(1) [of s t] by (simp add: draws_cells_def)
  from Cons.IH [OF this] obtain cs' s' where cs: "draw_cells st p cs t = Some (cs', s')" "draws_cells cs t cs' s'"
    by blast
  show ?case
    using c(1) cs(1) draws_cells_append [OF c(2) cs(2)] by simp
qed

section \<open>Lines and texts\<close>

definition draws_lines :: "measurement list \<Rightarrow> screen \<Rightarrow> measurement list \<Rightarrow> screen \<Rightarrow> bool" where
  "draws_lines ms s ms' s' \<longleftrightarrow>
     screen_extends s s' \<and> list_all2 (loaded_measurement s') ms ms' \<and>
     next_buffer (s_gl s') = next_buffer (s_gl s) + length (filter (\<lambda>m. ms_vbo m = None) ms) \<and>
     made s s' [] (map ms_vbo ms')"

lemma draw_line_draws:
  assumes "measurement_ready s m"
  shows "\<exists>m' s'. draw_line m s = Some (m', s') \<and> draws_lines [m] s [m'] s'"
proof (cases "ms_vbo m")
  case None
  then show ?thesis
    by (simp add: draw_line_def Let_def measurement_loadGL_def upload_def measurement_render_def bind_buffer_def
      draws_lines_def screen_extends_def loaded_measurement_def measurement_ready_def made_def) blast
next
  case (Some b)
  have self: "\<exists>b. m = m\<lparr>ms_vbo := Some b\<rparr>"
    by (rule exI [of _ b]) (use Some in \<open>cases m, simp\<close>)
  from Some assms show ?thesis
    by (auto intro: self simp: draw_line_def Let_def measurement_render_def bind_buffer_def
      draws_lines_def screen_extends_def loaded_measurement_def measurement_ready_def made_def)
qed

lemma draws_lines_append:
  assumes "draws_lines xs s xs' s'" and "draws_lines ys s' ys' s''"
  shows "draws_lines (xs @ ys) s (xs' @ ys') s''"
proof -
  have e: "screen_extends s s'" "screen_extends s' s''"
    using assms by (simp_all add: draws_lines_def)
  have "list_all2 (loaded_measurement s'') xs xs'"
    using assms(1) loaded_later(2) [OF e(2)] by (auto simp: draws_lines_def intro: list_all2_mono)
  moreover have "made s s'' [] (map ms_vbo (xs' @ ys'))"
    using assms made_trans [of s s' "[]" _ s'' "[]"] by (auto simp: draws_lines_def)
  ultimately show ?thesis
    using assms screen_extends_trans [OF e] by (auto simp: draws_lines_def intro: list_all2_appendI)
qed

lemma draw_lines_draws:
  assumes "\<forall>m \<in> set ms. measurement_ready s m"
  shows "\<exists>ms' s'. draw_lines ms s = Some (ms', s') \<and> draws_lines ms s ms' s'"
  using assms
proof (induction ms arbitrary: s)
  case Nil
  then show ?case
    by (simp add: draws_lines_def)
next
  case (Cons m ms)
  obtain m' t where m: "draw_line m s = Some (m', t)" "draws_lines [m] s [m'] t"
    using draw_line_draws [of s m] Cons.prems by auto
  then have "\<forall>m \<in> set ms. measurement_ready t m"
    using Cons.prems ready_later(2) [of s t] by (simp add: draws_lines_def)
  from Cons.IH [OF this] obtain ms' s' where ms: "draw_lines ms t = Some (ms', s')" "draws_lines ms t ms' s'"
    by blast
  show ?case
    using m(1) ms(1) draws_lines_append [OF m(2) ms(2)] by simp
qed

text \<open>Nothing but calls: the buffers stay exactly as they are, and no cell and no line is drawn.\<close>

definition only_calls :: "screen \<Rightarrow> screen \<Rightarrow> bool" where
  "only_calls s s' \<longleftrightarrow>
     next_buffer (s_gl s') = next_buffer (s_gl s) \<and> contents (s_gl s') = contents (s_gl s) \<and> s_arrays s' = s_arrays s \<and>
     made s s' [] []"

lemma draw_texts_only:
  assumes "\<forall>m \<in> set ms. ms_vbo m \<noteq> None"
  shows "\<exists>s'. draw_texts st T r ms s = Some s' \<and> only_calls s s'"
  using assms
proof (induction ms arbitrary: s)
  case Nil
  then show ?case
    by (simp add: only_calls_def)
next
  case (Cons m ms)
  then obtain t where t: "measurement_renderText Textured_shader m
      (emit [Uniform Textured_shader ''T_camera_world'' (billboard st T r (ms_mid m))] s) = Some t" "only_calls s t"
    by (simp add: measurement_renderText_def Let_def bind_buffer_def only_calls_def made_def)
  from Cons obtain s' where "draw_texts st T r ms t = Some s'" "only_calls t s'"
    by fastforce
  with t show ?case
    using made_trans [of s t "[]" "[]" s' "[]" "[]"] by (auto simp: only_calls_def)
qed

section \<open>A whole frame\<close>

lemma only_calls_extends: "only_calls s s' \<Longrightarrow> screen_extends s s'"
  by (simp add: only_calls_def screen_extends_def)

lemma loaded_cellD:
  assumes "loaded_cell s c c'"
  shows "cell_ready s c' \<and> vbo c' \<noteq> None"
proof -
  obtain b where "c' = c\<lparr>vbo := Some b\<rparr>"
    using assms by (auto simp: loaded_cell_def)
  then have "vbo c' = Some b"
    by simp
  with assms show ?thesis
    by (simp add: loaded_cell_def)
qed

lemma loaded_measurementD:
  assumes "loaded_measurement s m m'"
  shows "measurement_ready s m' \<and> ms_vbo m' \<noteq> None \<and> line_array s (ms_vbo m') = Some (measurement_vertices m)"
proof -
  obtain b where m': "m' = m\<lparr>ms_vbo := Some b\<rparr>"
    using assms by (auto simp: loaded_measurement_def)
  then have "ms_vbo m' = Some b" "measurement_vertices m' = measurement_vertices m"
    by simp_all
  with assms show ?thesis
    by (simp add: loaded_measurement_def measurement_ready_def line_array_def)
qed

lemma line_arrays:
  assumes "list_all2 (loaded_measurement s) ms ms'"
  shows "map (line_array s) (map ms_vbo ms') = map (\<lambda>m. Some (measurement_vertices m)) ms"
  using assms
  by induction (simp_all add: loaded_measurementD)

lemma pictures:
  assumes "list_all2 (shows_cell s) cs ds" and "screen_extends s s'"
  shows "map (picture s') ds = map picture_of cs"
  using assms(1)
  by induction (use shows_later [OF assms(2)] in \<open>auto simp: shows_cell_def\<close>)

lemma all_loaded:
  "list_all2 (loaded_cell s) cs cs' \<Longrightarrow> \<forall>c \<in> set cs'. cell_ready s c \<and> vbo c \<noteq> None"
  "list_all2 (loaded_measurement s) ms ms' \<Longrightarrow> \<forall>m \<in> set ms'. measurement_ready s m \<and> ms_vbo m \<noteq> None"
  by (induction rule: list_all2_induct; use loaded_cellD loaded_measurementD in force)+

lemma loaded_again:
  "list_all2 (loaded_cell s) cs cs' \<Longrightarrow> \<forall>c \<in> set cs. vbo c \<noteq> None \<Longrightarrow> cs' = cs"
  "list_all2 (loaded_measurement s) ms ms' \<Longrightarrow> \<forall>m \<in> set ms. ms_vbo m \<noteq> None \<Longrightarrow> ms' = ms"
  by (induction rule: list_all2_induct; simp add: loaded_cell_def loaded_measurement_def)+

text \<open>
  What can be drawn: a camera with a view that has an inverse, cells (none as long as there is no result), and a
  marker for the selection.
\<close>

definition can_draw :: "(jsnum \<Rightarrow> jsnum) \<Rightarrow> viewer \<Rightarrow> camera \<Rightarrow> cell list \<Rightarrow> bool" where
  "can_draw st v cam cs \<longleftrightarrow>
     v_cam v = Some cam \<and> (currentCells v = Some cs \<or> currentCells v = None \<and> cs = []) \<and> M4x4_inverse st (getMatrix st cam) \<noteq> None \<and>
     vertex_buffer (selection_cloud v) \<noteq> None \<and> color_buffer (selection_cloud v) \<noteq> None"

lemma shown_cells_draws:
  assumes "can_draw st v cam cs" and "\<forall>c \<in> set cs. cell_ready s c"
  shows "\<exists>cs' t s'. draw_shown_cells st cam v s =
      Some (v\<lparr>currentCells := map_option (\<lambda>_. cs') (currentCells v)\<rparr>, s') \<and>
    only_calls s t \<and> draws_cells cs t cs' s'"
proof (cases "currentCells v")
  case None
  with assms(1) show ?thesis
    by (cases v) (auto simp: draw_shown_cells_def can_draw_def draws_cells_def only_calls_def)
next
  case (Some cs0)
  define t where "t = (case v_selection v of None \<Rightarrow> id
      | Some sel \<Rightarrow> emit [Uniform Curr_program ''p_selection_camera'' (V3_sub st (getPosition st cam) (p_world_selection sel))])
    (emit [Use_program Curr_program, Uniform Curr_program ''R_camera_world'' (M4x4_topLeft3x3 st (getMatrix st cam))] s)"
  have t: "only_calls s t" "\<forall>c \<in> set cs. cell_ready t c"
    using assms(2) by (simp_all add: t_def only_calls_def made_def split: option.split)
  obtain cs' s' where "draw_cells st (getPosition st cam) cs t = Some (cs', s')" "draws_cells cs t cs' s'"
    using draw_cells_draws [OF t(2)] by blast
  then show ?thesis
    using assms(1) t(1) Some unfolding draw_shown_cells_def can_draw_def t_def
    by (cases "v_selection v") auto
qed

lemma measurements_draws:
  assumes "can_draw st v cam cs" and "\<forall>m \<in> set (allMeasurements v). measurement_ready s m"
  shows "\<exists>ms' t u s'. draw_measurements st cam (v\<lparr>currentCells := c\<rparr>) s =
      Some (v\<lparr>currentCells := c, allMeasurements := ms'\<rparr>, s') \<and>
    only_calls s t \<and> draws_lines (allMeasurements v) t ms' u \<and> only_calls u s'"
proof -
  define t where "t = emit [Use_program Line_shader, Uniform Line_shader ''T_camera_world'' (getMatrix st cam),
    Uniform Line_shader ''lift'' [-10]] s"
  have t: "only_calls s t" "\<forall>m \<in> set (allMeasurements v). measurement_ready t m"
    using assms(2) by (simp_all add: t_def only_calls_def made_def)
  obtain ms' u where u: "draw_lines (allMeasurements v) t = Some (ms', u)" "draws_lines (allMeasurements v) t ms' u"
    using draw_lines_draws [OF t(2)] by blast
  let ?u = "emit [Use_program Textured_shader, Uniform Textured_shader ''lift'' [-1]] u"
  obtain r where r: "makeBillboardSpher st (getMatrix st cam) = Some r"
    using assms(1) by (auto simp: can_draw_def makeBillboardSpher_def)
  obtain s' where s': "draw_texts st (getMatrix st cam) r ms' ?u = Some s'" "only_calls ?u s'"
    using draw_texts_only [of ms' st "getMatrix st cam" r ?u] u(2) all_loaded(2) by (auto simp: draws_lines_def)
  have "only_calls u s'"
    using s'(2) by (auto simp: only_calls_def made_def)
  with t(1) u s'(1) r show ?thesis
    unfolding draw_measurements_def Let_def t_def [symmetric] by (auto simp: t_def [symmetric])
qed

lemma selection_draws:
  assumes "can_draw st v cam cs"
  shows "\<exists>s'. draw_selection st cam (v\<lparr>currentCells := c, allMeasurements := ms\<rparr>) s = Some s' \<and> only_calls s s'"
  using assms by (auto simp: can_draw_def draw_selection_def cloud_render_def only_calls_def made_def)

lemma only_calls_ready:
  assumes "only_calls s t"
  shows "cell_ready t c = cell_ready s c" and "measurement_ready t m = measurement_ready s m"
  using assms by (simp_all add: only_calls_def cell_ready_def measurement_ready_def)

text \<open>What the steps of a frame leave of the screens between them.\<close>

lemma frame_extends:
  assumes "only_calls s s0" "only_calls s0 t1" "draws_cells cs t1 cs' s1" "only_calls s1 t2" "draws_lines ms t2 ms' u2"
    "only_calls u2 s2" "only_calls s2 s'"
  shows "screen_extends s1 s'" "screen_extends u2 s'" "screen_extends s s'"
proof -
  have "screen_extends t1 s1" "screen_extends t2 u2"
    using assms(3,5) by (simp_all add: draws_cells_def draws_lines_def)
  note steps = only_calls_extends [OF assms(1)] only_calls_extends [OF assms(2)] this(1) only_calls_extends [OF assms(4)]
    this(2) only_calls_extends [OF assms(6)] only_calls_extends [OF assms(7)]
  show "screen_extends u2 s'"
    by (rule screen_extends_trans [OF steps(6,7)])
  then show "screen_extends s1 s'"
    by (rule screen_extends_trans [OF screen_extends_trans [OF steps(4,5)]])
  then show "screen_extends s s'"
    by (rule screen_extends_trans [OF screen_extends_trans [OF screen_extends_trans [OF steps(1,2)] steps(3)]])
qed

lemma frame_made:
  assumes "only_calls s s0" "only_calls s0 t1" "draws_cells cs t1 cs' s1" "only_calls s1 t2" "draws_lines ms t2 ms' u2"
    "only_calls u2 s2" "only_calls s2 s'"
  obtains ds where "list_all2 (shows_cell s1) cs ds" "made s s' ds (map ms_vbo ms')"
proof -
  obtain ds where ds: "made t1 s1 ds []" "list_all2 (shows_cell s1) cs ds"
    using assms(3) unfolding draws_cells_def by blast
  have "made s s1 ds []"
    using made_trans [OF made_trans [of s s0 "[]" "[]" t1 "[]" "[]"] ds(1)] assms(1,2) by (simp add: only_calls_def)
  moreover have "made s1 u2 [] (map ms_vbo ms')"
    using made_trans [of s1 t2 "[]" "[]" u2 "[]" "map ms_vbo ms'"] assms(4,5) by (simp add: only_calls_def draws_lines_def)
  moreover have "made u2 s' [] []"
    using made_trans [of u2 s2 "[]" "[]" s' "[]" "[]"] assms(6,7) by (simp add: only_calls_def)
  ultimately have "made s s' (ds @ [] @ []) ([] @ map ms_vbo ms' @ [])"
    by (intro made_trans)
  then show thesis
    using that ds(2) by simp
qed

lemma frame:
  assumes v: "can_draw st v cam cs" and cs: "\<forall>c \<in> set cs. cell_ready s c"
    and ms: "\<forall>m \<in> set (allMeasurements v). measurement_ready s m"
  shows "\<exists>cs' ms' s' ds. renderLoop st v s = Some (v\<lparr>currentCells := map_option (\<lambda>_. cs') (currentCells v), allMeasurements := ms'\<rparr>, s') \<and>
    screen_extends s s' \<and> made s s' ds (map ms_vbo ms') \<and> map (picture s') ds = map picture_of cs \<and>
    list_all2 (loaded_cell s') cs cs' \<and> list_all2 (loaded_measurement s') (allMeasurements v) ms' \<and>
    next_buffer (s_gl s') = next_buffer (s_gl s) + length (filter (\<lambda>c. vbo c = None) cs) +
      length (filter (\<lambda>m. ms_vbo m = None) (allMeasurements v))"
proof -
  define s0 where "s0 = emit [Clear_color [0, Fin 0.5, 1, 1], Clear_buffers True, Use_program Curr_program,
    Uniform Curr_program ''m'' [box_size_meters v],
    Uniform Curr_program ''point_size_multiplier'' [point_size_multiplier v],
    Uniform Curr_program ''meters_to_pixels'' [meters_to_pixels v]] s"
  have s0: "only_calls s s0"
    by (simp add: s0_def only_calls_def made_def)
  obtain cs' t1 s1 where 1: "draw_shown_cells st cam v s0 = Some (v\<lparr>currentCells := map_option (\<lambda>_. cs') (currentCells v)\<rparr>, s1)"
    "only_calls s0 t1" "draws_cells cs t1 cs' s1"
    using shown_cells_draws [OF v, of s0] cs only_calls_ready [OF s0] by blast
  have "\<forall>m \<in> set (allMeasurements v). measurement_ready s1 m"
    using ms 1(3) only_calls_ready [OF s0] only_calls_ready [OF 1(2)] ready_later(2) [of t1 s1]
    by (simp add: draws_cells_def)
  from measurements_draws [OF v this] obtain ms' t2 u2 s2 where 2:
    "draw_measurements st cam (v\<lparr>currentCells := map_option (\<lambda>_. cs') (currentCells v)\<rparr>) s1 =
      Some (v\<lparr>currentCells := map_option (\<lambda>_. cs') (currentCells v), allMeasurements := ms'\<rparr>, s2)"
    "only_calls s1 t2" "draws_lines (allMeasurements v) t2 ms' u2" "only_calls u2 s2"
    by blast
  obtain s' where 3: "draw_selection st cam (v\<lparr>currentCells := map_option (\<lambda>_. cs') (currentCells v), allMeasurements := ms'\<rparr>) s2 = Some s'"
    "only_calls s2 s'"
    using selection_draws [OF v] by blast
  have "renderLoop st v s = Some (v\<lparr>currentCells := map_option (\<lambda>_. cs') (currentCells v), allMeasurements := ms'\<rparr>, s')"
    using v 1(1) 2(1) 3(1) unfolding renderLoop_def s0_def [symmetric] Let_def by (simp add: can_draw_def)
  moreover note e = frame_extends [OF s0 1(2,3) 2(2-4) 3(2)]
  moreover have "list_all2 (loaded_cell s') cs cs'" "list_all2 (loaded_measurement s') (allMeasurements v) ms'"
    using 1(3) 2(3) loaded_later e by (auto simp: draws_cells_def draws_lines_def intro: list_all2_mono)
  moreover have "next_buffer (s_gl s') = next_buffer (s_gl s) + length (filter (\<lambda>c. vbo c = None) cs) +
      length (filter (\<lambda>m. ms_vbo m = None) (allMeasurements v))"
    using 1(3) 2(3) s0 1(2) 2(2,4) 3(2) by (simp add: draws_cells_def draws_lines_def only_calls_def)
  moreover obtain ds where "list_all2 (shows_cell s1) cs ds" "made s s' ds (map ms_vbo ms')"
    by (rule frame_made [OF s0 1(2,3) 2(2-4) 3(2)])
  moreover from this(1) have "map (picture s') ds = map picture_of cs"
    by (rule pictures) (rule e(1))
  ultimately show ?thesis
    by blast
qed

lemma can_draw_later:
  "can_draw st v cam cs \<Longrightarrow> list_all2 P cs cs' \<Longrightarrow>
     can_draw st (v\<lparr>currentCells := map_option (\<lambda>_. cs') (currentCells v), allMeasurements := ms\<rparr>) cam cs'"
  by (auto simp: can_draw_def)

section \<open>Labels\<close>

text \<open>The inverse of an affine transformation, with its translation removed.\<close>

lemma affine_inverse:
  assumes a: "affine a" and det: "det4 a \<noteq> 0"
  shows "\<exists>b. M4x4_inverse f64 (mat a) = Some (mat b) \<and> length b = 16 \<and> rmul a b = rI \<and>
    b!3 = 0 \<and> b!7 = 0 \<and> b!11 = 0 \<and> b!15 = 1"
proof -
  define b where "b = map ((*) (1 / det4 a)) (radj a)"
  have len: "length a = 16" "length b = 16"
    using a by (simp_all add: affine_def b_def)
  have "map ((*) (1 / det4 a)) (map ((*) (det4 a)) rI) = rI"
    using det by (simp add: rI_def)
  then have inv: "rmul a b = rI"
    by (simp add: b_def rmul_scale radj_mul)
  have "b!3 = rmul a b ! 3" "b!7 = rmul a b ! 7" "b!11 = rmul a b ! 11" "b!15 = rmul a b ! 15"
    using a by (simp_all add: affine_def rmul_def)
  then have "b!3 = 0" "b!7 = 0" "b!11 = 0" "b!15 = 1"
    unfolding inv by (simp_all add: rI_def)
  with len inv det show ?thesis
    by (intro exI [of _ b]) (simp add: inverse_mat b_def)
qed

lemma billboard_mat:
  assumes a: "affine a" and b: "length b = 16" "rmul a b = rI" "b!3 = 0" "b!7 = 0" "b!11 = 0" "b!15 = 1"
  shows "billboard f64 (mat a) ((mat b)[12 := 0, 13 := 0, 14 := 0]) (real3 x y z) =
    mat [1, 0, 0, 0, 0, 1, 0, 0, 0, 0, 1, 0,
      a!0 * x + a!4 * y + a!8 * z + a!12, a!1 * x + a!5 * y + a!9 * z + a!13, a!2 * x + a!6 * y + a!10 * z + a!14, 1]"
proof -
  obtain b0 b1 b2 b3 b4 b5 b6 b7 b8 b9 b10 b11 b12 b13 b14 b15
    where bs: "b = [b0, b1, b2, b3, b4, b5, b6, b7, b8, b9, b10, b11, b12, b13, b14, b15]"
    using b(1) by (rule length_16E)
  have r: "(mat b)[12 := 0, 13 := 0, 14 := 0] = mat [b0, b1, b2, 0, b4, b5, b6, 0, b8, b9, b10, 0, 0, 0, 0, 1]"
    using b(3-6) by (simp add: bs mat_def)
  have T: "M4x4_makeTranslate f64 (real3 x y z) = mat [1, 0, 0, 0, 0, 1, 0, 0, 0, 0, 1, 0, x, y, z, 1]"
    by (simp add: M4x4_makeTranslate_def M4x4_makeTranslate3_def mat_def)
  show ?thesis
    using a b(2-6) unfolding billboard_def r T
    by (simp add: mul_mat affine_def) (simp add: rmul_def rI_def bs, elim conjE, simp)
qed

lemma camera_point:
  assumes "affine a"
  shows "V3_mul4x4 f64 (mat a) (real3 x y z) =
    real3 (a!0 * x + a!4 * y + a!8 * z + a!12) (a!1 * x + a!5 * y + a!9 * z + a!13) (a!2 * x + a!6 * y + a!10 * z + a!14)"
  using assms mul4x4_mat [of a x y z] by (simp add: affine_def vec3_def scale3_def)

section \<open>Properties\<close>


text \<open>A viewer that shows some cells, and a screen without buffers.\<close>

definition demo_view :: "cell list \<Rightarrow> viewer" where
  "demo_view cs = new_viewer\<lparr>v_cam := Some demo_pose, currentCells := Some cs\<rparr>"

definition empty_screen :: screen where
  "empty_screen = \<lparr>s_gl = \<lparr>next_buffer = 0, bound = None, contents = Map.empty\<rparr>, s_arrays = Map.empty, s_calls = []\<rparr>"

lemma demo_view: "can_draw f64 (demo_view cs) demo_pose cs" "\<forall>m \<in> set (allMeasurements (demo_view cs)). measurement_ready s m"
proof -
  obtain m where m: "getMatrix f64 demo_pose = mat m" "rigid m" "det4 m = 1"
    using camera_frame(1) [OF demo_pose] by blast
  then have "M4x4_inverse f64 (getMatrix f64 demo_pose) \<noteq> None"
    by (simp add: inverse_mat rigid_def affine_def)
  then show "can_draw f64 (demo_view cs) demo_pose cs" "\<forall>m \<in> set (allMeasurements (demo_view cs)). measurement_ready s m"
    by (simp_all add: can_draw_def demo_view_def cloud_setupGL_def)
qed


text \<open>The texts of the measurements face the camera (exact arithmetic): for an affine view matrix that has an
  inverse, the transformation of a text is a pure translation, so that its axes are those of the camera whatever way
  the camera turns, to the place where the camera sees the middle of the measurement.\<close>

theorem labels_face_camera:
  assumes "affine a" and "det4 a \<noteq> 0"
  shows "\<exists>r X Y Z. makeBillboardSpher f64 (mat a) = Some r \<and> V3_mul4x4 f64 (mat a) (real3 x y z) = real3 X Y Z \<and>
    billboard f64 (mat a) r (real3 x y z) = M4x4_makeTranslate f64 (real3 X Y Z)"
proof -
  obtain b where b: "M4x4_inverse f64 (mat a) = Some (mat b)" "length b = 16" "rmul a b = rI"
    "b!3 = 0" "b!7 = 0" "b!11 = 0" "b!15 = 1"
    using affine_inverse [OF assms] by blast
  have "M4x4_makeTranslate f64 (real3 X Y Z) = mat [1, 0, 0, 0, 0, 1, 0, 0, 0, 0, 1, 0, X, Y, Z, 1]" for X Y Z
    by (simp add: M4x4_makeTranslate_def M4x4_makeTranslate3_def mat_def)
  then show ?thesis
    using billboard_mat [OF assms(1) b(2-7)] camera_point [OF assms(1)]
    by (simp add: makeBillboardSpher_def b(1))
qed

text \<open>A camera turned by a quarter about the vertical axis, five metres away.\<close>

lemma labels_face_camera_witness:
  "\<exists>r X Y Z. makeBillboardSpher f64 (mat [0, 0, 1, 0, 0, 1, 0, 0, - 1, 0, 0, 0, 0, 0, - 5, 1]) = Some r \<and>
    V3_mul4x4 f64 (mat [0, 0, 1, 0, 0, 1, 0, 0, - 1, 0, 0, 0, 0, 0, - 5, 1]) (real3 1 2 3) = real3 X Y Z \<and>
    billboard f64 (mat [0, 0, 1, 0, 0, 1, 0, 0, - 1, 0, 0, 0, 0, 0, - 5, 1]) r (real3 1 2 3) =
      M4x4_makeTranslate f64 (real3 X Y Z)"
  by (rule labels_face_camera) (simp_all add: affine_def det4_def det3_def)

end
