(* ===== verification/ShownResults.thy ===== *)
theory ShownResults
  imports QuerierProperties Drawing
begin

text \<open>
  The query and the drawing together. \<open>FrustumQuerier\<close> hands copies of its cells to its callbacks, and \<open>renderLoop\<close> makes
  the buffers of the cells that it is given; the cells of the querier themselves never get one. So a result of the
  query always comes without buffers, and the first frame that shows it uploads all of its cells, those
  that were on the screen before included (\<open>results_uploaded_again\<close>).
\<close>

section \<open>The cells of the querier have no buffers\<close>

fun report_cells :: "report \<Rightarrow> cell list" where
  "report_cells (Progress cs) = cs"
| "report_cells (Finished cs) = cs"

definition bare :: "querier \<Rightarrow> bool" where
  "bare s \<longleftrightarrow> (\<forall>a. vbo (cells s a) = None) \<and> (\<forall>r \<in> set (outputs s). \<forall>c \<in> set (report_cells r). vbo c = None)"

lemma bare_update: "bare s \<Longrightarrow> (\<And>c. vbo (f c) = vbo c) \<Longrightarrow> bare (update_cell a f s)"
  by (simp add: bare_def update_cell_def)

lemma bare_begin: "bare s \<Longrightarrow> begin_cell cfg a s = (go, s') \<Longrightarrow> bare s'"
  by (auto simp: begin_cell_def Let_def bare_def update_cell_def cancel_def hide_child_def split: if_splits option.splits)

lemma bare_deliver: "bare s \<Longrightarrow> deliver cfg k b s = Inr s' \<Longrightarrow> bare s'"
  by (auto simp: deliver_def Let_def bare_def update_cell_def split: cont.splits option.splits)

lemma bare_end: "bare s \<Longrightarrow> bare (end_queue cfg s)"
  by (auto simp: end_queue_def Let_def bare_def Cell_shallowCopy_def)

lemma bare_fields [simp]:
  "bare (s\<lparr>queue_index := i\<rparr>) = bare s" "bare (s\<lparr>timers := ts\<rparr>) = bare s" "bare (s\<lparr>next_env := e\<rparr>) = bare s"
  "bare (s\<lparr>child_env := f\<rparr>) = bare s" "bare (s\<lparr>calls_in_a_row := k\<rparr>) = bare s" "bare (s\<lparr>tree_env := h\<rparr>) = bare s"
  "bare (s\<lparr>isProcessingQueue := p\<rparr>) = bare s" "bare (s\<lparr>inFlight := n\<rparr>) = bare s" "bare (s\<lparr>cell_cache := c\<rparr>) = bare s"
  "bare (s\<lparr>xhrs := x\<rparr>) = bare s" "bare (s\<lparr>bytes_downloaded := b\<rparr>) = bare s" "bare (s\<lparr>next_cell := m\<rparr>) = bare s"
  "bare (s\<lparr>frustum_planes := pl\<rparr>) = bare s" "bare (start_query cfg j s) = bare s"
  "bare (s\<lparr>cameraMatrix := camera, g_m := gm, last_trigger := lt\<rparr>) = bare s"
  by (simp_all add: bare_def start_query_def Let_def cancel_def)

interpretation bare: query_roots cfg "\<lambda>_. bare" "\<lambda>_. True" for cfg
proof unfold_locales
  fix s i b c kont s'
  assume "bare s" "deliver cfg kont b (s\<lparr>inFlight := inFlight s + 1, cell_cache := c\<rparr>) = Inr s'"
  then show "bare s'"
    using bare_deliver [of "s\<lparr>inFlight := inFlight s + 1, cell_cache := c\<rparr>"] by simp
next
  fix s i c g kont
  assume "bare s"
  then show "bare (send_request cfg i g kont (s\<lparr>inFlight := inFlight s + 1, cell_cache := c\<rparr>))"
    by (simp add: send_request_def bare_def)
qed (simp_all add: bare_begin bare_end hide_child_def bare_update)

lemma bare_trigger: "bare s \<Longrightarrow> triggerFrustum cfg n i s = Inr s' \<Longrightarrow> bare s'"
  using bare.triggerFrustum_holds [where cfg = cfg and n = n and s = s and i = i]
  by (cases "last_trigger s \<noteq> 0 \<and> i \<noteq> last_trigger s") (simp add: triggerFrustum_def, metis bare.holds_simps(2) bare_fields(14))

lemma bare_loaded:
  assumes "bare s" and "cell_loaded cfg n r response s = Inr s'"
  shows "bare s'"
proof -
  from assms(2) obtain buffer c l where c: "Cell_new (store cfg) (r_id r) (r_geom r) buffer = Some c"
    and "on_success cfg n (r_cont r) (next_cell s)
      (s\<lparr>bytes_downloaded := bytes_downloaded s + length buffer, cells := (cells s)(next_cell s := c),
         next_cell := next_cell s + 1, cell_cache := l\<rparr>) = Inr s'"
    by (auto simp: cell_loaded_def Let_def split: option.splits)
  moreover have "vbo c = None"
    using c by (auto simp: Cell_new_def Let_def split: list.splits)
  then have "bare (s\<lparr>bytes_downloaded := bytes_downloaded s + length buffer, cells := (cells s)(next_cell s := c),
         next_cell := next_cell s + 1, cell_cache := l\<rparr>)"
    using assms(1) by (simp add: bare_def)
  then have "bare.holds n (on_success cfg n (r_cont r) (next_cell s)
      (s\<lparr>bytes_downloaded := bytes_downloaded s + length buffer, cells := (cells s)(next_cell s := c),
         next_cell := next_cell s + 1, cell_cache := l\<rparr>))"
    by (intro bare.on_success_holds bare.walk) (simp, rule bare_deliver)
  ultimately show ?thesis
    by simp
qed

lemma bare_handle:
  assumes "bare s" and "handle cfg n ev s = Inr s'"
  shows "bare s'"
proof (cases ev)
  case (GetFrustum camera gm)
  with assms show ?thesis
    using bare_trigger [of "s\<lparr>cameraMatrix := camera, g_m := gm, last_trigger := 0\<rparr>"] by (simp add: handle_def getFrustum_def)
next
  case (SetProjection m)
  with assms show ?thesis
    by (auto simp: handle_def setProjectionMatrix_def)
next
  case (Loaded x response)
  with assms show ?thesis
    using bare_loaded [of "s\<lparr>xhrs := (xhrs s)(x := None)\<rparr>"] by (auto simp: handle_def split: option.splits)
next
  case (LoadFailed x)
  with assms show ?thesis
    by (auto simp: handle_def)
next
  case (TimerFired i)
  let ?s = "s\<lparr>timers := take i (timers s) @ drop (i + 1) (timers s)\<rparr>"
  have b: "bare ?s"
    using assms(1) by simp
  show ?thesis
  proof (cases "timers s ! i")
    case ProcessTimer
    with assms(2) TimerFired have "processQueue cfg n ?s = Inr s'"
      by (simp add: handle_def Let_def)
    then show ?thesis
      using bare.processQueue_holds [OF b] by (metis bare.holds_simps(2))
  next
    case (TriggerTimer k)
    with assms(2) TimerFired have "triggerFrustum cfg n k ?s = Inr s'"
      by (simp add: handle_def Let_def)
    then show ?thesis
      by (rule bare_trigger [OF b])
  qed
qed

text \<open>A run of the querier: events, each with the globals and the fuel it runs with.\<close>

fun query_run :: "(config \<times> nat \<times> event) list \<Rightarrow> querier \<Rightarrow> querier option" where
  "query_run [] s = Some s"
| "query_run ((cfg, n, ev) # es) s = (case handle cfg n ev s of Inl _ \<Rightarrow> None | Inr s' \<Rightarrow> query_run es s')"

lemma bare_run: "query_run es s = Some s' \<Longrightarrow> bare s \<Longrightarrow> bare s'"
  by (induction es s rule: query_run.induct) (auto dest: bare_handle split: sum.splits)

lemma bare_new: "\<forall>a. vbo (cs a) = None \<Longrightarrow> bare (FrustumQuerier_new cfg m cs k)"
  by (simp add: bare_def FrustumQuerier_new_def)

section \<open>Property\<close>

text \<open>Results are uploaded anew: whatever result a querier reports, after whatever events, the frame that shows it
  makes a new buffer for every one of its cells, whether or not the same cells were on the screen before.\<close>

theorem results_uploaded_again:
  assumes "\<forall>a. vbo (cs a) = None" and "query_run es (FrustumQuerier_new cfg m cs k) = Some q" and "r \<in> set (outputs q)"
    and "can_draw st v cam (report_cells r)" and "\<forall>m \<in> set (allMeasurements v). measurement_ready s m"
  shows "\<exists>v' s'. renderLoop st v s = Some (v', s') \<and>
    next_buffer (s_gl s) + length (report_cells r) \<le> next_buffer (s_gl s')"
proof -
  have none: "\<forall>c \<in> set (report_cells r). vbo c = None"
    using bare_run [OF assms(2) bare_new [OF assms(1)]] assms(3) by (auto simp: bare_def)
  then have "\<forall>c \<in> set (report_cells r). cell_ready s c" "filter (\<lambda>c. vbo c = None) (report_cells r) = report_cells r"
    by (simp_all add: cell_ready_def)
  with frame [OF assms(4) _ assms(5)] show ?thesis
    by fastforce
qed

text \<open>The reply for a tree with one cell without children: the query is finished with a copy of that cell.\<close>

lemma leaf_reply:
  assumes "deliver cfg k b s = Inr t" "\<not> isProcessingQueue t" "queue t = [b]" "queue_index t = 0" "\<not> interrupt_query t"
    "\<not> num_cells t > desired_cell_count cfg * Fin 1.5" "parent_cell (cells t b) = None" "Cell_isLeaf (cells t b)" "inFlight t = 0"
    "calls_in_a_row t \<le> 50"
  shows "\<exists>q c. on_success cfg (Suc (Suc n)) k b s = Inr q \<and> Finished [c] \<in> set (outputs q) \<and> queue q \<noteq> [] \<and>
    (ProcessTimer \<in> set (timers q) \<longrightarrow> ProcessTimer \<in> set (timers t))"
  using assms
  by (simp add: on_success.simps queue_loop.simps [of cfg "Suc _"] processCell.simps begin_cell_def Let_def
    update_cell_def Cell_isLeaf_def num_cells_def end_queue_def) blast

lemma deliver_root:
  "tree_env s e = Some t \<Longrightarrow> deliver cfg (RootCont e) b s = Inr
     ((update_cell b (\<lambda>c. c\<lparr>override_color := if t_override (trees cfg t) then t_color (trees cfg t)
        else [Fin (-1), Fin (-1), Fin (-1)]\<rparr>) s)
      \<lparr>queue := queue s @ [b], inFlight := inFlight s - 1\<rparr>)"
  by (simp add: deliver_def update_cell_def Let_def)

text \<open>A fresh querier asks for the root of the only tree; a leaf as the reply answers the query.\<close>

definition waits_for_root :: "ident \<Rightarrow> geom \<Rightarrow> int \<Rightarrow> nat \<Rightarrow> querier \<Rightarrow> bool" where
  "waits_for_root i g k j t \<longleftrightarrow>
     xhrs t = [0 \<mapsto> \<lparr>r_id = i, r_geom = g, r_cont = RootCont 0\<rparr>] \<and> inFlight t = 1 \<and> queue t = [] \<and> queue_index t = 0 \<and>
     \<not> isProcessingQueue t \<and> \<not> interrupt_query t \<and> cell_count t = 0 \<and> calls_in_a_row t = 0 \<and> tree_env t 0 = Some j \<and>
     cell_cache t = LRUCache_new k \<and> timers t = []"

lemma root_request:
  assumes "trees_info cfg = [Some j]" "t_enabled (trees cfg j)" "t_root (trees cfg j) \<notin> set Object_prototype_names"
    "\<not> RUN_ON_CACHE_ONLY cfg"
  shows "\<exists>t. handle cfg n (GetFrustum camera gm) ((FrustumQuerier_new cfg' m cs k)\<lparr>frustum_planes := p\<rparr>) = Inr t \<and>
    waits_for_root (t_root (trees cfg j)) (t_geom (trees cfg j)) k j t"
  using assms
  by (simp add: waits_for_root_def handle_def getFrustum_def triggerFrustum_def start_query_def FrustumQuerier_new_def cache_get_def
    LRUCache_get_def LRUCache_new_def get_prop_def send_request_def Let_def)

lemma root_answer:
  assumes t: "waits_for_root i g k j t" and i: "i \<notin> set Object_prototype_names" and k: "0 \<le> k"
    and d: "desired_cell_count cfg = Fin d" "0 \<le> d"
  shows "\<exists>q c. handle cfg (Suc (Suc n)) (Loaded 0 (Some [0])) t = Inr q \<and> Finished [c] \<in> set (outputs q) \<and> queue q \<noteq> [] \<and>
    ProcessTimer \<notin> set (timers q)"
proof -
  obtain l where l: "LRUCache_put i (next_cell t) (LRUCache_new k) = Some l"
    using LRUCache_put_rel [OF LRUCache_new_rel [of k] i, of "next_cell t"] k by (auto simp: LRUCache_new_def)
  let ?t = "t\<lparr>xhrs := Map.empty, bytes_downloaded := bytes_downloaded t + 1,
    cells := (cells t)(next_cell t := the (Cell_new (store cfg) i g [0])), next_cell := next_cell t + 1, cell_cache := l\<rparr>"
  have "handle cfg (Suc (Suc n)) (Loaded 0 (Some [0])) t = on_success cfg (Suc (Suc n)) (RootCont 0) (next_cell t) ?t"
    using t by (simp add: waits_for_root_def handle_def cell_loaded_def Cell_new_def Let_def l)
  moreover have "\<exists>q c. on_success cfg (Suc (Suc n)) (RootCont 0) (next_cell t) ?t = Inr q \<and> Finished [c] \<in> set (outputs q) \<and>
      queue q \<noteq> [] \<and> (ProcessTimer \<in> set (timers q) \<longrightarrow> ProcessTimer \<in> set (timers ?t))"
    using leaf_reply [OF deliver_root [of ?t 0 j]] t d
    by (simp_all add: waits_for_root_def update_cell_def Cell_new_def Let_def num_cells_def Cell_isLeaf_def)
  ultimately show ?thesis
    using t by (auto simp: waits_for_root_def)
qed

lemma demo_answer:
  obtains t q c where "handle demo_config2 0 (GetFrustum [] 1) demo_start = Inr t" "xhrs t 0 \<noteq> None"
    "handle demo_config2 (Suc (Suc 0)) (Loaded 0 (Some [0])) t = Inr q" "Finished [c] \<in> set (outputs q)" "queue q \<noteq> []"
    "ProcessTimer \<notin> set (timers q)"
proof -
  have f: "''f'' \<notin> set Object_prototype_names"
    by (simp add: Object_prototype_names_def)
  have c: "trees_info demo_config2 = [Some 0]" "t_enabled (trees demo_config2 0)" "t_root (trees demo_config2 0) = ''f''"
    "\<not> RUN_ON_CACHE_ONLY demo_config2" "desired_cell_count demo_config2 = Fin 100"
    by (simp_all add: demo_config2_def demo_config_def)
  have same: "(FrustumQuerier_new demo_config [] (\<lambda>_. demo_cell) 10)\<lparr>frustum_planes := frustum_planes demo_start\<rparr> = demo_start"
    by (simp add: demo_start_def)
  have "\<exists>t. handle demo_config2 0 (GetFrustum [] 1)
      ((FrustumQuerier_new demo_config [] (\<lambda>_. demo_cell) 10)\<lparr>frustum_planes := frustum_planes demo_start\<rparr>) = Inr t \<and>
    waits_for_root (t_root (trees demo_config2 0)) (t_geom (trees demo_config2 0)) 10 0 t"
    by (rule root_request) (use f c in simp_all)
  then obtain t where t: "handle demo_config2 0 (GetFrustum [] 1) demo_start = Inr t"
    "waits_for_root ''f'' (t_geom (trees demo_config2 0)) 10 0 t"
    unfolding same c(3) by blast
  then obtain q c where "handle demo_config2 (Suc (Suc 0)) (Loaded 0 (Some [0])) t = Inr q" "Finished [c] \<in> set (outputs q)"
    "queue q \<noteq> []" "ProcessTimer \<notin> set (timers q)"
    using root_answer [OF t(2) f _ c(5), of 0] by auto
  moreover have "xhrs t 0 \<noteq> None"
    using t(2) by (simp add: waits_for_root_def)
  ultimately show thesis
    using that t(1) by blast
qed

lemma demo_result:
  "\<exists>q c. query_run [(demo_config2, 0, GetFrustum [] 1), (demo_config2, Suc (Suc 0), Loaded 0 (Some [0]))] demo_start = Some q \<and>
     Finished [c] \<in> set (outputs q)"
proof -
  obtain t q c where "handle demo_config2 0 (GetFrustum [] 1) demo_start = Inr t"
    "handle demo_config2 (Suc (Suc 0)) (Loaded 0 (Some [0])) t = Inr q" "Finished [c] \<in> set (outputs q)"
    by (rule demo_answer)
  then show ?thesis
    by auto
qed

lemma results_uploaded_again_witness:
  "\<exists>c v' s'. renderLoop f64 (demo_view [c]) empty_screen = Some (v', s') \<and> 1 \<le> next_buffer (s_gl s')"
proof -
  obtain q c where q: "query_run [(demo_config2, 0, GetFrustum [] 1), (demo_config2, Suc (Suc 0), Loaded 0 (Some [0]))]
      (FrustumQuerier_new demo_config [] (\<lambda>_. demo_cell) 10) = Some q" "Finished [c] \<in> set (outputs q)"
    using demo_result unfolding demo_start_def by blast
  have none: "\<forall>a :: addr. vbo ((\<lambda>_. demo_cell) a) = None"
    by (simp add: demo_cell_def Cell_new_def Let_def)
  have "can_draw f64 (demo_view [c]) demo_pose (report_cells (Finished [c]))"
    by (simp add: demo_view(1))
  from results_uploaded_again [OF none q this demo_view(2), of empty_screen] show ?thesis
    by (fastforce simp: empty_screen_def)
qed

end
