(* ===== verification/StatusText.thy ===== *)
theory StatusText
  imports ShownResults
begin

text \<open>
  The texts beside the canvas (the end of \<open>renderLoop\<close> of \<open>js/index.js\<close>): the rate of the frames with what is shown, and the use of
  the cache. They are written again by the first frame that is more than a quarter of a second after the last time.
  Times are in milliseconds. \<open>rate_shown\<close>: the rate is the number of frames since then, per second and rounded down.
\<close>

record status =
  lastTime :: int
  frames :: nat
  display_html :: "string option"
  cache_html :: "string option"

text \<open>\<open>toFixed(0)\<close> of a number that is not negative and below \<open>10 ^ 21\<close>.\<close>

definition toFixed0 :: "real \<Rightarrow> string" where
  "toFixed0 x = nat_digits (nat \<lfloor>x + 1 / 2\<rfloor>)"

definition total_points :: "cell list \<Rightarrow> real" where
  "total_points cs = foldl (\<lambda>t c. t + real (length (data c)) / 6) 0 cs"

definition display_text :: "nat \<Rightarrow> cell list option \<Rightarrow> string" where
  "display_text fps shown =
     ''Display:'' @ ''<br>-  '' @ nat_digits fps @ '' fps'' @ ''<br>-  '' @
     (case shown of
        None \<Rightarrow> ''''
      | Some cs \<Rightarrow>
          (if total_points cs > 1000000 then toFixed1 (total_points cs / 1000000) @ '' M points ''
           else toFixed0 (total_points cs / 1000) @ '' k points '') @
          ''('' @ nat_digits (length cs) @ '' cells)<br>'')"

text \<open>The cache that the page makes has room for cells, so the quotient is finite; \<open>None\<close> if a number has no text.\<close>

definition cache_text :: "querier \<Rightarrow> string option" where
  "cache_text q =
     Option.bind (number_string (Fin (csize (cell_cache q)))) (\<lambda>used.
     Option.bind (number_string (Fin (max_size (cell_cache q)))) (\<lambda>room.
     Option.bind (number_string (Fin \<lfloor>100 * real_of_int (csize (cell_cache q)) / max_size (cell_cache q)\<rfloor>)) (\<lambda>percent.
     Option.bind (if bytes_downloaded q \<noteq> 0 then map_option (\<lambda>t. ''<br>-  '' @ t) (prettyBytes (bytes_downloaded q)) else Some '''') (\<lambda>bytes.
     Option.bind (if inFlight q \<noteq> 0 then map_option (\<lambda>t. ''<br>-  loading '' @ t @ '' cells'') (number_string (Fin (inFlight q)))
                  else Some '''') (\<lambda>flight.
       Some (''Cache usage:'' @ ''<br>-  '' @ used @ ''/'' @ room @ '' = '' @ percent @ ''%'' @ bytes @ flight))))))"

definition status_frame :: "int \<times> cell list option \<times> querier \<Rightarrow> status \<Rightarrow> status" where
  "status_frame = (\<lambda>(now, shown, q) s.
     let s = s\<lparr>frames := frames s + 1\<rparr>
     in if now - lastTime s > 250 then
          (let fps = real (frames s) / real_of_int (now - lastTime s) * 1000
           in s\<lparr>lastTime := now, frames := 0, display_html := Some (display_text (nat \<lfloor>fps\<rfloor>) shown),
                cache_html := cache_text q\<rparr>)
        else s)"

text \<open>Frames within the quarter of a second only count, and the next one shows their rate.\<close>

lemma frames_counted:
  "\<forall>f \<in> set fs. fst f - lastTime s \<le> 250 \<Longrightarrow> fold status_frame fs s = s\<lparr>frames := frames s + length fs\<rparr>"
  by (induction fs arbitrary: s) (auto simp: status_frame_def Let_def)

lemma rate_shown:
  assumes "frames s = 0" and "\<forall>f \<in> set fs. fst f - lastTime s \<le> 250" and "now - lastTime s > 250"
    and "s' = fold status_frame (fs @ [(now, cs, q)]) s"
  shows "display_html s' = Some (display_text (nat \<lfloor>real (length fs + 1) / real_of_int (now - lastTime s) * 1000\<rfloor>) cs)"
    and "frames s' = 0" "lastTime s' = now"
proof -
  have "s' = status_frame (now, cs, q) (s\<lparr>frames := frames s + length fs\<rparr>)"
    by (simp only: assms(4) fold_append frames_counted [OF assms(2)] comp_apply fold_simps)
  then show "display_html s' = Some (display_text (nat \<lfloor>real (length fs + 1) / real_of_int (now - lastTime s) * 1000\<rfloor>) cs)"
    "frames s' = 0" "lastTime s' = now"
    using assms(1,3) by (simp_all add: status_frame_def Let_def add.commute)
qed

text \<open>The points that are shown: six bytes each.\<close>

lemma point_count: "total_points cs = (\<Sum>c \<leftarrow> cs. real (length (data c)) / 6)"
proof -
  have "foldl (\<lambda>t c. t + real (length (data c)) / 6) a cs = a + (\<Sum>c \<leftarrow> cs. real (length (data c)) / 6)" for a
    by (induction cs arbitrary: a) simp_all
  then show ?thesis
    by (simp add: total_points_def)
qed

end
