(* ===== verification/Jobs.thy ===== *)
theory Jobs
  imports Viewer
begin

text \<open>
  Jobs (\<open>JobInfo\<close> of \<open>js/megatree.js\<close>, \<open>js/road_detection.js\<close>, and \<open>onRoadButtonClicked\<close>, \<open>serveNewTree\<close>, \<open>addJob\<close> and the start
  button of \<open>js/index.js\<close>): the server detects roads in a box and makes a new tree of them. The client asks for
  the detection, polls its progress and then its completion, asks the server to serve the new
  tree, loads its metadata and adds it to the trees.

  A \<open>page\<close> is the viewer with the list of jobs and the tasks that are under way: requests that
  wait for a reply, and timers that are set to ask again. An event is a click, the reply to a request or
  a timer that fires. Clicking the start button can throw; then the result is \<open>Inl\<close> with the state it leaves behind.
\<close>

section \<open>State\<close>

record job =
  job_name :: string
  finished :: bool
  failed :: bool
  removed :: bool
  tree_name :: "string option"
  progress_value :: "string option"
  job_camera :: camera

definition JobInfo :: "string \<Rightarrow> camera \<Rightarrow> job" where
  "JobInfo name cam =
     \<lparr>job_name = name, finished = False, failed = False, removed = False, tree_name = None,
      progress_value = None, job_camera = cam\<rparr>"

text \<open>Tasks: the number of the job, and the name of the new tree once it is known.\<close>

datatype task =
    Detecting nat "string option"
  | Asking_progress nat string | Waiting_progress nat string
  | Asking_completion nat string | Waiting_completion nat string
  | Serving nat string | Loading_metadata nat string

fun job_of :: "task \<Rightarrow> nat" where
  "job_of (Detecting j _) = j"
| "job_of (Asking_progress j _) = j"
| "job_of (Waiting_progress j _) = j"
| "job_of (Asking_completion j _) = j"
| "job_of (Waiting_completion j _) = j"
| "job_of (Serving j _) = j"
| "job_of (Loading_metadata j _) = j"

record page =
  view :: viewer
  jobs_info :: "job list"
  tasks :: "task list"

definition update_job :: "nat \<Rightarrow> (job \<Rightarrow> job) \<Rightarrow> page \<Rightarrow> page" where
  "update_job j f p = p\<lparr>jobs_info := (jobs_info p)[j := f (jobs_info p ! j)]\<rparr>"

definition add_task :: "task \<Rightarrow> page \<Rightarrow> page" where
  "add_task k p = p\<lparr>tasks := tasks p @ [k]\<rparr>"

section \<open>Removing a job\<close>

definition remove_tree :: "string \<Rightarrow> viewer \<Rightarrow> viewer" where
  "remove_tree name v =
     foldl (\<lambda>v i. case v_trees v ! i of
                    None \<Rightarrow> v
                  | Some t \<Rightarrow> if t_name t = name then triggerFrustumUpdate (v\<lparr>v_trees := (v_trees v)[i := None]\<rparr>) else v)
       v [0..<length (v_trees v)]"

definition JobInfo_remove :: "nat \<Rightarrow> page \<Rightarrow> page" where
  "JobInfo_remove j p =
     (let p = (case tree_name (jobs_info p ! j) of
                 Some (c # cs) \<Rightarrow> p\<lparr>view := remove_tree (c # cs) (view p)\<rparr>
               | _ \<Rightarrow> p)
      in update_job j (\<lambda>b. b\<lparr>removed := True\<rparr>) p)"

section \<open>Starting a job\<close>

text \<open>The address that \<open>detectRoads\<close> asks: the lower and the upper corner of the box along the axes of the world.\<close>

definition road_url :: "string \<Rightarrow> farray list \<Rightarrow> string option" where
  "road_url tree box =
     (let a = box ! 0; b = box ! 1
      in map_option (\<lambda>u. u @ ''&tree_name='' @ tree)
        (foldl add_number (Some ''/algorithm/road_detection'')
          [(''?l_x='', Math_min (idx a 0) (idx b 0)), (''&l_y='', Math_min (idx a 1) (idx b 1)),
           (''&l_z='', Math_min (idx a 2) (idx b 2)), (''&h_x='', Math_max (idx a 0) (idx b 0)),
           (''&h_y='', Math_max (idx a 1) (idx b 1)), (''&h_z='', Math_max (idx a 2) (idx b 2))]))"

definition addJob :: "(jsnum \<Rightarrow> jsnum) \<Rightarrow> string \<Rightarrow> cam_config \<Rightarrow> page \<Rightarrow> page" where
  "addJob st name viewpoint p = p\<lparr>jobs_info := jobs_info p @ [JobInfo name (OrbitCam_new st viewpoint)]\<rparr>"

definition job_ended :: "job \<Rightarrow> bool" where
  "job_ended b \<longleftrightarrow> finished b \<or> failed b \<or> removed b"

text \<open>\<open>onRoadButtonClicked\<close> up to the request; it reads the name of the first tree and the selected box.\<close>

definition onRoadButtonClicked :: "(jsnum \<Rightarrow> jsnum) \<Rightarrow> nat \<Rightarrow> page \<Rightarrow> page + page" where
  "onRoadButtonClicked st j p =
     (case v_trees (view p) of
        Some t # _ \<Rightarrow>
          (case Option.bind (v_selection (view p)) (getBox st) of
             Some box \<Rightarrow> Inr (add_task (Detecting j (road_url (t_name t) box)) p)
           | None \<Rightarrow> Inl p)
      | _ \<Rightarrow> Inl p)"

definition start_job :: "(jsnum \<Rightarrow> jsnum) \<Rightarrow> string \<Rightarrow> page \<Rightarrow> page + page" where
  "start_job st name p =
     (if name = '''' then Inr p
      else if jobs_info p \<noteq> [] \<and> \<not> job_ended (last (jobs_info p)) then Inr p
      else
        (case v_selection (view p) of
           None \<Rightarrow> Inr p
         | Some sel \<Rightarrow>
             (case Option.bind (v_cam (view p)) (\<lambda>cam. lookAt st cam sel) of
                None \<Rightarrow> Inl p
              | Some viewpoint \<Rightarrow> onRoadButtonClicked st (length (jobs_info p)) (addJob st name viewpoint p))))"

text \<open>The button of a job flies the camera to its region.\<close>

definition click_job :: "(jsnum \<Rightarrow> jsnum) \<Rightarrow> nat \<Rightarrow> page \<Rightarrow> page option" where
  "click_job st j p =
     map_option (\<lambda>v. p\<lparr>view := v\<rparr>) (fly_to st (job_camera (jobs_info p ! j)) (Fin 0.9) (view p))"

section \<open>The steps of a job\<close>

definition pollRoadDetectionProgress :: "nat \<Rightarrow> string \<Rightarrow> page \<Rightarrow> page" where
  "pollRoadDetectionProgress j t p = add_task (Asking_progress j t) p"

definition pollRoadDetectionCompletion :: "nat \<Rightarrow> string \<Rightarrow> page \<Rightarrow> page" where
  "pollRoadDetectionCompletion j t p = add_task (Asking_completion j t) p"

definition progress_reply :: "nat \<Rightarrow> string \<Rightarrow> nat \<Rightarrow> string \<Rightarrow> page \<Rightarrow> page" where
  "progress_reply j t status response p =
     (if status = 200 then
        (let p' = update_job j (\<lambda>b. b\<lparr>progress_value := Some response\<rparr>) p
         in if parseFloat response < 1 then add_task (Waiting_progress j t) p'
            else pollRoadDetectionCompletion j t p')
      else add_task (Waiting_progress j t) p)"

definition serveNewTree :: "nat \<Rightarrow> string \<Rightarrow> page \<Rightarrow> page" where
  "serveNewTree j t p = add_task (Serving j t) p"

text \<open>The success callback of \<open>onRoadButtonClicked\<close>: the tree is served unless the job was removed.\<close>

definition detection_done :: "nat \<Rightarrow> string \<Rightarrow> page \<Rightarrow> page" where
  "detection_done j t p =
     (let p = update_job j (\<lambda>b. b\<lparr>tree_name := Some t\<rparr>) p
      in if \<not> removed (jobs_info p ! j) then serveNewTree j t p else p)"

definition completion_reply :: "nat \<Rightarrow> string \<Rightarrow> nat \<Rightarrow> string \<Rightarrow> page \<Rightarrow> page" where
  "completion_reply j t status response p =
     (if status = 200 then
        (if truthy (parseInt response) then detection_done j t p else add_task (Waiting_completion j t) p)
      else add_task (Waiting_completion j t) p)"

definition job_failed :: "nat \<Rightarrow> page \<Rightarrow> page" where
  "job_failed j p = update_job j (\<lambda>b. b\<lparr>failed := True\<rparr>) p"

text \<open>The metadata of the new tree has arrived: it becomes a tree of the viewer in any case.\<close>

definition metadata_reply :: "(jsnum \<Rightarrow> jsnum) \<Rightarrow> nat \<Rightarrow> string \<Rightarrow> string \<Rightarrow> page \<Rightarrow> page" where
  "metadata_reply st j t response p =
     (let v = addTree st t (MetaData st response) (view p)
      in if \<not> removed (jobs_info p ! j) then
           (let v = v\<lparr>v_trees := butlast (v_trees v) @ [map_option (\<lambda>tr. tr\<lparr>t_override := True\<rparr>) (last (v_trees v))]\<rparr>
            in update_job j (\<lambda>b. b\<lparr>finished := True\<rparr>) (p\<lparr>view := clearSelection st v\<rparr>))
         else p\<lparr>view := v\<rparr>)"

fun reply :: "(jsnum \<Rightarrow> jsnum) \<Rightarrow> task \<Rightarrow> nat \<Rightarrow> string \<Rightarrow> page \<Rightarrow> page" where
  "reply st (Detecting j _) status response p =
     (if status = 200 then pollRoadDetectionProgress j response p else job_failed j p)"
| "reply st (Asking_progress j t) status response p = progress_reply j t status response p"
| "reply st (Asking_completion j t) status response p = completion_reply j t status response p"
| "reply st (Serving j t) status response p =
     (if status = 200 then add_task (Loading_metadata j t) p else job_failed j p)"
| "reply st (Loading_metadata j t) status response p =
     (if status = 200 then metadata_reply st j t response p else job_failed j p)"
| "reply st _ status response p = p"

text \<open>A timer asks again.\<close>

fun timer_fires :: "task \<Rightarrow> page \<Rightarrow> page" where
  "timer_fires (Waiting_progress j t) p = pollRoadDetectionProgress j t p"
| "timer_fires (Waiting_completion j t) p = pollRoadDetectionCompletion j t p"
| "timer_fires _ p = p"

fun waits :: "task \<Rightarrow> bool" where
  "waits (Waiting_progress _ _) = True"
| "waits (Waiting_completion _ _) = True"
| "waits _ = False"

datatype job_event =
    Start_job string | Remove_job nat | Click_job nat | Reply nat nat string | Timer nat | Viewer_event page_event

definition take_task :: "nat \<Rightarrow> page \<Rightarrow> page" where
  "take_task i p = p\<lparr>tasks := take i (tasks p) @ drop (Suc i) (tasks p)\<rparr>"

fun job_step :: "(jsnum \<Rightarrow> jsnum) \<Rightarrow> string \<Rightarrow> job_event \<Rightarrow> page \<Rightarrow> page option" where
  "job_step st href (Start_job name) p = (case start_job st name p of Inl _ \<Rightarrow> None | Inr p' \<Rightarrow> Some p')"
| "job_step st href (Remove_job j) p = (if j < length (jobs_info p) then Some (JobInfo_remove j p) else Some p)"
| "job_step st href (Click_job j) p = (if j < length (jobs_info p) then click_job st j p else Some p)"
| "job_step st href (Reply i status response) p =
     (if i < length (tasks p) \<and> \<not> waits (tasks p ! i)
      then Some (reply st (tasks p ! i) status response (take_task i p)) else Some p)"
| "job_step st href (Timer i) p =
     (if i < length (tasks p) \<and> waits (tasks p ! i)
      then Some (timer_fires (tasks p ! i) (take_task i p)) else Some p)"
| "job_step st href (Viewer_event e) p = map_option (\<lambda>v. p\<lparr>view := v\<rparr>) (handle_event st href e (view p))"

fun job_run :: "(jsnum \<Rightarrow> jsnum) \<Rightarrow> string \<Rightarrow> job_event list \<Rightarrow> page \<Rightarrow> page option" where
  "job_run st href [] p = Some p"
| "job_run st href (e # es) p = Option.bind (job_step st href e p) (job_run st href es)"

definition new_page :: "viewer \<Rightarrow> page" where
  "new_page v = \<lparr>view = v, jobs_info = [], tasks = []\<rparr>"

section \<open>What is under way\<close>

definition under_way :: "page \<Rightarrow> nat \<Rightarrow> nat" where
  "under_way p j = length (filter (\<lambda>k. job_of k = j) (tasks p))"

definition jobs_ok :: "page \<Rightarrow> bool" where
  "jobs_ok p \<longleftrightarrow>
     (\<forall>j. under_way p j \<le> 1) \<and>
     (\<forall>k \<in> set (tasks p). job_of k < length (jobs_info p)) \<and>
     (\<forall>j < length (jobs_info p). \<not> job_ended (jobs_info p ! j) \<longrightarrow> under_way p j = 1) \<and>
     (\<forall>j. Suc j < length (jobs_info p) \<longrightarrow> job_ended (jobs_info p ! j))"

text \<open>A step of one job: it goes on with one task, or it has ended.\<close>

definition advances :: "nat \<Rightarrow> page \<Rightarrow> page \<Rightarrow> bool" where
  "advances j p q \<longleftrightarrow>
     length (jobs_info q) = length (jobs_info p) \<and>
     (\<forall>i. i \<noteq> j \<longrightarrow> jobs_info q ! i = jobs_info p ! i) \<and>
     (job_ended (jobs_info p ! j) \<longrightarrow> job_ended (jobs_info q ! j)) \<and>
     (tasks q = tasks p \<and> job_ended (jobs_info q ! j) \<or> (\<exists>k. tasks q = tasks p @ [k] \<and> job_of k = j))"

lemma update_job_simps [simp]:
  "length (jobs_info (update_job j f p)) = length (jobs_info p)" "tasks (update_job j f p) = tasks p"
  "view (update_job j f p) = view p"
  "i \<noteq> j \<Longrightarrow> jobs_info (update_job j f p) ! i = jobs_info p ! i"
  "j < length (jobs_info p) \<Longrightarrow> jobs_info (update_job j f p) ! j = f (jobs_info p ! j)"
  by (simp_all add: update_job_def)

lemma add_task_simps [simp]:
  "jobs_info (add_task k p) = jobs_info p" "tasks (add_task k p) = tasks p @ [k]" "view (add_task k p) = view p"
  by (simp_all add: add_task_def)

lemma take_task_simps [simp]:
  "jobs_info (take_task i p) = jobs_info p" "view (take_task i p) = view p"
  by (simp_all add: take_task_def)

lemma job_ended_updates [simp]:
  "job_ended (b\<lparr>progress_value := x\<rparr>) = job_ended b" "job_ended (b\<lparr>tree_name := y\<rparr>) = job_ended b"
  "job_ended (b\<lparr>failed := True\<rparr>)" "job_ended (b\<lparr>finished := True\<rparr>)" "job_ended (b\<lparr>removed := True\<rparr>)"
  "removed b \<Longrightarrow> job_ended b"
  by (simp_all add: job_ended_def)

lemma reply_advances:
  assumes "job_of k < length (jobs_info p)" and "\<not> waits k"
  shows "advances (job_of k) p (reply st k status response p)"
  using assms
  by (cases k) (simp_all add: advances_def pollRoadDetectionProgress_def pollRoadDetectionCompletion_def
      progress_reply_def completion_reply_def detection_done_def serveNewTree_def job_failed_def metadata_reply_def Let_def)

lemma timer_advances: "waits k \<Longrightarrow> advances (job_of k) p (timer_fires k p)"
  by (cases k) (simp_all add: advances_def pollRoadDetectionProgress_def pollRoadDetectionCompletion_def)

lemma under_way_take:
  assumes "i < length (tasks p)"
  shows "under_way p j = under_way (take_task i p) j + (if job_of (tasks p ! i) = j then 1 else 0)"
proof -
  have "tasks p = take i (tasks p) @ tasks p ! i # drop (Suc i) (tasks p)"
    by (rule id_take_nth_drop [OF assms])
  then have "length (filter (\<lambda>k. job_of k = j) (tasks p)) =
      length (filter (\<lambda>k. job_of k = j) (take i (tasks p) @ tasks p ! i # drop (Suc i) (tasks p)))"
    by (rule arg_cong)
  then show ?thesis by (simp add: under_way_def take_task_def)
qed

lemma jobs_ok_advance:
  assumes ok: "jobs_ok p" and i: "i < length (tasks p)" and adv: "advances (job_of (tasks p ! i)) (take_task i p) q"
  shows "jobs_ok q"
proof -
  let ?j = "job_of (tasks p ! i)"
  have j: "?j < length (jobs_info p)" using ok i by (simp add: jobs_ok_def)
  have len: "length (jobs_info q) = length (jobs_info p)" using adv by (simp add: advances_def)
  have other: "jobs_info q ! l = jobs_info p ! l" if "l \<noteq> ?j" for l using adv that by (simp add: advances_def)
  have "under_way p ?j \<le> 1" using ok by (simp add: jobs_ok_def)
  then have taken: "under_way (take_task i p) ?j = 0" "l \<noteq> ?j \<Longrightarrow> under_way (take_task i p) l = under_way p l" for l
    using under_way_take [OF i, of ?j] under_way_take [OF i, of l] by auto
  have sub: "set (tasks (take_task i p)) \<subseteq> set (tasks p)"
    by (auto simp: take_task_def dest: in_set_takeD in_set_dropD)
  have now: "under_way q l = under_way (take_task i p) l + (if l = ?j \<and> tasks q \<noteq> tasks (take_task i p) then 1 else 0)" for l
    using adv by (auto simp: advances_def under_way_def)
  have ended: "job_ended (jobs_info p ! l) \<Longrightarrow> job_ended (jobs_info q ! l)" for l
    using adv other by (cases "l = ?j") (simp_all add: advances_def)
  have "under_way q l \<le> 1" for l using ok now [of l] taken by (cases "l = ?j") (simp_all add: jobs_ok_def)
  moreover have "job_of k < length (jobs_info q)" if "k \<in> set (tasks q)" for k
  proof -
    have "k \<in> set (tasks (take_task i p)) \<or> job_of k = ?j" using adv that by (auto simp: advances_def)
    then have "k \<in> set (tasks p) \<or> job_of k = ?j" using sub by blast
    then show ?thesis using ok j len by (auto simp: jobs_ok_def)
  qed
  moreover have "under_way q l = 1" if "l < length (jobs_info q)" "\<not> job_ended (jobs_info q ! l)" for l
  proof (cases "l = ?j")
    case True
    with that adv now [of l] taken show ?thesis by (auto simp: advances_def)
  next
    case False
    with that ok now [of l] taken other len show ?thesis by (simp add: jobs_ok_def)
  qed
  moreover have "job_ended (jobs_info q ! l)" if "Suc l < length (jobs_info q)" for l
    using that ok ended len by (simp add: jobs_ok_def)
  ultimately show ?thesis by (simp add: jobs_ok_def)
qed

lemma jobs_ok_view: "tasks q = tasks p \<Longrightarrow> jobs_info q = jobs_info p \<Longrightarrow> jobs_ok p \<Longrightarrow> jobs_ok q"
  by (simp add: jobs_ok_def under_way_def)

lemma jobs_ok_remove:
  assumes "jobs_ok p" and "j < length (jobs_info p)"
  shows "jobs_ok (JobInfo_remove j p)"
proof -
  have q: "tasks (JobInfo_remove j p) = tasks p"
      "jobs_info (JobInfo_remove j p) = (jobs_info p)[j := (jobs_info p ! j)\<lparr>removed := True\<rparr>]"
    by (simp_all add: JobInfo_remove_def update_job_def Let_def split: option.split list.split)
  show ?thesis
    using assms unfolding jobs_ok_def under_way_def q by (auto simp: nth_list_update)
qed

lemma jobs_ok_start:
  assumes ok: "jobs_ok p" and start: "start_job st name p = Inr q"
  shows "jobs_ok q"
proof (cases "q = p")
  case False
  let ?n = "length (jobs_info p)"
  have last: "jobs_info p = [] \<or> job_ended (last (jobs_info p))"
    using start False by (auto simp: start_job_def split: if_splits)
  obtain b k where q: "jobs_info q = jobs_info p @ [b]" "tasks q = tasks p @ [k]" "job_of k = ?n"
    using start False
    by (auto simp: start_job_def onRoadButtonClicked_def addJob_def split: if_splits option.splits list.splits)
  have none: "under_way p ?n = 0"
    using ok by (auto simp: jobs_ok_def under_way_def filter_empty_conv)
  have now: "under_way q l = (if l = ?n then 1 else under_way p l)" for l
    using none q by (simp add: under_way_def)
  have "job_ended (jobs_info p ! l)" if "l < ?n" for l
  proof (cases "Suc l = ?n")
    case True
    then have "jobs_info p \<noteq> []" "l = ?n - 1" by auto
    with last show ?thesis by (simp add: last_conv_nth)
  next
    case False
    with that ok show ?thesis by (simp add: jobs_ok_def)
  qed
  with ok q now show ?thesis by (auto simp: jobs_ok_def nth_append less_Suc_eq)
qed (use ok in simp)

lemma jobs_ok_step:
  assumes ok: "jobs_ok p" and step: "job_step st href e p = Some q"
  shows "jobs_ok q"
proof (cases e)
  case (Start_job name)
  then show ?thesis using assms jobs_ok_start by (auto split: sum.splits)
next
  case (Remove_job j)
  then show ?thesis using assms jobs_ok_remove by (auto split: if_splits)
next
  case (Click_job j)
  then have "q = p \<or> tasks q = tasks p \<and> jobs_info q = jobs_info p"
    using step by (auto simp: click_job_def Let_def bind_eq_Some_conv split: if_splits)
  then show ?thesis using ok jobs_ok_view by blast
next
  case (Reply i status response)
  show ?thesis
  proof (cases "i < length (tasks p) \<and> \<not> waits (tasks p ! i)")
    case True
    then have "job_of (tasks p ! i) < length (jobs_info (take_task i p))" using ok by (simp add: jobs_ok_def)
    from jobs_ok_advance [OF ok _ reply_advances [OF this]] True Reply step show ?thesis by auto
  qed (use Reply step ok in auto)
next
  case (Timer i)
  then show ?thesis
    using jobs_ok_advance [OF ok _ timer_advances] step ok by (auto split: if_splits)
next
  case (Viewer_event x)
  then show ?thesis using step ok by (auto intro: jobs_ok_view)
qed

lemma jobs_ok_run: "job_run st href es p = Some q \<Longrightarrow> jobs_ok p \<Longrightarrow> jobs_ok q"
proof (induction es arbitrary: p)
  case (Cons e es)
  from Cons.prems(1) obtain u where "job_step st href e p = Some u" "job_run st href es u = Some q"
    by (auto simp: bind_eq_Some_conv)
  then show ?case using Cons.IH jobs_ok_step Cons.prems(2) by blast
qed simp


section \<open>Trees that stay and jobs that block\<close>

text \<open>C38. Two flaws of the jobs. If a job is removed while the metadata of its new tree is being loaded, the
  tree is added to the viewer, and shown, when the reply arrives, although the job is gone. If the
  first tree was removed, the start button throws after it has entered the new job in the list: nothing
  is under way for the job, and no other job can be started.\<close>

theorem job_flaws:
  assumes "i < length (tasks p)" "tasks p ! i = Loading_metadata j t" "j < length (jobs_info p)"
    and "jobs_info b = [] \<or> job_ended (last (jobs_info b))" "v_selection (view b) = Some sel"
    and "v_cam (view b) = Some cam" "\<not> isPoint sel" "v_trees (view b) = None # ts" "name \<noteq> ''''"
  shows "(\<exists>q tr. job_step st href (Reply i 200 file) (JobInfo_remove j p) = Some q \<and>
      v_trees (view q) = v_trees (view (JobInfo_remove j p)) @ [Some tr] \<and> t_name tr = t \<and> t_enabled tr \<and>
      removed (jobs_info q ! j)) \<and>
    (\<exists>q. start_job st name b = Inl q \<and> length (jobs_info q) = Suc (length (jobs_info b)) \<and> tasks q = tasks b \<and>
      start_job st other q = Inr q)"
proof -
  let ?r = "JobInfo_remove j p"
  have r: "tasks ?r = tasks p" "removed (jobs_info ?r ! j)" "length (jobs_info ?r) = length (jobs_info p)"
    using assms(3) by (simp_all add: JobInfo_remove_def Let_def split: option.split list.split)
  have "v_trees (addTree st t m v) = v_trees v @ [Some (TreeInfo st t m [1, 0, 0])]" for m v
    by (simp add: addTree_def start_camera_def Let_def triggerFrustumUpdate_def)
  then have "\<exists>q tr. job_step st href (Reply i 200 file) ?r = Some q \<and> v_trees (view q) = v_trees (view ?r) @ [Some tr] \<and>
      t_name tr = t \<and> t_enabled tr \<and> removed (jobs_info q ! j)"
    using assms(1,2) r by (simp add: metadata_reply_def Let_def) (simp add: TreeInfo_def)
  moreover
  obtain vp where vp: "lookAt st cam sel = Some vp"
    using assms(7) by (auto simp: isPoint_def lookAt_def Let_def)
  let ?q = "addJob st name vp b"
  have "start_job st name b = Inl ?q"
    using assms(4-6,8,9) vp by (auto simp: start_job_def onRoadButtonClicked_def addJob_def)
  moreover have "start_job st other ?q = Inr ?q"
    by (simp add: start_job_def addJob_def JobInfo_def job_ended_def)
  moreover have "length (jobs_info ?q) = Suc (length (jobs_info b))" "tasks ?q = tasks b" by (simp_all add: addJob_def)
  ultimately show ?thesis by blast
qed

text \<open>A page with a selected box and one tree, and the same page after the tree was removed.\<close>

definition demo_selection :: selection where
  "demo_selection = setEndPoint f64 (vec3 (1, 0, -1))
     (Selection f64 (vec3 (0, 0, -8)) (frame_matrix (1, 0, 0) (0, 1, 0) (0, 0, 1)) (vec3 (2, 3, 4)))"

definition demo_viewer :: viewer where
  "demo_viewer = new_viewer\<lparr>v_cam := Some demo_camera, v_selection := Some demo_selection,
     v_trees := [Some (TreeInfo f64 ''tahoe'' (metadata_defaults f64) [1, 0, 0])]\<rparr>"

lemma demo_viewer_simps [simp]:
  "v_cam demo_viewer = Some demo_camera" "v_selection demo_viewer = Some demo_selection"
  "v_trees demo_viewer = [Some (TreeInfo f64 ''tahoe'' (metadata_defaults f64) [1, 0, 0])]"
  "isPoint demo_selection = False"
  by (simp_all add: demo_viewer_def demo_selection_def isPoint_def setEndPoint_def Let_def)

lemma demo_selection_box: "\<exists>box. getBox st demo_selection = Some box" "\<exists>vp. lookAt st cam demo_selection = Some vp"
  by (simp_all add: demo_selection_def setEndPoint_def getBox_def lookAt_def Let_def)

lemma demo_start:
  "\<exists>p k. start_job f64 ''roads'' (new_page demo_viewer) = Inr p \<and> length (jobs_info p) = 1 \<and> tasks p = [Detecting 0 k]"
proof -
  obtain box vp where "getBox f64 demo_selection = Some box" "lookAt f64 demo_camera demo_selection = Some vp"
    using demo_selection_box by blast
  then show ?thesis by (simp add: start_job_def new_page_def onRoadButtonClicked_def addJob_def add_task_def)
qed


lemma job_flaws_witness:
  "\<exists>q. start_job f64 ''roads'' (new_page (demo_viewer\<lparr>v_trees := [None]\<rparr>)) = Inl q \<and>
     start_job f64 ''again'' q = Inr q"
  using job_flaws [of 0 "new_page demo_viewer\<lparr>jobs_info := [JobInfo ''a'' demo_camera], tasks := [Loading_metadata 0 ''t'']\<rparr>"
      0 "''t''" "new_page (demo_viewer\<lparr>v_trees := [None]\<rparr>)" demo_selection demo_camera "[]" "''roads''" f64 "''''" "''''" "''again''"]
  by (auto simp: new_page_def)

end
