(* ===== verification/Opening.thy ===== *)
theory Opening
  imports Jobs
begin

text \<open>
  The time between the opening of the page and the moment its shaders are loaded (\<open>start\<close> and \<open>onProgramLoaded\<close> of
  \<open>js/index.js\<close>). The listeners are there as soon as there is a camera, and the window can be resized, but a handler that reads
  \<open>currProgram.u\<close> throws: the variable is not set yet. \<open>program_event\<close> and \<open>program_job\<close> say which handlers do; theory WholePage
  uses them. For the keys of the near plane and for a resize the state that the exception leaves behind is modelled too, since
  the page goes on with it: \<open>early_events\<close>.
\<close>

section \<open>Handlers that need the programs\<close>

fun program_event :: "page_event \<Rightarrow> viewer \<Rightarrow> bool" where
  "program_event (Key _ k) v = (k = 27 \<or> k = 73 \<or> k = 79 \<or> k = 80)"
| "program_event (Mouse_move _) v = (mouseButtonDown v = 4)"
| "program_event (Scroll _) v = custom_clipping v"
| "program_event (FF_wheel _) v = custom_clipping v"
| "program_event (Wheel _) v = custom_clipping v"
| "program_event (Resize _ _) v = True"
| "program_event _ v = False"

text \<open>The tree of a job that was not removed clears the selection.\<close>

fun program_job :: "job_event \<Rightarrow> page \<Rightarrow> bool" where
  "program_job (Viewer_event e) p = program_event e (view p)"
| "program_job (Reply i status _) p =
     (i < length (tasks p) \<and> status = 200 \<and>
      (case tasks p ! i of Loading_metadata j _ \<Rightarrow> \<not> removed (jobs_info p ! j) | _ \<Rightarrow> False))"
| "program_job _ p = False"

text \<open>A step of the page, before (\<open>False\<close>) or after the shaders are loaded.\<close>

definition page_step :: "(jsnum \<Rightarrow> jsnum) \<Rightarrow> string \<Rightarrow> bool \<Rightarrow> job_event \<Rightarrow> page \<Rightarrow> page option" where
  "page_step st href loaded e p = (if \<not> loaded \<and> program_job e p then None else job_step st href e p)"

lemma page_step_Some: "page_step st href loaded e p = Some p' \<longleftrightarrow>
    (loaded \<or> \<not> program_job e p) \<and> job_step st href e p = Some p'"
  by (simp add: page_step_def)

section \<open>What an exception leaves behind\<close>

text \<open>\<open>setProjectionMatrix\<close> has set one global when it throws.\<close>

definition left_by_projection :: "(jsnum \<Rightarrow> jsnum) \<Rightarrow> viewer \<Rightarrow> viewer" where
  "left_by_projection st v = v\<lparr>projectionMatrix := default_projection st v\<rparr>"

definition left_by_key :: "(jsnum \<Rightarrow> jsnum) \<Rightarrow> nat \<Rightarrow> viewer \<Rightarrow> viewer" where
  "left_by_key st keyCode v =
     (if keyCode = 73 then left_by_projection st (v\<lparr>custom_clipping := False, near_plane_distance := 1\<rparr>)
      else if keyCode = 79 then
        (let v = v\<lparr>near_plane_distance := near_plane_distance v - Fin 0.5\<rparr>
         in left_by_projection st (v\<lparr>near_plane_distance := Math_max 1 (near_plane_distance v)\<rparr>))
      else if keyCode = 80 then
        left_by_projection st (v\<lparr>near_plane_distance := near_plane_distance v + Fin 0.5\<rparr>)
      else v)"

definition left_by_resize :: "(jsnum \<Rightarrow> jsnum) \<Rightarrow> jsnum \<Rightarrow> jsnum \<Rightarrow> viewer \<Rightarrow> viewer" where
  "left_by_resize st innerWidth innerHeight v =
     (let v = v\<lparr>canvas_height := innerHeight - 20, canvas_width := innerWidth - 20\<rparr>
      in left_by_projection st
           (v\<lparr>min_box_size := (2 * Math_tan ((fov / 2) * Math_PI / 180)) / canvas_height v\<rparr>))"

section \<open>Properties\<close>

text \<open>What a resize reads of the state before it: nothing that an earlier one has set.\<close>

lemma resize_again:
  "onWindowResize st w h (v\<lparr>canvas_height := a, canvas_width := b\<rparr>) = onWindowResize st w h v"
  "onWindowResize st w h (v\<lparr>min_box_size := c\<rparr>) = onWindowResize st w h v"
  "onWindowResize st w h (v\<lparr>projectionMatrix := m\<rparr>) = onWindowResize st w h v"
  by (cases v; simp add: onWindowResize_def onCanvasResize_def page_setProjectionMatrix_def)+

lemma loaded_after_resize: "onProgramLoaded st w h (left_by_resize st w' h' v) = onProgramLoaded st w h v"
  by (simp only: onProgramLoaded_def left_by_resize_def left_by_projection_def Let_def resize_again)

lemma onProgramLoaded_fields [simp]:
  "custom_clipping (onProgramLoaded st w h v) = custom_clipping v"
  "near_plane_distance (onProgramLoaded st w h v) = near_plane_distance v" "v_cam (onProgramLoaded st w h v) = v_cam v"
  by (simp_all add: onProgramLoaded_def onWindowResize_def onCanvasResize_def page_setProjectionMatrix_def
    triggerFrustumUpdate_def Let_def)

lemma loaded_projection: "projection_ok st (onProgramLoaded st w h v)"
  by (simp add: onProgramLoaded_def onWindowResize_def onCanvasResize_def Let_def)
    (simp add: projection_ok_def projection_of_def page_setProjectionMatrix_def triggerFrustumUpdate_def Let_def)

lemma scroll_keeps_plane:
  "\<not> custom_clipping v \<Longrightarrow> mouseScroll st d v = Some w \<Longrightarrow> near_plane_distance w = near_plane_distance v"
  by (cases "v_cam v") (simp_all add: mouseScroll_def move_camera_def triggerFrustumUpdate_def Let_def split: if_splits, auto)



end
