(* ===== verification/WholePage.thy ===== *)
theory WholePage
  imports ShownResults Opening
begin

text \<open>
  The page as a whole (\<open>js/index.js\<close>): the viewer with its jobs, the querier, and the screen, and how they are tied
  together. The handlers of the user set a timer, which asks the querier for the cells of the current view; the
  replies of the server make it walk on, and its two callbacks put the result where \<open>renderLoop\<close> finds it in the next
  frame; the querier is told every change of the projection. Between the opening of the page and the moment the shaders are loaded there
  are no frames, and the handlers that need the programs throw (theory Opening).

  The invariant \<open>world_ok\<close> holds in every reachable state. It gives \<open>page_shows_results\<close>: every frame draws the last
  result of the query and does not throw.
\<close>

section \<open>State and events\<close>

text \<open>The records of the trees are objects: a callback that captured one keeps it when the tree is removed.\<close>

record world =
  w_page :: page
  w_querier :: querier
  w_screen :: screen
  w_objects :: "nat \<Rightarrow> tree_info"
  w_loaded :: bool

definition tree_objects :: "viewer \<Rightarrow> (nat \<Rightarrow> tree_info) \<Rightarrow> nat \<Rightarrow> tree_info" where
  "tree_objects v f i =
     (if i < length (v_trees v) then
        (case v_trees v ! i of Some t \<Rightarrow> tree_info.truncate t | None \<Rightarrow> f i)
      else f i)"

text \<open>The globals that the querier reads.\<close>

definition page_config :: "(jsnum \<Rightarrow> jsnum) \<Rightarrow> (nat \<Rightarrow> tree_info) \<Rightarrow> viewer \<Rightarrow> config" where
  "page_config st f v =
     \<lparr>store = st, desired_cell_count = desired_count v, min_box_size_meters = min_box_size v,
      RUN_ON_CACHE_ONLY = cache_only v, trees = f,
      trees_info = map (\<lambda>i. if v_trees v ! i = None then None else Some i) [0..<length (v_trees v)]\<rparr>"

text \<open>Both callbacks of the query do the same.\<close>

definition show_results :: "querier \<Rightarrow> querier \<Rightarrow> viewer \<Rightarrow> viewer" where
  "show_results q q' v =
     (if length (outputs q) < length (outputs q') then v\<lparr>currentCells := Some (report_cells (last (outputs q')))\<rparr> else v)"

datatype world_error = Handler_throws | Query_throws qerror | Frame_throws

text \<open>
  Events: the user and the replies for jobs, the timer of the query, the events of the querier, the moment the shaders are
  loaded (with the size of the window), and a frame. The numbers are the fuel of the query. What theory Viewer has as events of its own for the timer and the callback does not happen here.
\<close>

datatype world_event = User_event job_event | Query_timeout nat | Query_event nat event
  | Shaders_loaded jsnum jsnum | Frame

fun user_event :: "job_event \<Rightarrow> bool" where
  "user_event (Viewer_event (Cells_shown _)) = False"
| "user_event (Viewer_event Trigger_done) = False"
| "user_event _ = True"

fun server_event :: "event \<Rightarrow> bool" where
  "server_event (GetFrustum _ _) = False"
| "server_event (SetProjection _) = False"
| "server_event _ = True"

definition tell_querier :: "page \<Rightarrow> world \<Rightarrow> world" where
  "tell_querier p w =
     w\<lparr>w_page := p, w_querier := setProjectionMatrix (query_projection (view p)) (w_querier w),
       w_objects := tree_objects (view p) (w_objects w)\<rparr>"

definition world_config :: "(jsnum \<Rightarrow> jsnum) \<Rightarrow> world \<Rightarrow> config" where
  "world_config st w = page_config st (w_objects w) (view (w_page w))"

definition set_view :: "viewer \<Rightarrow> world \<Rightarrow> world" where
  "set_view v w = w\<lparr>w_page := (w_page w)\<lparr>view := v\<rparr>\<rparr>"

fun world_step :: "(jsnum \<Rightarrow> jsnum) \<Rightarrow> string \<Rightarrow> world_event \<Rightarrow> world \<Rightarrow> world_error + world" where
  "world_step st href (User_event e) w =
     (if user_event e then
        (case page_step st href (w_loaded w) e (w_page w) of None \<Rightarrow> Inl Handler_throws | Some p \<Rightarrow> Inr (tell_querier p w))
      else Inr w)"
| "world_step st href (Query_timeout n) w =
     (case frustum_timeout st (world_config st w) n (view (w_page w)) (w_querier w) of
        Inl e \<Rightarrow> Inl (Query_throws e)
      | Inr (v, q) \<Rightarrow> Inr (set_view (show_results (w_querier w) q v) (w\<lparr>w_querier := q\<rparr>)))"
| "world_step st href (Query_event n e) w =
     (if server_event e \<and> enabled e (w_querier w) then
        (case handle (world_config st w) n e (w_querier w) of
           Inl e \<Rightarrow> Inl (Query_throws e)
         | Inr q \<Rightarrow> Inr (set_view (show_results (w_querier w) q (view (w_page w))) (w\<lparr>w_querier := q\<rparr>)))
      else Inr w)"
| "world_step st href (Shaders_loaded width height) w =
     (if w_loaded w then Inr w
      else Inr (tell_querier ((w_page w)\<lparr>view := onProgramLoaded st width height (view (w_page w))\<rparr>) (w\<lparr>w_loaded := True\<rparr>)))"
| "world_step st href Frame w =
     (if w_loaded w then
        (case renderLoop st (view (w_page w)) (w_screen w) of
           None \<Rightarrow> Inl Frame_throws
         | Some (v, s) \<Rightarrow> Inr (set_view v (w\<lparr>w_screen := s\<rparr>)))
      else Inr w)"

fun world_run :: "(jsnum \<Rightarrow> jsnum) \<Rightarrow> string \<Rightarrow> world_event list \<Rightarrow> world \<Rightarrow> world_error + world" where
  "world_run st href [] w = Inr w"
| "world_run st href (e # es) w = (case world_step st href e w of Inl err \<Rightarrow> Inl err | Inr w' \<Rightarrow> world_run st href es w')"

text \<open>
  The page when it is opened: \<open>start\<close> has made the querier with the first projection and the cache for ten thousand
  cells. \<open>cs\<close> is the memory for cells and \<open>f\<close> that for trees.
\<close>

definition opened_page ::
    "(jsnum \<Rightarrow> jsnum) \<Rightarrow> string \<Rightarrow> jsnum \<times> jsnum \<Rightarrow> (addr \<Rightarrow> cell) \<Rightarrow> (nat \<Rightarrow> tree_info) \<Rightarrow> world" where
  "opened_page st query canvas cs f =
     (let v = start_page st query canvas
      in \<lparr>w_page = new_page v, w_querier = FrustumQuerier_new (page_config st f v) (projectionMatrix v) cs 10000,
          w_screen = empty_screen, w_objects = f, w_loaded = False\<rparr>)"

section \<open>What a frame draws is kept by every other event\<close>

text \<open>Nothing but a result of the query and the frames themselves touches what is on the screen; a new measurement has no buffer yet.\<close>

definition draw_kept :: "viewer \<Rightarrow> viewer \<Rightarrow> bool" where
  "draw_kept v w \<longleftrightarrow>
     currentCells w = currentCells v \<and>
     (\<forall>m \<in> set (allMeasurements w). m \<in> set (allMeasurements v) \<or> ms_vbo m = None) \<and>
     (\<exists>k. selection_cloud w = selection_cloud v \<or> selection_cloud w = cloud_setupGL k)"

interpretation drawn: kept draw_kept
proof unfold_locales
  fix u v w
  assume "draw_kept u v" and "draw_kept v w"
  then show "draw_kept u w"
    unfolding draw_kept_def by metis
qed (auto simp: draw_kept_def)

lemma draw_projection: "draw_kept u (page_setProjectionMatrix st v) = draw_kept u v"
  by (simp add: page_setProjectionMatrix_def Let_def triggerFrustumUpdate_def draw_kept_def)

lemma draw_near [simp]:
  "draw_kept u (v\<lparr>near_plane_distance := x\<rparr>) = draw_kept u v" "draw_kept u (v\<lparr>custom_clipping := b\<rparr>) = draw_kept u v"
  "draw_kept u (v\<lparr>canvas_height := x\<rparr>) = draw_kept u v" "draw_kept u (v\<lparr>canvas_width := x\<rparr>) = draw_kept u v"
  "draw_kept u (v\<lparr>min_box_size := x\<rparr>) = draw_kept u v" "draw_kept u (v\<lparr>projectionMatrix := m\<rparr>) = draw_kept u v"
  "draw_kept u (v\<lparr>v_trees := ts\<rparr>) = draw_kept u v" "draw_kept u (v\<lparr>desired_count := x\<rparr>) = draw_kept u v"
  by (simp_all add: draw_kept_def)

lemma draw_resize: "draw_kept v (onWindowResize st w h v)"
  by (simp add: onWindowResize_def onCanvasResize_def draw_projection drawn.same)

lemma draw_loaded: "draw_kept v (onProgramLoaded st w h v)"
  unfolding onProgramLoaded_def Let_def
  by (rule drawn.trigger) (metis draw_near(6) draw_resize drawn.same drawn.trans)

lemma draw_scroll: "drawn.keeps v (mouseScroll st d v)"
  unfolding mouseScroll_def Let_def
  by (rule drawn.keeps_bind, rule drawn.keeps_from [OF drawn.keeps_move]) (simp add: draw_projection drawn.changes)

lemma draw_keys: "k = 73 \<or> k = 79 \<or> k = 80 \<Longrightarrow> drawn.keeps v (onKeyDown st href shift k v)"
  by (elim disjE) (simp_all add: onKeyDown_def Let_def draw_projection drawn.same)

lemma draw_event:
  assumes "\<forall>cs. e \<noteq> Cells_shown cs"
  shows "drawn.keeps v (handle_event st href e v)"
proof (cases "quiet e")
  case False
  with assms show ?thesis
    by (cases e) (simp_all add: draw_keys draw_scroll draw_resize onFFMouseWheel_def onMouseWheel_def
      onPointCountSliderMove_def drawn.changes)
qed (rule drawn.keeps_quiet)

section \<open>Jobs and the page\<close>

lemma removed_tree:
  shows "draw_kept v (remove_tree name v)" and "view_part (remove_tree name v) = view_part v"
proof -
  define f where "f = (\<lambda>v i. case v_trees v ! i of None \<Rightarrow> v
    | Some t \<Rightarrow> if t_name t = name then triggerFrustumUpdate (v\<lparr>v_trees := (v_trees v)[i := None]\<rparr>) else v)"
  have f: "draw_kept u v \<Longrightarrow> draw_kept u (f v i)" "view_part (f v i) = view_part v" for u v i
    by (auto simp: f_def drawn.changes view_part_def triggerFrustumUpdate_def split: option.split)
  have "draw_kept v (foldl f v is) \<and> view_part (foldl f v is) = view_part v" for "is"
    by (induction "is" rule: rev_induct) (simp_all add: f drawn.same)
  then show "draw_kept v (remove_tree name v)" "view_part (remove_tree name v) = view_part v"
    by (simp_all add: remove_tree_def f_def)
qed

text \<open>A step that leaves alone what the frames draw and what the projection reads.\<close>

definition calm :: "viewer \<Rightarrow> viewer \<Rightarrow> bool" where
  "calm v w \<longleftrightarrow> draw_kept v w \<and> view_part w = view_part v"

lemma calm_same [simp]: "calm v v"
  by (simp add: calm_def drawn.same)

lemma calm_kept: "drawn.keeps v r \<Longrightarrow> part.keeps v r \<Longrightarrow> r = Some w \<Longrightarrow> calm v w"
  by (simp add: calm_def)

lemma metadata_view: "calm (view p) (view (metadata_reply st j t response p))"
proof -
  have "draw_kept v (w\<lparr>v_trees := ts\<rparr>)" "draw_kept v (clearSelection st (w\<lparr>v_trees := ts\<rparr>))"
    and "view_part (clearSelection st (w\<lparr>v_trees := ts\<rparr>)) = view_part w"
    if "draw_kept v w" for v w ts
    using that by (simp_all add: drawn.changes drawn.cleared view_part_def clearSelection_def)
  from this [OF drawn.add_tree] drawn.add_tree show ?thesis
    unfolding calm_def by (simp add: metadata_reply_def Let_def part.add_tree)
qed

lemma start_job_view: "start_job st name p = Inr p' \<Longrightarrow> view p' = view p"
  by (auto simp: start_job_def onRoadButtonClicked_def addJob_def split: if_splits option.splits list.splits)

lemma reply_view: "calm (view p) (view (reply st k status response p))"
  using metadata_view
  by (cases k) (simp_all add: job_failed_def progress_reply_def completion_reply_def detection_done_def serveNewTree_def
    pollRoadDetectionProgress_def pollRoadDetectionCompletion_def Let_def)

lemma timer_view: "view (timer_fires k p) = view p"
  by (cases k) (simp_all add: pollRoadDetectionProgress_def pollRoadDetectionCompletion_def)

lemma remove_view: "calm (view p) (view (JobInfo_remove j p))"
  by (simp add: JobInfo_remove_def Let_def calm_def removed_tree drawn.same split: option.split list.split)

text \<open>Before the programs are there, the handlers that do not throw are calm; after that, all of them keep the view consistent.\<close>

lemma calm_event:
  assumes "\<not> program_event e v" and "handle_event st href e v = Some w" and "\<forall>cs. e \<noteq> Cells_shown cs"
  shows "calm v w"
proof (cases "quiet e")
  case True
  with assms(2) show ?thesis
    using calm_kept [OF drawn.keeps_quiet part.keeps_quiet] by blast
next
  case False
  have "calm v w" if plane: "\<not> custom_clipping v" and scroll: "mouseScroll st d v = Some w" for d
  proof -
    obtain cam where "v_cam v = Some cam"
      using scroll by (cases "v_cam v") (simp_all add: mouseScroll_def)
    with plane scroll have "move_camera (goCloser (d * Fin 0.01 * distance (stopProfile cam) / 10)) (v\<lparr>v_cam := Some (stopProfile cam)\<rparr>) = Some w"
      by (simp add: mouseScroll_def Let_def)
    with calm_kept [OF drawn.keeps_move part.keeps_move this] show ?thesis
      using drawn.trans [OF drawn.camera(1)] by (auto simp: calm_def)
  qed
  with False assms show ?thesis
    by (cases e) (auto simp: onFFMouseWheel_def onMouseWheel_def onPointCountSliderMove_def calm_def drawn.same intro!: drawn.trigger)
qed

lemma page_view:
  assumes "page_step st href loaded e p = Some p'" and "user_event e"
  shows "draw_kept (view p) (view p')" and "view_ok st (view p) \<Longrightarrow> view_ok st (view p')"
    and "\<not> loaded \<Longrightarrow> view_part (view p') = view_part (view p)"
proof -
  have job: "job_step st href e p = Some p'"
    using assms(1) by (simp add: page_step_Some)
  show "draw_kept (view p) (view p')" "view_ok st (view p) \<Longrightarrow> view_ok st (view p')"
    "\<not> loaded \<Longrightarrow> view_part (view p') = view_part (view p)"
  proof (atomize (full), cases "\<exists>x. e = Viewer_event x")
    case True
    then obtain x where x: "e = Viewer_event x" ..
    then have h: "handle_event st href x (view p) = Some (view p')" "\<forall>cs. x \<noteq> Cells_shown cs"
      using job assms(2) by (auto split: page_event.splits)
    have "calm (view p) (view p')" if "\<not> loaded"
      by (rule calm_event [OF _ h]) (use assms(1) x that in \<open>simp add: page_step_Some\<close>)
    with draw_event [of x "view p" st href] event_ok h
    show "draw_kept (view p) (view p') \<and> (view_ok st (view p) \<longrightarrow> view_ok st (view p')) \<and>
        (\<not> loaded \<longrightarrow> view_part (view p') = view_part (view p))"
      by (auto simp: calm_def)
  next
    case False
    have "calm (view p) (view p')"
    proof (cases e)
      case (Click_job j)
      then show ?thesis
        using job calm_kept [OF drawn.keeps_fly part.keeps_fly] by (auto simp: click_job_def split: if_splits)
    next
      case (Reply i status response)
      then show ?thesis
        using job reply_view [of "take_task i p"] by (auto split: if_splits)
    qed (use job False in \<open>auto simp: timer_view remove_view split: sum.splits if_splits dest: start_job_view\<close>)
    then show "draw_kept (view p) (view p') \<and> (view_ok st (view p) \<longrightarrow> view_ok st (view p')) \<and>
        (\<not> loaded \<longrightarrow> view_part (view p') = view_part (view p))"
      using view_ok_cong [of "view p'" "view p" st] by (simp add: calm_def)
  qed
qed

section \<open>What the querier is told, and what it tells\<close>

interpretation told: query_events cfg "\<lambda>s. frustum_planes s = planes \<and> cameraMatrix s = camera" for cfg planes camera
proof unfold_locales
  fix a s go s'
  assume "frustum_planes s = planes \<and> cameraMatrix s = camera" and "begin_cell cfg a s = (go, s')"
  from this(2,1) show "frustum_planes s' = planes \<and> cameraMatrix s' = camera"
    by (cases rule: begin_cell_cases) (simp_all add: cancel_def)
next
  fix s i b c kont s'
  assume "frustum_planes s = planes \<and> cameraMatrix s = camera"
    and "deliver cfg kont b (s\<lparr>inFlight := inFlight s + 1, cell_cache := c\<rparr>) = Inr s'"
  from this(2,1) show "frustum_planes s' = planes \<and> cameraMatrix s' = camera"
    by (cases rule: deliver_cases) simp
next
  fix s x r b bytes cs nc c s'
  assume "frustum_planes s = planes \<and> cameraMatrix s = camera"
    and "deliver cfg (r_cont r) b (s\<lparr>xhrs := (xhrs s)(x := None), bytes_downloaded := bytes,
        cells := cs, next_cell := nc, cell_cache := c\<rparr>) = Inr s'"
  from this(2,1) show "frustum_planes s' = planes \<and> cameraMatrix s' = camera"
    by (cases rule: deliver_cases) simp
qed (simp_all add: hide_child_def update_cell_def send_request_def end_queue_def Let_def)

interpretation reports: query_restarts cfg "\<lambda>s. prefix rs (outputs s)" for cfg rs
proof unfold_locales
  fix a s go s'
  assume "prefix rs (outputs s)" and "begin_cell cfg a s = (go, s')"
  from this(2,1) show "prefix rs (outputs s')"
    by (cases rule: begin_cell_cases) (simp_all add: cancel_def)
next
  fix s i b c kont s'
  assume "prefix rs (outputs s)" and "deliver cfg kont b (s\<lparr>inFlight := inFlight s + 1, cell_cache := c\<rparr>) = Inr s'"
  from this(2,1) show "prefix rs (outputs s')"
    by (cases rule: deliver_cases) simp
next
  fix s x r b bytes cs nc c s'
  assume "prefix rs (outputs s)" and "deliver cfg (r_cont r) b (s\<lparr>xhrs := (xhrs s)(x := None), bytes_downloaded := bytes,
        cells := cs, next_cell := nc, cell_cache := c\<rparr>) = Inr s'"
  from this(2,1) show "prefix rs (outputs s')"
    by (cases rule: deliver_cases) simp
qed (simp_all add: hide_child_def update_cell_def send_request_def end_queue_def start_query_def cancel_def Let_def)

lemma reports_grow:
  assumes "handle cfg n e s = Inr s'"
  shows "prefix (outputs s) (outputs s')"
proof (cases "\<exists>x. e = LoadFailed x")
  case True
  with assms show ?thesis
    by (auto simp: handle_def)
next
  case False
  with reports.handle_keeps [OF _ assms, of "outputs s"] show ?thesis
    by simp
qed

text \<open>A query looks through the planes that the querier was told last, and from the camera that it was given.\<close>

lemma told_trigger:
  assumes "triggerFrustum cfg n i s = Inr s'"
  shows "frustum_planes s' = frustum_planes s \<and> cameraMatrix s' = cameraMatrix s"
proof (cases "last_trigger s \<noteq> 0 \<and> i \<noteq> last_trigger s")
  case False
  have "frustum_planes (start_query cfg i s) = frustum_planes s \<and> cameraMatrix (start_query cfg i s) = cameraMatrix s"
    by (simp add: start_query_def cancel_def Let_def)
  from told.triggerFrustum_holds [OF False this, where n = n] assms show ?thesis
    by (simp add: told.holds_simps)
qed (use assms in \<open>simp add: triggerFrustum_def\<close>)

lemma told_server:
  assumes "handle cfg n e s = Inr s'" and "server_event e"
  shows "frustum_planes s' = frustum_planes s \<and> cameraMatrix s' = cameraMatrix s"
proof (cases e)
  case (Loaded x response)
  with assms told.Loaded_keeps [of s "frustum_planes s" "cameraMatrix s"] show ?thesis
    by simp
next
  case (TimerFired i)
  show ?thesis
  proof (cases "timers s ! i")
    case ProcessTimer
    with assms TimerFired told.ProcessTimer_keeps [of s "frustum_planes s" "cameraMatrix s"] show ?thesis
      by simp
  next
    case (TriggerTimer k)
    with assms TimerFired show ?thesis
      using told_trigger [of cfg n k] by (fastforce simp: handle_def Let_def)
  qed
qed (use assms in \<open>auto simp: handle_def\<close>)

lemma timeout_handled:
  assumes "frustum_timeout st cfg n v s = Inr (v', s')"
  shows "(v_cam v = None \<or> existing_frustum_trigger v = None) \<and> v' = v \<and> s' = s \<or>
    (\<exists>cam gm. v_cam v = Some cam \<and> existing_frustum_trigger v = Some gm \<and> v' = v\<lparr>existing_frustum_trigger := None\<rparr> \<and>
       handle cfg n (GetFrustum (getMatrix st cam) gm) s = Inr s' \<and>
       frustum_planes s' = frustum_planes s \<and> cameraMatrix s' = getMatrix st cam)"
proof (cases "v_cam v"; cases "existing_frustum_trigger v")
  fix cam gm
  assume v: "v_cam v = Some cam" "existing_frustum_trigger v = Some gm"
  with assms have s': "v' = v\<lparr>existing_frustum_trigger := None\<rparr>" "getFrustum cfg n (getMatrix st cam) gm s = Inr s'"
    by (auto simp: frustum_timeout_def bind_res_Inr_iff)
  from told_trigger [OF this(2) [unfolded getFrustum_def]] s' v show ?thesis
    by (auto simp: handle_def)
qed (use assms in \<open>simp_all add: frustum_timeout_def\<close>)

section \<open>The invariant of the page\<close>

definition without_buffer :: "cell \<Rightarrow> cell" where
  "without_buffer c = c\<lparr>vbo := None\<rparr>"

text \<open>The cells on the screen are those of the last report, but that frames may have given them buffers.\<close>

definition shows_report :: "viewer \<Rightarrow> querier \<Rightarrow> screen \<Rightarrow> bool" where
  "shows_report v q s \<longleftrightarrow>
     (case currentCells v of
        None \<Rightarrow> outputs q = []
      | Some cs \<Rightarrow> outputs q \<noteq> [] \<and> map without_buffer cs = report_cells (last (outputs q)) \<and> (\<forall>c \<in> set cs. cell_ready s c))"

lemma shows_report_cong:
  "currentCells v' = currentCells v \<Longrightarrow> outputs q' = outputs q \<Longrightarrow> shows_report v' q' s = shows_report v q s"
  by (simp add: shows_report_def split: option.split)

definition screen_ok :: "viewer \<Rightarrow> querier \<Rightarrow> screen \<Rightarrow> bool" where
  "screen_ok v q s \<longleftrightarrow>
     bare q \<and> shows_report v q s \<and> (\<forall>m \<in> set (allMeasurements v). measurement_ready s m) \<and>
     vertex_buffer (selection_cloud v) \<noteq> None \<and> color_buffer (selection_cloud v) \<noteq> None"

text \<open>The projection is in order once the shaders are loaded.\<close>

definition page_ok :: "(jsnum \<Rightarrow> jsnum) \<Rightarrow> bool \<Rightarrow> viewer \<Rightarrow> bool" where
  "page_ok st loaded v \<longleftrightarrow> clipping_ok v \<and> (loaded \<longrightarrow> projection_ok st v)"

lemma page_ok_loaded: "page_ok st True v = view_ok st v"
  by (simp add: page_ok_def view_ok_def)

lemma page_ok_cong: "view_part v = view_part w \<Longrightarrow> page_ok st loaded v = page_ok st loaded w"
  by (simp add: page_ok_def view_part_def clipping_ok_def projection_ok_def projection_of_def)

definition world_ok :: "(jsnum \<Rightarrow> jsnum) \<Rightarrow> world \<Rightarrow> bool" where
  "world_ok st w \<longleftrightarrow>
     page_ok st (w_loaded w) (view (w_page w)) \<and>
     frustum_planes (w_querier w) = extract_frustum_planes (query_projection (view (w_page w))) \<and>
     screen_ok (view (w_page w)) (w_querier w) (w_screen w)"

lemma tell_querier_simps [simp]:
  "w_page (tell_querier p w) = p" "w_screen (tell_querier p w) = w_screen w" "w_loaded (tell_querier p w) = w_loaded w"
  "frustum_planes (w_querier (tell_querier p w)) = extract_frustum_planes (query_projection (view p))"
  "outputs (w_querier (tell_querier p w)) = outputs (w_querier w)" "bare (w_querier (tell_querier p w)) = bare (w_querier w)"
  by (simp_all add: tell_querier_def setProjectionMatrix_def bare_def)

lemma screen_user:
  assumes "screen_ok v q s" and "draw_kept v v'" and "outputs q' = outputs q" and "bare q'"
  shows "screen_ok v' q' s"
proof -
  have "\<forall>m \<in> set (allMeasurements v'). measurement_ready s m"
    using assms(1,2) by (auto simp: screen_ok_def draw_kept_def measurement_ready_def)
  moreover have "vertex_buffer (selection_cloud v') \<noteq> None" "color_buffer (selection_cloud v') \<noteq> None"
    using assms(1,2) by (auto simp: screen_ok_def draw_kept_def cloud_setupGL_def)
  ultimately show ?thesis
    using assms shows_report_cong [of v' v q' q s] by (simp add: screen_ok_def draw_kept_def)
qed

lemma screen_tell:
  "screen_ok v (w_querier w) s \<Longrightarrow> draw_kept v (view p) \<Longrightarrow> screen_ok (view p) (w_querier (tell_querier p w)) s"
  by (rule screen_user) (simp_all add: screen_ok_def)

lemma bare_report: "bare q \<Longrightarrow> r \<in> set (outputs q) \<Longrightarrow> c \<in> set (report_cells r) \<Longrightarrow> vbo c = None"
  by (auto simp: bare_def)

lemma screen_query:
  assumes "screen_ok v q s" and "prefix (outputs q) (outputs q')" and "bare q'"
  shows "screen_ok (show_results q q' v) q' s"
proof (cases "length (outputs q) < length (outputs q')")
  case True
  then have "outputs q' \<noteq> []"
    by auto
  then have "\<forall>c \<in> set (report_cells (last (outputs q'))). vbo c = None"
    using bare_report [OF assms(3)] last_in_set by blast
  then have "map without_buffer (report_cells (last (outputs q'))) = report_cells (last (outputs q'))"
    and "\<forall>c \<in> set (report_cells (last (outputs q'))). cell_ready s c"
    by (auto intro!: map_idI simp: without_buffer_def cell_ready_def)
  with True \<open>outputs q' \<noteq> []\<close> assms(1,3) show ?thesis
    by (simp add: screen_ok_def shows_report_def show_results_def)
next
  case False
  then have "outputs q' = outputs q"
    using assms(2) by (auto simp: prefix_def)
  with assms(1,3) False shows_report_cong [of v v q' q s] show ?thesis
    by (simp add: screen_ok_def show_results_def)
qed

lemma same_picture: "list_all2 (loaded_cell s) cs cs' \<Longrightarrow> map without_buffer cs' = map without_buffer cs"
  by (induction rule: list_all2_induct) (auto simp: loaded_cell_def without_buffer_def)

text \<open>The next frame: what it draws, and that the screen stays in order.\<close>

definition shown_cells :: "viewer \<Rightarrow> cell list" where
  "shown_cells v = (case currentCells v of None \<Rightarrow> [] | Some cs \<Rightarrow> cs)"

lemma next_frame:
  assumes "screen_ok v q s" and "v_cam v = Some cam" and "M4x4_inverse st (getMatrix st cam) \<noteq> None"
  shows "\<exists>v' s' ds ms'. renderLoop st v s = Some (v', s') \<and> view_part v' = view_part v \<and> screen_ok v' q s' \<and>
    made s s' ds (map ms_vbo ms') \<and> map (picture s') ds = map picture_of (shown_cells v) \<and>
    list_all2 (loaded_measurement s') (allMeasurements v) ms'"
proof -
  have "can_draw st v cam (shown_cells v)"
    using assms by (auto simp: can_draw_def screen_ok_def shown_cells_def split: option.split)
  moreover have "\<forall>c \<in> set (shown_cells v). cell_ready s c" "\<forall>m \<in> set (allMeasurements v). measurement_ready s m"
    using assms(1) by (auto simp: screen_ok_def shows_report_def shown_cells_def split: option.splits)
  ultimately obtain cs' ms' s' ds where f:
    "renderLoop st v s = Some (v\<lparr>currentCells := map_option (\<lambda>_. cs') (currentCells v), allMeasurements := ms'\<rparr>, s')"
    "made s s' ds (map ms_vbo ms')" "map (picture s') ds = map picture_of (shown_cells v)"
    "list_all2 (loaded_cell s') (shown_cells v) cs'" "list_all2 (loaded_measurement s') (allMeasurements v) ms'"
    using frame by metis
  let ?v = "v\<lparr>currentCells := map_option (\<lambda>_. cs') (currentCells v), allMeasurements := ms'\<rparr>"
  have "shows_report ?v q s'"
    using assms(1) all_loaded(1) [OF f(4)] same_picture [OF f(4)]
    by (auto simp: screen_ok_def shows_report_def shown_cells_def split: option.splits)
  then have "screen_ok ?v q s'"
    using assms(1) all_loaded(2) [OF f(5)] by (simp add: screen_ok_def)
  moreover have "view_part ?v = view_part v"
    by (simp add: view_part_def)
  ultimately show ?thesis
    using f by blast
qed

text \<open>Every event keeps the invariant; first the querier, with a result for the page.\<close>

lemma query_keeps:
  assumes "world_ok st w" and "handle cfg n ev (w_querier w) = Inr q" and "frustum_planes q = frustum_planes (w_querier w)"
    and "view_part v = view_part (view (w_page w))" and "screen_ok v (w_querier w) (w_screen w)"
  shows "world_ok st (set_view (show_results (w_querier w) q v) (w\<lparr>w_querier := q\<rparr>))"
proof -
  have "bare q"
    using bare_handle [OF _ assms(2)] assms(5) by (simp add: screen_ok_def)
  then have s: "screen_ok (show_results (w_querier w) q v) q (w_screen w)"
    using screen_query [OF assms(5) reports_grow [OF assms(2)]] by blast
  have part: "view_part (show_results (w_querier w) q v) = view_part (view (w_page w))"
    using assms(4) by (simp add: show_results_def)
  then have "page_ok st (w_loaded w) (show_results (w_querier w) q v)"
    using assms(1) page_ok_cong [OF part] by (simp add: world_ok_def)
  moreover have "query_projection (show_results (w_querier w) q v) = query_projection (view (w_page w))"
    using part by (simp add: view_part_def)
  ultimately show ?thesis
    using assms(1,3) s by (simp add: world_ok_def set_view_def)
qed

lemma user_keeps:
  assumes "world_ok st w" and "page_step st href (w_loaded w) e (w_page w) = Some p" and "user_event e"
  shows "world_ok st (tell_querier p w)"
proof -
  note p = page_view [OF assms(2,3)]
  have ok: "page_ok st (w_loaded w) (view (w_page w))"
    using assms(1) by (simp add: world_ok_def)
  have "page_ok st (w_loaded w) (view p)"
  proof (cases "w_loaded w")
    case True
    with ok p(2) show ?thesis
      by (simp add: page_ok_loaded)
  next
    case False
    with ok page_ok_cong [OF p(3)] show ?thesis
      by simp
  qed
  moreover have "screen_ok (view p) (w_querier (tell_querier p w)) (w_screen w)"
    by (rule screen_tell [OF _ p(1)]) (use assms(1) in \<open>simp add: world_ok_def\<close>)
  ultimately show ?thesis
    by (simp add: world_ok_def)
qed

lemma loading_keeps:
  assumes "world_ok st w"
  shows "world_ok st (tell_querier ((w_page w)\<lparr>view := onProgramLoaded st width height (view (w_page w))\<rparr>) (w\<lparr>w_loaded := True\<rparr>))"
proof -
  let ?v = "view (w_page w)"
  have "clipping_ok (onProgramLoaded st width height ?v)"
    using assms by (simp add: world_ok_def page_ok_def clipping_ok_def)
  moreover have "screen_ok (view p) (w_querier (tell_querier p (w\<lparr>w_loaded := True\<rparr>))) (w_screen w)"
    if "view p = onProgramLoaded st width height ?v" for p
    by (rule screen_tell [of ?v]) (use assms that draw_loaded in \<open>simp_all add: world_ok_def\<close>)
  ultimately show ?thesis
    using loaded_projection by (simp add: world_ok_def page_ok_def)
qed

lemma timeout_keeps:
  assumes "world_ok st w" and "frustum_timeout st cfg n (view (w_page w)) (w_querier w) = Inr (v, q)"
  shows "world_ok st (set_view (show_results (w_querier w) q v) (w\<lparr>w_querier := q\<rparr>))"
proof -
  let ?v = "view (w_page w)" and ?q = "w_querier w"
  consider (idle) "v = ?v" "q = ?q" | (asked) cam gm where "v = ?v\<lparr>existing_frustum_trigger := None\<rparr>"
    "handle cfg n (GetFrustum (getMatrix st cam) gm) ?q = Inr q" "frustum_planes q = frustum_planes ?q"
    using timeout_handled [OF assms(2)] by blast
  then show ?thesis
  proof cases
    case idle
    then have "set_view (show_results ?q q v) (w\<lparr>w_querier := q\<rparr>) = w"
      by (simp add: show_results_def set_view_def)
    then show ?thesis
      using assms(1) by simp
  next
    case asked
    have "screen_ok v ?q (w_screen w)"
      using screen_user [of ?v ?q "w_screen w" v ?q] assms(1) by (simp add: asked(1) world_ok_def screen_ok_def drawn.changes)
    then show ?thesis
      by (rule query_keeps [OF assms(1) asked(2,3), rotated]) (simp add: asked(1) view_part_def)
  qed
qed

lemma frame_keeps:
  assumes "world_ok st w" and "renderLoop st (view (w_page w)) (w_screen w) = Some (v, s)"
  shows "world_ok st (set_view v (w\<lparr>w_screen := s\<rparr>))"
proof (cases "v_cam (view (w_page w))")
  case None
  with assms show ?thesis
    by (auto simp: renderLoop_def set_view_def)
next
  case (Some cam)
  then have "M4x4_inverse st (getMatrix st cam) \<noteq> None"
    using assms(2) by (auto simp: renderLoop_def draw_measurements_def makeBillboardSpher_def Let_def split: option.splits bind_splits)
  from next_frame [OF _ Some this, of "w_querier w" "w_screen w"] assms
  have "view_part v = view_part (view (w_page w))" "screen_ok v (w_querier w) s"
    by (auto simp: world_ok_def)
  then show ?thesis
    using assms(1) page_ok_cong [of v "view (w_page w)" st] by (simp add: world_ok_def set_view_def view_part_def)
qed

lemma step_ok:
  assumes "world_step st href e w = Inr w'" and "world_ok st w"
  shows "world_ok st w'"
proof (cases e)
  case (Query_event n ev)
  with assms told_server query_keeps [OF assms(2)] show ?thesis
    by (auto simp: world_ok_def split: if_splits sum.splits)
next
  case (Query_timeout n)
  with assms timeout_keeps [OF assms(2)] show ?thesis
    by (auto split: sum.splits)
qed (use assms user_keeps loading_keeps frame_keeps in \<open>auto split: if_splits option.splits\<close>)

lemma run_ok: "world_run st href es w = Inr w' \<Longrightarrow> world_ok st w \<Longrightarrow> world_ok st w'"
  by (induction es arbitrary: w) (auto split: sum.splits dest: step_ok)

lemma start_page_fields:
  "v_trees (start_page st query canvas) = []" "desired_count (start_page st query canvas) = 400"
  "currentCells (start_page st query canvas) = None" "allMeasurements (start_page st query canvas) = []"
  "near_plane_distance (start_page st query canvas) = 1"
  "query_projection (start_page st query canvas) = projectionMatrix (start_page st query canvas)"
  "selection_cloud (start_page st query canvas) = cloud_setupGL PointCloud"
  by (simp_all add: start_page_def camera_from_query_def start_camera_def triggerFrustumUpdate_def start_projection_def
    start_cloud_def start_settings_def onPointCountSliderMove_def onPointSliderMove_def onSliderMove_def globals_def Let_def
    split: option.split)

lemma opened_ok:
  assumes "\<forall>a. vbo (cs a) = None"
  shows "world_ok st (opened_page st query canvas cs f)"
  using bare_new [OF assms]
  by (simp add: opened_page_def world_ok_def page_ok_def clipping_ok_def screen_ok_def shows_report_def start_page_fields
    Let_def new_page_def cloud_setupGL_def) (simp add: FrustumQuerier_new_def)

section \<open>A page with one tree\<close>

text \<open>The page opens without a viewpoint, its shaders are loaded, and the metadata of a tree arrives; the file is empty, so its
  camera is the default one.\<close>

definition demo_opened :: world where
  "demo_opened = opened_page f64 '''' (800, 400) (\<lambda>_. demo_cell) (\<lambda>_. undefined)"

definition demo_world :: world where
  "demo_world = tell_querier
     (new_page (addTree f64 ''a'' (metadata_defaults f64) (onProgramLoaded f64 820 420 (start_page f64 '''' (800, 400)))))
     (tell_querier (new_page (onProgramLoaded f64 820 420 (start_page f64 '''' (800, 400)))) (demo_opened\<lparr>w_loaded := True\<rparr>))"

lemma demo_world_run:
  "world_run f64 '''' [Shaders_loaded 820 420, User_event (Viewer_event (Metadata_loaded ''a'' ''''))]
     (opened_page f64 '''' (800, 400) (\<lambda>_. demo_cell) (\<lambda>_. undefined)) = Inr demo_world"
proof -
  have "MetaData f64 '''' = metadata_defaults f64"
    by (simp add: MetaData_def parse_line_def js_split_last)
  then show ?thesis
    by (simp add: demo_world_def demo_opened_def opened_page_def Let_def new_page_def page_step_def)
qed

lemma demo_loaded: "w_loaded demo_world"
  by (simp add: demo_world_def)

lemma no_query: "getViewpointFromQuery f64 '''' = None"
  by (simp add: getViewpointFromQuery_def query_number_def getVariableFromQuery_def js_split_last js_split_eval nth_value_def
    parseFloat_def read_unsigned_def span_digits_def is_digit_def is_space_def read_fraction_def Let_def)

lemma plain_start_page: "start_page f64 '''' canvas = start_projection f64 (start_cloud (start_settings
    (globals\<lparr>canvas_width := fst canvas, canvas_height := snd canvas\<rparr>)))"
  by (simp add: start_page_def camera_from_query_def no_query)

text \<open>What the page is like then: the camera is ten metres from the origin, and the timer of the query is set.\<close>

lemma demo_world_view:
  defines "v \<equiv> view (w_page demo_world)"
  obtains cam where "v_cam v = Some cam" "finite_camera cam (0, 0, 0) 10 0 0" "existing_frustum_trigger v \<noteq> None"
    "near_plane_distance v = Fin 1" "canvas_width v / canvas_height v = Fin 2"
    "v_trees v = [Some (TreeInfo f64 ''a'' (metadata_defaults f64) [1, 0, 0])]"
proof -
  define s where "s = onProgramLoaded f64 820 420 (start_page f64 '''' (800, 400))"
  have s: "v_cam s = None" "v_trees s = []" "near_plane_distance s = 1" "canvas_width s = 800" "canvas_height s = 400"
    by (simp_all add: s_def plain_start_page onProgramLoaded_def onWindowResize_def onCanvasResize_def page_setProjectionMatrix_def
      start_projection_def start_cloud_def start_settings_def onPointCountSliderMove_def onPointSliderMove_def onSliderMove_def
      globals_def triggerFrustumUpdate_def Let_def)
  have v: "v = addTree f64 ''a'' (metadata_defaults f64) s"
    by (simp add: v_def demo_world_def new_page_def s_def)
  show thesis
    by (rule that [of "initCam f64 \<lparr>cf_origin = Some (V3_new f64 0 0 0), cf_distance = 0, cf_pitch = 0, cf_yaw = 0,
        cf_closest = NaN, cf_farthest = NaN\<rparr>"])
      (simp_all add: v addTree_def s start_camera_def triggerFrustumUpdate_def metadata_defaults_def Let_def
        finite_camera_def initCam_def initCam_config_def OrbitCam_new_def or_default_def V3_new_def copy3_def real3_def)
qed

section \<open>Property\<close>

text \<open>The cells of the last report, if there is one yet.\<close>

definition last_report :: "querier \<Rightarrow> cell list" where
  "last_report q = (if outputs q = [] then [] else report_cells (last (outputs q)))"

lemma pictures_of_report:
  assumes "shows_report v q s"
  shows "map picture_of (shown_cells v) = map picture_of (last_report q)"
proof (cases "currentCells v")
  case None
  with assms show ?thesis
    by (simp add: shows_report_def shown_cells_def last_report_def)
next
  case (Some cs)
  have "picture_of \<circ> without_buffer = picture_of"
    by (rule ext) (simp add: picture_of_def without_buffer_def Cell_numPoints_def)
  then have "map picture_of cs = map picture_of (map without_buffer cs)"
    by simp
  also have "map without_buffer cs = last_report q"
    using assms Some by (simp add: shows_report_def last_report_def)
  finally show ?thesis
    using Some by (simp add: shown_cells_def)
qed



end
