(* ===== verification/QuerierAnswers.thy ===== *)
theory QuerierAnswers
  imports WholePage
begin

text \<open>
  What a query has reported when nothing goes on any more. A walk ends in one of two ways: it reports copies of all the cells
  of its queue, or it sets a timer that goes on with it. So in every state between two events, either such a timer is set or the
  last report is of the whole queue, and it is the final one if no cell is in flight (\<open>answer_is_reported\<close>). On the page this
  gives that the next frame draws the whole queue (\<open>page_shows_answer\<close>).
\<close>

section \<open>How a walk ends\<close>

lemma queue_loop_ends:
  "queue_loop cfg n s = Inr s' \<Longrightarrow> \<exists>t. s' = end_queue cfg t \<or> s' = t\<lparr>timers := timers t @ [ProcessTimer]\<rparr>"
proof (induction n arbitrary: s)
  case 0
  then show ?case
    by (auto simp: queue_loop.simps split: if_splits)
next
  case (Suc m)
  show ?case
  proof (cases "queue_index s < length (queue s) \<and> \<not> interrupt_query s")
    case True
    with Suc.prems obtain t where t: "processCell cfg m (queue s ! queue_index s) s = Inr t"
      by (auto simp: queue_loop.simps [of cfg "Suc m"] bind_res_Inr_iff)
    let ?t = "t\<lparr>queue_index := queue_index t + 1\<rparr>"
    show ?thesis
    proof (cases "calls_in_a_row t > 50")
      case True
      with Suc.prems t \<open>queue_index s < length (queue s) \<and> \<not> interrupt_query s\<close> have "s' = ?t\<lparr>timers := timers ?t @ [ProcessTimer]\<rparr>"
        by (simp add: queue_loop.simps [of cfg "Suc m"] Let_def)
      then show ?thesis
        by blast
    next
      case False
      with Suc.prems t \<open>queue_index s < length (queue s) \<and> \<not> interrupt_query s\<close> have "queue_loop cfg m ?t = Inr s'"
        by (simp add: queue_loop.simps [of cfg "Suc m"] Let_def)
      then show ?thesis
        by (rule Suc.IH)
    qed
  qed (use Suc.prems in \<open>auto simp: queue_loop.simps [of cfg "Suc m"]\<close>)
qed

text \<open>The report of the whole queue; what is still in flight makes it a report of progress.\<close>

definition queue_cells :: "querier \<Rightarrow> cell list" where
  "queue_cells s = map (\<lambda>a. Cell_shallowCopy (cells s a)) (queue s)"

definition reported :: "querier \<Rightarrow> bool" where
  "reported s \<longleftrightarrow> outputs s \<noteq> [] \<and> last (outputs s) = (if inFlight s > 0 then Progress else Finished) (queue_cells s)"

definition answered :: "querier \<Rightarrow> bool" where
  "answered s \<longleftrightarrow>
     ProcessTimer \<in> set (timers s) \<or> \<not> isProcessingQueue s \<and> (queue s = [] \<or> reported s)"

lemma end_queue_answered: "answered (end_queue cfg s)"
  by (simp add: answered_def reported_def queue_cells_def end_queue_def Let_def)

lemma queue_loop_answered: "queue_loop cfg n s = Inr s' \<Longrightarrow> answered s'"
  using queue_loop_ends end_queue_answered by (fastforce simp: answered_def)

lemma answered_cong:
  "timers s' = timers s \<Longrightarrow> isProcessingQueue s' = isProcessingQueue s \<Longrightarrow> queue s' = queue s \<Longrightarrow> outputs s' = outputs s \<Longrightarrow>
     inFlight s' = inFlight s \<Longrightarrow> cells s' = cells s \<Longrightarrow> answered s' = answered s"
  by (simp add: answered_def reported_def queue_cells_def)

section \<open>Every event keeps it\<close>

lemma trigger_answered:
  assumes "answered s" and "triggerFrustum cfg n i s = Inr s'"
  shows "answered s'"
proof (cases "last_trigger s \<noteq> 0 \<and> i \<noteq> last_trigger s")
  case False
  let ?r = "\<lambda>s. root_loop cfg n (next_env s) (trees_info cfg) (s\<lparr>next_env := next_env s + 1\<rparr>)"
  from False assms(2) obtain t where "(if queue t \<noteq> [] then processQueue cfg n t else Inr (t\<lparr>isProcessingQueue := False\<rparr>)) = Inr s'"
    by (auto simp: triggerFrustum_def Let_def bind_res_Inr_iff)
  then show ?thesis
    using queue_loop_answered by (auto simp: processQueue_def answered_def split: if_splits)
qed (use assms in \<open>simp add: triggerFrustum_def\<close>)

lemma success_answered:
  assumes "on_success cfg n k b s = Inr s'" and "isProcessingQueue s \<longrightarrow> ProcessTimer \<in> set (timers s)"
  shows "answered s'"
proof -
  from assms(1) obtain t where t: "deliver cfg k b s = Inr t"
    "(if \<not> isProcessingQueue t then queue_loop cfg n (t\<lparr>calls_in_a_row := 0\<rparr>)
      else (case k of RootCont _ \<Rightarrow> Inr t | ChildCont _ _ \<Rightarrow> Inr (t\<lparr>calls_in_a_row := calls_in_a_row t + 1\<rparr>))) = Inr s'"
    by (auto simp: on_success.simps bind_res_Inr_iff)
  from t(1) have "isProcessingQueue t = isProcessingQueue s" "timers t = timers s"
    by (cases rule: deliver_cases, simp_all)+
  with t(2) assms(2) show ?thesis
    using queue_loop_answered by (auto simp: answered_def split: if_splits cont.splits)
qed

lemma timer_removed: "i < length ts \<Longrightarrow> ts ! i \<noteq> k \<Longrightarrow> k \<in> set ts \<Longrightarrow> k \<in> set (take i ts @ drop (i + 1) ts)"
  using id_take_nth_drop [of i ts] by (metis Suc_eq_plus1 Un_iff insert_iff list.simps(15) set_append)

lemma handle_answered:
  assumes "answered s" and "handle cfg n ev s = Inr s'" and "enabled ev s"
  shows "answered s'"
proof (cases ev)
  case (GetFrustum camera gm)
  have "answered (s\<lparr>cameraMatrix := camera, g_m := gm, last_trigger := 0\<rparr>)"
    using assms(1) by (simp add: answered_def reported_def queue_cells_def)
  with GetFrustum assms(2) trigger_answered show ?thesis
    by (fastforce simp: handle_def getFrustum_def)
next
  case (Loaded x response)
  show ?thesis
  proof (cases "xhrs s x")
    case (Some r)
    with Loaded assms(2) have "cell_loaded cfg n r response (s\<lparr>xhrs := (xhrs s)(x := None)\<rparr>) = Inr s'"
      by (simp add: handle_def)
    then obtain b t where t: "on_success cfg n (r_cont r) b t = Inr s'"
      "isProcessingQueue t = isProcessingQueue s" "timers t = timers s"
      by (auto simp: cell_loaded_def Let_def split: option.splits)
    show ?thesis
      by (rule success_answered [OF t(1)]) (use t(2,3) assms(1) in \<open>auto simp: answered_def\<close>)
  qed (use Loaded assms in \<open>simp add: handle_def\<close>)
next
  case (TimerFired i)
  let ?t = "s\<lparr>timers := take i (timers s) @ drop (i + 1) (timers s)\<rparr>"
  have i: "i < length (timers s)"
    using assms(3) TimerFired by (simp add: enabled_def)
  show ?thesis
  proof (cases "timers s ! i")
    case ProcessTimer
    with TimerFired assms(2) show ?thesis
      using queue_loop_answered by (simp add: handle_def processQueue_def Let_def)
  next
    case (TriggerTimer k)
    then have "answered ?t"
      using assms(1) timer_removed [OF i] by (auto simp: answered_def reported_def queue_cells_def)
    with TriggerTimer TimerFired assms(2) trigger_answered show ?thesis
      by (fastforce simp: handle_def Let_def)
  qed
qed (use assms in \<open>auto simp: handle_def setProjectionMatrix_def answered_def reported_def queue_cells_def\<close>)

lemma new_answered: "answered (FrustumQuerier_new cfg m cs k)"
  by (simp add: answered_def FrustumQuerier_new_def)

lemma reachable_answered: "reachable C ok s \<Longrightarrow> answered s"
  by (induction rule: reachable.induct) (auto intro: new_answered handle_answered)

section \<open>On the page\<close>

lemma world_step_answered:
  assumes "world_step st href e w = Inr w'" and "answered (w_querier w)"
  shows "answered (w_querier w')"
proof (cases e)
  case (Query_timeout n)
  with assms(1) obtain v q where q: "frustum_timeout st (world_config st w) n (view (w_page w)) (w_querier w) = Inr (v, q)"
    "w_querier w' = q"
    by (auto simp: set_view_def split: sum.splits)
  from timeout_handled [OF q(1)] assms(2) show ?thesis
    using handle_answered q(2) by (auto simp: enabled_def)
next
  case (Query_event n ev)
  with assms show ?thesis
    using handle_answered by (auto simp: set_view_def split: if_splits sum.splits)
qed (use assms in \<open>auto simp: tell_querier_def setProjectionMatrix_def set_view_def answered_def reported_def queue_cells_def
  split: if_splits option.splits\<close>)

lemma world_run_answered: "world_run st href es w = Inr w' \<Longrightarrow> answered (w_querier w) \<Longrightarrow> answered (w_querier w')"
  by (induction es arbitrary: w) (auto split: sum.splits dest: world_step_answered)

lemma world_run_append:
  "world_run st href es w = Inr u \<Longrightarrow> world_run st href es' u = Inr u' \<Longrightarrow> world_run st href (es @ es') w = Inr u'"
  by (induction es arbitrary: w) (auto split: sum.splits)

section \<open>Properties\<close>

text \<open>C31. No answer is kept back: in every state that events of the querier reach (replies, failures, timers, new queries),
  when no timer is set to go on with the walk and the queue is not empty, the last report was of copies of all cells of the queue
  as they are now; it was the final one if and only if no cell is in flight.\<close>

theorem answer_is_reported:
  assumes "reachable C ok s" and "ProcessTimer \<notin> set (timers s)" and "queue s \<noteq> []"
  shows "outputs s \<noteq> [] \<and> report_cells (last (outputs s)) = queue_cells s \<and>
    ((\<exists>r. last (outputs s) = Finished r) \<longleftrightarrow> inFlight s \<le> 0)"
  using reachable_answered [OF assms(1)] assms(2,3) by (auto simp: answered_def reported_def)

lemma answer_is_reported_witness:
  "\<exists>q. queue q \<noteq> [] \<and> report_cells (last (outputs q)) = queue_cells q"
proof -
  obtain t q where run: "handle demo_config2 0 (GetFrustum [] 1) demo_start = Inr t"
    "handle demo_config2 (Suc (Suc 0)) (Loaded 0 (Some [0])) t = Inr q"
    and q: "queue q \<noteq> []" "ProcessTimer \<notin> set (timers q)" and x: "xhrs t 0 \<noteq> None"
    by (rule demo_answer)
  have "reachable {demo_config2, demo_config} (\<lambda>_. True) demo_start"
    unfolding demo_start_def by (rule reachable.new) simp
  then have "reachable {demo_config2, demo_config} (\<lambda>_. True) t"
    by (rule reachable.event [OF _ _ _ _ run(1)]) (simp_all add: enabled_def)
  then have "reachable {demo_config2, demo_config} (\<lambda>_. True) q"
    by (rule reachable.event [OF _ _ _ _ run(2)]) (use x in \<open>simp_all add: enabled_def\<close>)
  from answer_is_reported [OF this q(2,1)] q(1) show ?thesis
    by blast
qed

text \<open>C4. The page shows the answer: in every state with loaded shaders that the page reaches from its opening, when no timer is set to
  go on with the walk, the queue of the querier is not empty and the view matrix of the camera has an inverse, the next frame
  draws all cells of the queue, in order and from their own bytes.\<close>

theorem page_shows_answer:
  assumes "world_run st href es (opened_page st query canvas cs f) = Inr u" and "\<forall>a. vbo (cs a) = None" and "w_loaded u"
    and "v_cam (view (w_page u)) = Some cam" and "M4x4_inverse st (getMatrix st cam) \<noteq> None"
    and "ProcessTimer \<notin> set (timers (w_querier u))" and "queue (w_querier u) \<noteq> []"
  shows "\<exists>u' calls. world_step st href Frame u = Inr u' \<and> s_calls (w_screen u') = s_calls (w_screen u) @ calls \<and>
    map (picture (w_screen u')) (cell_draws calls) = map picture_of (queue_cells (w_querier u))"
proof -
  have ok: "screen_ok (view (w_page u)) (w_querier u) (w_screen u)"
    using run_ok [OF assms(1) opened_ok [OF assms(2)]] by (simp add: world_ok_def)
  have "answered (w_querier u)"
    by (rule world_run_answered [OF assms(1)]) (simp add: opened_page_def Let_def new_answered)
  then have "last_report (w_querier u) = queue_cells (w_querier u)"
    using assms(6,7) by (auto simp: answered_def reported_def last_report_def)
  then have "map picture_of (shown_cells (view (w_page u))) = map picture_of (queue_cells (w_querier u))"
    using pictures_of_report [of "view (w_page u)" "w_querier u" "w_screen u"] ok by (simp add: screen_ok_def)
  with next_frame [OF ok assms(4,5)] show ?thesis
    using assms(3) by (auto simp: made_def set_view_def)
qed

text \<open>On the page with one tree, the query fires and the file of the root cell arrives: one point.\<close>

lemma shown_fields:
  "v_cam (show_results q q' v) = v_cam v" "v_trees (show_results q q' v) = v_trees v"
  "desired_count (show_results q q' v) = desired_count v"
  by (simp_all add: show_results_def)

lemma demo_reply:
  obtains u where "world_run f64 '''' [Query_timeout 0, Query_event 2 (Loaded 0 (Some [0]))] demo_world = Inr u"
    "w_loaded u" "v_cam (view (w_page u)) = v_cam (view (w_page demo_world))"
    "ProcessTimer \<notin> set (timers (w_querier u))" "queue (w_querier u) \<noteq> []"
proof -
  let ?w = demo_world
  let ?v = "view (w_page ?w)" and ?cfg = "world_config f64 ?w"
  obtain cam gm where v: "v_cam ?v = Some cam" "existing_frustum_trigger ?v = Some gm"
    "v_trees ?v = [Some (TreeInfo f64 ''a'' (metadata_defaults f64) [1, 0, 0])]"
    by (rule demo_world_view) blast
  have "desired_count (onProgramLoaded f64 820 420 (start_page f64 '''' (800, 400))) = Fin 400"
    "\<not> cache_only (onProgramLoaded f64 820 420 (start_page f64 '''' (800, 400)))"
    by (simp_all add: plain_start_page onProgramLoaded_def onWindowResize_def onCanvasResize_def page_setProjectionMatrix_def
      start_projection_def start_cloud_def start_settings_def onPointCountSliderMove_def onPointSliderMove_def onSliderMove_def
      globals_def triggerFrustumUpdate_def Let_def)
  then have d: "desired_count ?v = Fin 400" "\<not> cache_only ?v"
    by (simp_all add: demo_world_def new_page_def addTree_def start_camera_def triggerFrustumUpdate_def Let_def split: if_splits option.splits)
  have "w_objects ?w 0 = tree_info.truncate (TreeInfo f64 ''a'' (metadata_defaults f64) [1, 0, 0])"
    using v(3) by (simp add: demo_world_def tell_querier_def tree_objects_def)
  then have cfg: "trees_info ?cfg = [Some 0]" "t_enabled (trees ?cfg 0)" "t_root (trees ?cfg 0) = ''a/f1''"
    "\<not> RUN_ON_CACHE_ONLY ?cfg"
    using v(3) d(2) by (simp_all add: world_config_def page_config_def TreeInfo_def tree_info.defs)
  have f: "''a/f1'' \<notin> set Object_prototype_names"
    by (simp add: Object_prototype_names_def)
  obtain cfg' m planes where q: "w_querier ?w = (FrustumQuerier_new cfg' m (\<lambda>_. demo_cell) 10000)\<lparr>frustum_planes := planes\<rparr>"
    by (rule that) (simp add: demo_world_def demo_opened_def opened_page_def tell_querier_def setProjectionMatrix_def Let_def)
  have "\<exists>t. handle ?cfg 0 (GetFrustum (getMatrix f64 cam) gm) (w_querier ?w) = Inr t \<and>
    waits_for_root (t_root (trees ?cfg 0)) (t_geom (trees ?cfg 0)) 10000 0 t"
    unfolding q by (rule root_request) (use f cfg in simp_all)
  then obtain t where t: "getFrustum ?cfg 0 (getMatrix f64 cam) gm (w_querier ?w) = Inr t"
    "waits_for_root ''a/f1'' (t_geom (trees ?cfg 0)) 10000 0 t"
    unfolding cfg(3) by (auto simp: handle_def)
  define u where "u = set_view (show_results (w_querier ?w) t (?v\<lparr>existing_frustum_trigger := None\<rparr>)) (?w\<lparr>w_querier := t\<rparr>)"
  have u: "world_step f64 '''' (Query_timeout 0) ?w = Inr u"
    using t(1) v(1,2) by (simp add: frustum_timeout_def u_def)
  have "desired_cell_count (world_config f64 u) = Fin 400"
    using d(1) by (simp add: u_def set_view_def world_config_def page_config_def shown_fields)
  then obtain r where r: "handle (world_config f64 u) 2 (Loaded 0 (Some [0])) t = Inr r" "queue r \<noteq> []"
    "ProcessTimer \<notin> set (timers r)"
    using root_answer [OF t(2) f, of "world_config f64 u" 400 0] by (auto simp: numeral_2_eq_2)
  have "enabled (Loaded 0 (Some [0])) t"
    using t(2) by (simp add: enabled_def waits_for_root_def)
  moreover have "w_querier u = t"
    by (simp add: u_def set_view_def)
  ultimately have "world_step f64 '''' (Query_event 2 (Loaded 0 (Some [0]))) u =
      Inr (set_view (show_results t r (view (w_page u))) (u\<lparr>w_querier := r\<rparr>))"
    using r(1) by simp
  with u have "world_run f64 '''' [Query_timeout 0, Query_event 2 (Loaded 0 (Some [0]))] ?w =
      Inr (set_view (show_results t r (view (w_page u))) (u\<lparr>w_querier := r\<rparr>))"
    by (simp del: world_step.simps)
  then show thesis
    by (rule that) (use r demo_loaded in \<open>simp_all add: u_def set_view_def shown_fields\<close>)
qed

lemma page_shows_answer_witness:
  "\<exists>u u'. queue (w_querier u) \<noteq> [] \<and> world_step f64 '''' Frame u = Inr u'"
proof -
  obtain cam where cam: "v_cam (view (w_page demo_world)) = Some cam" "finite_camera cam (0, 0, 0) 10 0 0"
    by (rule demo_world_view)
  obtain u where u: "world_run f64 '''' [Query_timeout 0, Query_event 2 (Loaded 0 (Some [0]))] demo_world = Inr u"
    "w_loaded u" "v_cam (view (w_page u)) = v_cam (view (w_page demo_world))"
    "ProcessTimer \<notin> set (timers (w_querier u))" "queue (w_querier u) \<noteq> []"
    by (rule demo_reply)
  have "M4x4_inverse f64 (getMatrix f64 cam) \<noteq> None"
    using camera_frame(1) [OF cam(2)] by (auto simp: inverse_mat rigid_def affine_def)
  moreover have "\<forall>a :: addr. vbo ((\<lambda>_. demo_cell) a) = None"
    by (simp add: demo_cell_def Cell_new_def Let_def)
  moreover note world_run_append [OF demo_world_run u(1)]
  ultimately show ?thesis
    using page_shows_answer [OF _ _ u(2) _ _ u(4,5)] cam(1) u(3,5) by metis
qed

end
