(* ===== verification/Culling.thy ===== *)
theory Culling
  imports WholePage
begin

text \<open>
  Culling on the page as a whole: what the querier leaves out because it is not in the view is not on the screen. This ties
  the boxes of the tree (theories Geometry and CellModel), the sphere test (Frustum), the walk of the querier, the matrix of the
  camera (CameraView) and the two projections of the viewer (Viewer), of which the one of the query is two degrees
  wider than the one that is drawn.
\<close>

section \<open>Distances in the frame of the camera\<close>

text \<open>The coordinates of a point for the camera.\<close>

definition camera_coords :: "real \<times> real \<times> real \<Rightarrow> real \<Rightarrow> real \<Rightarrow> real \<Rightarrow> real \<times> real \<times> real \<Rightarrow> real \<times> real \<times> real" where
  "camera_coords o3 d p y q =
     (dot3 (right3 y) (sub3 q o3), dot3 (up3 p y) (sub3 q o3), - dot3 (forward3 p y) (sub3 q o3) - d)"

lemma camera_coords:
  assumes "finite_camera cam o3 d p y" and "0 < d"
  shows "V3_mul4x4 f64 (getMatrix f64 cam) (vec3 q) = vec3 (camera_coords o3 d p y q)"
proof -
  have "dot3 v (sub3 q (eye3 o3 d p y)) = dot3 v (sub3 q o3) + d * dot3 v (forward3 p y)" for v
    by (cases v; cases q; cases o3; cases "forward3 p y")
      (simp add: eye3_def add3_def sub3_def scale3_def dot3_def algebra_simps)
  then show ?thesis
    unfolding transformPoint_mul4x4 [symmetric] camera_matrix [OF assms] frame_transform camera_coords_def
    by (simp add: camera_axes)
qed

lemma axes_algebra:
  fixes a :: real
  assumes "a * a + b * b = 1" and "c * c + d * d = 1"
  shows "(b * u + - a * v) * (b * u + - a * v) +
    (- (b * d) * v + - (a * d) * u + c * w) * (- (b * d) * v + - (a * d) * u + c * w) +
    (a * c * u + b * c * v + d * w) * (a * c * u + b * c * v + d * w) = u * u + v * v + w * w"
  using assms by algebra

lemma axes_norm:
  "dot3 (right3 y) v * dot3 (right3 y) v + dot3 (up3 p y) v * dot3 (up3 p y) v + dot3 (forward3 p y) v * dot3 (forward3 p y) v =
     dot3 v v"
  using axes_algebra [OF squares(1) squares(1), of y "fst v" "fst (snd v)" p "snd (snd v)"]
  by (cases v) (simp add: right3_def up3_def forward3_def dot3_def)

lemma camera_distance:
  "dot3 (sub3 (camera_coords o3 d p y a) (camera_coords o3 d p y b)) (sub3 (camera_coords o3 d p y a) (camera_coords o3 d p y b)) =
     dot3 (sub3 a b) (sub3 a b)"
proof -
  have "sub3 (camera_coords o3 d p y a) (camera_coords o3 d p y b) =
      (dot3 (right3 y) (sub3 a b), dot3 (up3 p y) (sub3 a b), - dot3 (forward3 p y) (sub3 a b))"
    by (simp add: camera_coords_def triple_simps dot3_sub3)
  then show ?thesis
    by (simp add: triple_simps axes_norm)
qed

section \<open>Boxes and the two projections\<close>

text \<open>The sphere of the querier around a child: half the radius of the parent.\<close>

lemma in_child_sphere:
  assumes "cube_at x y z s g" and "in_box g q"
  shows "dot3 (sub3 (q 0, q 1, q 2) (x + s / 2, y + s / 2, z + s / 2)) (sub3 (q 0, q 1, q 2) (x + s / 2, y + s / 2, z + s / 2))
    \<le> s / 2 * sqrt 3 * (s / 2 * sqrt 3)" and "0 \<le> s"
proof -
  have q: "x \<le> q 0" "q 0 \<le> x + s" "y \<le> q 1" "q 1 \<le> y + s" "z \<le> q 2" "q 2 \<le> z + s"
    using assms by (simp_all add: cube_at_def)
  have e: "s / 2 * sqrt 3 * (s / 2 * sqrt 3) = s / 2 * (s / 2) + s / 2 * (s / 2) + s / 2 * (s / 2)"
    by simp
  show "dot3 (sub3 (q 0, q 1, q 2) (x + s / 2, y + s / 2, z + s / 2)) (sub3 (q 0, q 1, q 2) (x + s / 2, y + s / 2, z + s / 2))
    \<le> s / 2 * sqrt 3 * (s / 2 * sqrt 3)"
    using half_side_square [OF q(1,2)] half_side_square [OF q(3,4)] half_side_square [OF q(5,6)]
    unfolding e triple_simps by linarith
  show "0 \<le> s"
    using q(1,2) by simp
qed

lemma wider_view:
  assumes "0 < zn" "zn < zf" "0 < aspect" "0 < th" "th \<le> th'" and "in_view (perspective th aspect zn zf) q"
  shows "in_view (perspective th' aspect zn zf) q"
proof -
  obtain x y z where q: "q = (x, y, z)"
    by (cases q)
  have v: "zn \<le> - z" "- z \<le> zf" "\<bar>x\<bar> \<le> th * aspect * - z" "\<bar>y\<bar> \<le> th * - z"
    using assms(6) unfolding q perspective_view [OF assms(1-4)] by simp_all
  then have "th * aspect * - z \<le> th' * aspect * - z" "th * - z \<le> th' * - z"
    using assms(1,3,5) by (intro mult_right_mono; simp)+
  then have "\<bar>x\<bar> \<le> th' * aspect * - z" "\<bar>y\<bar> \<le> th' * - z"
    using v(3,4) by (simp_all only: order_trans)
  moreover have "0 < th'"
    using assms(4,5) by simp
  ultimately show ?thesis
    unfolding q perspective_view [OF assms(1-3) \<open>0 < th'\<close>] using v(1,2) by blast
qed

text \<open>The tangents of half the angles of view, 20 and 22 degrees.\<close>

lemma view_tangents: "0 < tan (20 * pi / 360)" "tan (20 * pi / 360) \<le> tan (22 * pi / 360)"
proof -
  have "0 < 20 * pi / 360" "20 * pi / 360 < 22 * pi / 360" "22 * pi / 360 < pi / 2"
    by (simp_all add: field_simps)
  then show "0 < tan (20 * pi / 360)" "tan (20 * pi / 360) \<le> tan (22 * pi / 360)"
    using tan_gt_zero [of "20 * pi / 360"] tan_monotone [of "20 * pi / 360" "22 * pi / 360"] by auto
qed

lemma page_projections:
  assumes "view_ok f64 v" "near_plane_distance v = Fin zn" "zn < 10000000" "canvas_width v / canvas_height v = Fin aspect" "0 < aspect"
  shows "projectionMatrix v = mat (perspective (tan (20 * pi / 360)) aspect zn 10000000)"
    and "query_projection v = mat (perspective (tan (22 * pi / 360)) aspect zn 10000000)" and "0 < zn"
proof -
  show "0 < zn"
    using assms(1,2) by (simp add: view_ok_def clipping_ok_def)
  note z = this assms(3)
  have "0 < tan (22 * pi / 360)"
    using view_tangents by linarith
  from makePerspective_mat [OF z assms(5) view_tangents(1)] makePerspective_mat [OF z assms(5) this]
  show "projectionMatrix v = mat (perspective (tan (20 * pi / 360)) aspect zn 10000000)"
    and "query_projection v = mat (perspective (tan (22 * pi / 360)) aspect zn 10000000)"
    using assms(1,2,4) by (simp_all add: view_ok_def projection_ok_def projection_of_def fov_def far_plane_distance_def)
qed

section \<open>The same query\<close>

text \<open>Replies and timers of the query go on with the planes and the camera that it started with.\<close>

fun query_events :: "(nat \<times> event) list \<Rightarrow> world_event list" where
  "query_events es = map (\<lambda>(n, e). Query_event n e) es"

definition same_query :: "world \<Rightarrow> world \<Rightarrow> bool" where
  "same_query w w' \<longleftrightarrow>
     frustum_planes (w_querier w') = frustum_planes (w_querier w) \<and> cameraMatrix (w_querier w') = cameraMatrix (w_querier w)"

lemma event_same_query:
  assumes "world_step st href (Query_event n e) w = Inr w'"
  shows "same_query w w'"
proof (cases "server_event e \<and> enabled e (w_querier w)")
  case True
  with assms obtain q where "handle (world_config st w) n e (w_querier w) = Inr q"
    "w' = set_view (show_results (w_querier w) q (view (w_page w))) (w\<lparr>w_querier := q\<rparr>)"
    by (auto split: sum.splits)
  with told_server True show ?thesis
    by (simp add: same_query_def set_view_def)
qed (use assms in \<open>auto simp: same_query_def\<close>)

lemma run_same_query: "world_run st href (query_events es) w = Inr w' \<Longrightarrow> same_query w w'"
proof (induction es arbitrary: w)
  case (Cons e es)
  obtain n ev where e: "e = (n, ev)"
    by (cases e)
  with Cons.prems obtain u where "world_step st href (Query_event n ev) w = Inr u" "world_run st href (query_events es) u = Inr w'"
    by (auto split: sum.splits)
  with Cons.IH event_same_query show ?case
    by (fastforce simp: same_query_def)
qed (simp add: same_query_def)

text \<open>What the querier looks through once the timer has fired.\<close>

lemma query_sight:
  assumes "world_ok f64 u" and "v_cam (view (w_page u)) = Some cam" "existing_frustum_trigger (view (w_page u)) \<noteq> None"
    and "world_run f64 href (Query_timeout n # query_events rs) u = Inr u'"
  shows "cameraMatrix (w_querier u') = getMatrix f64 cam"
    and "frustum_planes (w_querier u') = extract_frustum_planes (query_projection (view (w_page u)))"
proof -
  obtain u1 v where u1: "world_run f64 href (query_events rs) u1 = Inr u'"
    and t: "frustum_timeout f64 (world_config f64 u) n (view (w_page u)) (w_querier u) = Inr (v, w_querier u1)"
    using assms(4) by (auto simp: set_view_def split: sum.splits)
  have "frustum_planes (w_querier u1) = frustum_planes (w_querier u) \<and> cameraMatrix (w_querier u1) = getMatrix f64 cam"
    using timeout_handled [OF t] assms(2,3) by auto
  with run_same_query [OF u1] assms(1) show "cameraMatrix (w_querier u') = getMatrix f64 cam"
    "frustum_planes (w_querier u') = extract_frustum_planes (query_projection (view (w_page u)))"
    by (simp_all add: same_query_def world_ok_def)
qed

section \<open>Property\<close>

lemma child_culled:
  assumes "child_frustum cfg s c child = -1" and "store cfg = f64"
    and "frustum_planes s = extract_frustum_planes (mat (perspective th aspect zn zf))" "0 < zn" "zn < zf" "0 < aspect" "0 < th"
    and "cameraMatrix s = getMatrix f64 cam" "finite_camera cam o3 d p y" "0 < d"
    and "radius c = Fin (side * sqrt 3)" "cube_at x1 x2 x3 side child" "in_box child q"
  shows "\<not> in_view (perspective th aspect zn zf) (camera_coords o3 d p y (q 0, q 1, q 2))"
proof -
  let ?c = "(x1 + side / 2, x2 + side / 2, x3 + side / 2)"
  have center: "NodeGeometry_getCenter f64 child = vec3 ?c"
    using assms(12) by (simp add: NodeGeometry_getCenter_def cube_at_def vec3_def real3_def add_divide_distrib)
  have "isInsideFrustum (frustum_planes s) (radius c / 2) (V3_mul4x4 f64 (cameraMatrix s) (NodeGeometry_getCenter f64 child)) = -1"
    using assms(1,2) by (auto simp: child_frustum_def split: if_splits)
  then have "isInsideFrustum (extract_frustum_planes (mat (perspective th aspect zn zf))) (Fin (side / 2 * sqrt 3))
      (vec3 (camera_coords o3 d p y ?c)) = -1"
    unfolding center assms(3,8,11) camera_coords [OF assms(9,10)] by simp
  moreover note sphere = in_child_sphere [OF assms(12,13)]
  have "dot3 (sub3 (camera_coords o3 d p y (q 0, q 1, q 2)) (camera_coords o3 d p y ?c))
      (sub3 (camera_coords o3 d p y (q 0, q 1, q 2)) (camera_coords o3 d p y ?c)) \<le> side / 2 * sqrt 3 * (side / 2 * sqrt 3)"
    unfolding camera_distance by (rule sphere(1))
  moreover have "0 \<le> side / 2 * sqrt 3"
    using sphere(2) by simp
  ultimately show ?thesis
    using classification_sound(2) [OF perspective_proper [OF assms(4-7)]] by blast
qed


section \<open>A hidden child\<close>

text \<open>A sphere that is entirely nearer than the near plane is outside, whatever the angle of view.\<close>

lemma near_culled:
  assumes "0 < zn" "zn < zf" "0 < aspect" "0 < th" and "- z - zn < - r"
  shows "isInsideFrustum (extract_frustum_planes (mat (perspective th aspect zn zf))) (Fin r) (vec3 (x, y, z)) = -1"
proof -
  let ?t = "perspective th aspect zn zf"
  define k where "k = 2 * zf / (zf - zn)"
  have k: "0 < k" "- 1 + - (zf + zn) / (zf - zn) = - k" "- 2 * zf * zn / (zf - zn) = - k * zn"
    using assms(1,2) by (simp_all add: k_def field_simps)
  define p where "p = plane_sum 1 (row_plane ?t 3) (row_plane ?t 2)"
  have p: "p = ((0, 0, - k), - k * zn)"
    using k(2,3) by (simp add: p_def plane_sum_def row_plane_def perspective_def)
  have "unit_plane p = ((0, 0, - 1), - zn)"
    using k(1) by (simp add: p unit_plane_def unit3_def scale3_def dot3_def)
  then have "plane_value (unit_plane p) (x, y, z) = - z - zn"
    by (simp add: plane_value_def dot3_def)
  moreover have "p \<in> set (clip_planes ?t)"
    by (simp add: clip_planes_def p_def Let_def)
  ultimately have "\<not> (\<forall>p \<in> set (clip_planes ?t). \<not> Fin (plane_value (unit_plane p) (x, y, z)) < - Fin r)"
    using assms(5) by force
  with ball_planes [OF perspective_proper [OF assms(1-4)], of "\<lambda>n. \<not> n < - Fin r" "(x, y, z)"] show ?thesis
    by (auto simp: isInsideFrustum_def isInside_outside_iff)
qed

text \<open>A cubic cell behind the camera, and its first child.\<close>

definition behind :: geom where
  "behind = NodeGeometry (real3 (-128) 0 0) (real3 (-64) 64 64)"

lemma behind: "cube_at (-128) 0 0 64 behind" "cube_at (-128) 0 0 (64 / 2) (NodeGeometry_getChild behind 0)"
proof -
  have "f32_real (-128) = Fin (-128)" "f32_real (-96) = Fin (-96)" "f32_real 32 = Fin 32"
    using f32_dyadic [of "-128" 0] f32_dyadic [of "-96" 0] f32_dyadic [of 32 0] by simp_all
  then show "cube_at (-128) 0 0 64 behind" "cube_at (-128) 0 0 (64 / 2) (NodeGeometry_getChild behind 0)"
    by (simp_all add: cube_at_def behind_def NodeGeometry_def NodeGeometry_getChild_def has_bit_iff X_BIT_def Y_BIT_def
      Z_BIT_def real3_def)
qed

text \<open>The first query for one tree sends one request.\<close>

lemma first_query:
  assumes "trees_info cfg = [Some i]" "t_enabled (trees cfg i)" "t_root (trees cfg i) = ''a/f1''"
    and "cell_cache s = LRUCache_new m" "inFlight s = 0"
  shows "\<exists>s'. getFrustum cfg 0 camera gm s = Inr s'"
  using assms
  by (simp add: getFrustum_def triggerFrustum_def start_query_def cache_get_def send_request_def LRUCache_get_def
    get_prop_def LRUCache_new_def Object_prototype_names_def Let_def)

lemma child_behind:
  assumes "inside_frustum c < 1" and "store cfg = f64"
    and "frustum_planes s = extract_frustum_planes (mat (perspective th aspect zn zf))" "0 < zn" "zn < zf" "0 < aspect" "0 < th"
    and "cameraMatrix s = getMatrix f64 cam" "finite_camera cam o3 d p y" "0 < d"
    and "radius c = Fin (64 / 2 * sqrt 3)" "cube_at x1 x2 x3 (64 / 2) child"
    and "16 * 2 - zn < snd (snd (camera_coords o3 d p y (x1 + 16, x2 + 16, x3 + 16)))"
  shows "child_frustum cfg s c child = -1"
proof -
  let ?c = "camera_coords o3 d p y (x1 + 16, x2 + 16, x3 + 16)"
  have center: "NodeGeometry_getCenter f64 child = vec3 (x1 + 16, x2 + 16, x3 + 16)"
    using assms(12) by (simp add: NodeGeometry_getCenter_def cube_at_def vec3_def real3_def add_divide_distrib)
  have "sqrt 3 < 2"
    by (rule real_less_lsqrt) simp_all
  with assms(13) have "- snd (snd ?c) - zn < - (64 / 2 * sqrt 3 / 2)"
    by simp
  from near_culled [OF assms(4-7) this, of "fst ?c" "fst (snd ?c)"]
  have "isInsideFrustum (extract_frustum_planes (mat (perspective th aspect zn zf))) (Fin (64 / 2 * sqrt 3 / 2)) (vec3 ?c) = -1"
    by simp
  with assms(1) show ?thesis
    by (simp add: child_frustum_def center assms(2,3,8,11) camera_coords [OF assms(9,10)])
qed

lemma demo_query:
  "\<exists>u'. world_run f64 '''' (Query_timeout 0 # query_events []) demo_world = Inr u'"
proof -
  obtain cam gm where v: "v_cam (view (w_page demo_world)) = Some cam"
    "existing_frustum_trigger (view (w_page demo_world)) = Some gm"
    "v_trees (view (w_page demo_world)) = [Some (TreeInfo f64 ''a'' (metadata_defaults f64) [1, 0, 0])]"
    by (rule demo_world_view) blast
  let ?cfg = "world_config f64 demo_world"
  have "w_objects demo_world 0 = tree_info.truncate (TreeInfo f64 ''a'' (metadata_defaults f64) [1, 0, 0])"
    using v(3) by (simp add: demo_world_def tell_querier_def tree_objects_def)
  then have "trees_info ?cfg = [Some 0]" "t_enabled (trees ?cfg 0)" "t_root (trees ?cfg 0) = ''a/f1''"
    using v(3) by (simp_all add: world_config_def page_config_def TreeInfo_def tree_info.defs)
  moreover have "cell_cache (w_querier demo_world) = LRUCache_new 10000" "inFlight (w_querier demo_world) = 0"
    by (simp_all add: demo_world_def demo_opened_def opened_page_def tell_querier_def setProjectionMatrix_def FrustumQuerier_new_def Let_def)
  ultimately obtain s' where "getFrustum ?cfg 0 (getMatrix f64 cam) gm (w_querier demo_world) = Inr s'"
    using first_query [of ?cfg 0 "w_querier demo_world"] by blast
  then have "frustum_timeout f64 ?cfg 0 (view (w_page demo_world)) (w_querier demo_world) =
      Inr ((view (w_page demo_world))\<lparr>existing_frustum_trigger := None\<rparr>, s')"
    using v(1,2) by (simp add: frustum_timeout_def)
  then show ?thesis
    by simp
qed


end
