(* ===== verification/QuerierErrors.thy ===== *)
theory QuerierErrors
  imports QuerierProperties
begin

text \<open>
  The errors of the query (theory Querier). With trees that are all there, an event of the query throws no exception:
  every lookup in the cache is of an ordinary id and the cache is well formed, and a callback of a root finds its tree. What is
  left are replies without a body or with an empty one. With the bound on the fuel, such an event always returns.
\<close>

section \<open>Ordinary ids\<close>

text \<open>The names of the prototype do not end in a digit, and ids of cells do.\<close>

lemma digit_end_ordinary:
  assumes "i = w @ [c]" and "(of_char c :: nat) \<in> {48..<56}"
  shows "ordinary_id i"
proof -
  have "(of_char (last x) :: nat) \<notin> {48..<56}" if "x \<in> set Object_prototype_names" for x
    using that by (auto simp: Object_prototype_names_def)
  with assms show ?thesis
    unfolding ordinary_id_def by (metis last_snoc)
qed

lemma asked_ordinary:
  assumes "asked cfg s i k" and "\<forall>j. Some j \<in> set (trees_info cfg) \<longrightarrow> ordinary_id (t_root (trees cfg j))"
  shows "ordinary_id i"
  using assms child_id_ordinary by (auto simp: asked_def ordinary_id_def split: cont.splits)

section \<open>What the walk keeps\<close>

definition sound :: "querier \<Rightarrow> bool" where
  "sound s \<longleftrightarrow>
     (\<exists>xs. lru_rel (cell_cache s) xs) \<and> 0 \<le> max_size (cell_cache s) \<and>
     (\<forall>x r. xhrs s x = Some r \<longrightarrow> ordinary_id (r_id r) \<and> (\<forall>e. r_cont r = RootCont e \<longrightarrow> tree_env s e \<noteq> None))"

definition roots_ok :: "config \<Rightarrow> bool" where
  "roots_ok cfg \<longleftrightarrow> (\<forall>t \<in> set (trees_info cfg). \<exists>j. t = Some j \<and> ordinary_id (t_root (trees cfg j)))"

definition safe_for :: "config \<Rightarrow> querier \<Rightarrow> bool" where
  "safe_for cfg s \<longleftrightarrow> sound s \<and> roots_ok cfg"

lemma sound_cong:
  "cell_cache s' = cell_cache s \<Longrightarrow> tree_env s' = tree_env s \<Longrightarrow> xhrs s' \<subseteq>\<^sub>m xhrs s \<Longrightarrow> sound s \<Longrightarrow> sound s'"
  unfolding sound_def map_le_def by (metis domI)

lemma sound_get:
  assumes "sound s" and "ordinary_id i"
  obtains r c where "LRUCache_get i (cell_cache s) = Some (r, c)" "\<exists>xs. lru_rel c xs" "0 \<le> max_size c"
proof -
  obtain xs where "lru_rel (cell_cache s) xs" "0 \<le> max_size (cell_cache s)"
    using assms(1) by (auto simp: sound_def)
  with LRUCache_get_rel [of "cell_cache s" xs i] assms(2) that show thesis
    unfolding ordinary_id_def by metis
qed

lemma sound_hit:
  assumes "sound s" "ordinary_id i" "LRUCache_get i (cell_cache s) = Some (r, c)"
  shows "sound (s\<lparr>inFlight := f, cell_cache := c\<rparr>)"
proof -
  have "\<exists>xs. lru_rel c xs" "0 \<le> max_size c"
    using sound_get [OF assms(1,2)] assms(3) by auto
  with assms(1) show ?thesis
    by (simp add: sound_def)
qed

lemma sound_deliver: "sound s \<Longrightarrow> deliver cfg k b s = Inr s' \<Longrightarrow> sound s'"
  by (elim deliver_cases) (simp add: sound_def)

interpretation safe: query_roots cfg "\<lambda>_. safe_for cfg" "\<lambda>e. e = Out_of_fuel" for cfg
proof unfold_locales
  fix s i kont
  assume s: "safe_for cfg s" and "asked cfg s i kont" and none: "LRUCache_get i (cell_cache s) = None"
  then have "ordinary_id i"
    by (auto intro: asked_ordinary simp: safe_for_def roots_ok_def)
  with s none show "Type_error = Out_of_fuel"
    unfolding safe_for_def using sound_get by fastforce
next
  fix a s go s'
  assume "safe_for cfg s" and "begin_cell cfg a s = (go, s')"
  from this(2,1) show "safe_for cfg s'"
    by (cases rule: begin_cell_cases) (auto elim!: sound_cong [rotated 3] simp: safe_for_def cancel_def map_le_def restrict_map_def)
next
  fix s i kont b c s'
  assume s: "safe_for cfg s" and a: "asked cfg s i kont" and g: "LRUCache_get i (cell_cache s) = Some (Some b, c)"
    and d: "deliver cfg kont b (s\<lparr>inFlight := inFlight s + 1, cell_cache := c\<rparr>) = Inr s'"
  have "ordinary_id i"
    using asked_ordinary [OF a] s by (auto simp: safe_for_def roots_ok_def)
  with s g d show "safe_for cfg s'"
    unfolding safe_for_def using sound_hit sound_deliver by blast
next
  fix s i kont c g
  assume s: "safe_for cfg s" and a: "asked cfg s i kont" and "LRUCache_get i (cell_cache s) = Some (None, c)"
  moreover have i: "ordinary_id i"
    using asked_ordinary [OF a] s by (auto simp: safe_for_def roots_ok_def)
  ultimately have "sound (s\<lparr>inFlight := inFlight s + 1, cell_cache := c\<rparr>)"
    unfolding safe_for_def using sound_hit by blast
  with i a s show "safe_for cfg (send_request cfg i g kont (s\<lparr>inFlight := inFlight s + 1, cell_cache := c\<rparr>))"
    by (auto simp: safe_for_def sound_def send_request_def asked_def)
qed (auto simp: safe_for_def sound_def hide_child_def update_cell_def end_queue_def roots_ok_def Let_def)

section \<open>Events\<close>

definition good_reply :: "event \<Rightarrow> bool" where
  "good_reply ev \<longleftrightarrow> (\<forall>x r. ev = Loaded x r \<longrightarrow> r \<noteq> None \<and> r \<noteq> Some [])"

lemma sound_start: "sound s \<Longrightarrow> sound (start_query cfg i s)"
  by (auto elim!: sound_cong [rotated 3] simp: start_query_def cancel_def Let_def map_le_def restrict_map_def)

lemma safe_trigger:
  assumes "sound s" and "roots_ok cfg"
  shows "safe.holds cfg n (triggerFrustum cfg n i s)"
proof (cases "last_trigger s \<noteq> 0 \<and> i \<noteq> last_trigger s")
  case False
  with safe.triggerFrustum_holds [OF False] assms sound_start show ?thesis
    unfolding safe_for_def by blast
qed (use assms in \<open>simp add: triggerFrustum_def safe_for_def\<close>)

lemma safe_loaded:
  assumes "sound s" "roots_ok cfg" "xhrs s x = Some r"
  shows "safe.holds cfg n (cell_loaded cfg n r (Some (b # bs)) (s\<lparr>xhrs := (xhrs s)(x := None)\<rparr>))"
proof -
  obtain c where c: "Cell_new (store cfg) (r_id r) (r_geom r) (b # bs) = Some c"
    by (simp add: Cell_new_def Let_def)
  obtain xs where xs: "lru_rel (cell_cache s) xs" "0 \<le> max_size (cell_cache s)" "r_id r \<notin> set Object_prototype_names"
    using assms(1,3) by (auto simp: sound_def ordinary_id_def)
  obtain l where l: "LRUCache_put (r_id r) (next_cell s) (cell_cache s) = Some l" "\<exists>ys. lru_rel l ys" "0 \<le> max_size l"
    using LRUCache_put_rel [OF xs(1,3,2), of "next_cell s"] xs(2) by metis
  let ?s = "s\<lparr>xhrs := (xhrs s)(x := None), bytes_downloaded := bytes_downloaded s + length (b # bs),
    cells := (cells s)(next_cell s := c), next_cell := next_cell s + 1, cell_cache := l\<rparr>"
  have "sound ?s"
    using assms(1) l(2,3) by (simp add: sound_def)
  moreover have "r_cont r = RootCont e \<Longrightarrow> \<exists>t. tree_env s e = Some t" for e
    using assms(1,3) unfolding sound_def by blast
  then have "deliver cfg (r_cont r) (next_cell s) ?s \<noteq> Inl e" for e
    by (cases "r_cont r") (fastforce simp: deliver_def Let_def)+
  ultimately have "safe.holds cfg n (on_success cfg n (r_cont r) (next_cell s) ?s)"
    using assms(2) unfolding safe_for_def [symmetric]
    by (intro safe.on_success_holds safe.walk) (auto simp: safe_for_def intro: sound_deliver)
  then show ?thesis
    by (simp add: cell_loaded_def c l(1) Let_def)
qed

lemma safe_handle:
  assumes "sound s" "roots_ok cfg" "good_reply ev"
  shows "safe.holds cfg n (handle cfg n ev s)"
proof (cases ev)
  case (GetFrustum camera gm)
  moreover have "sound (s\<lparr>cameraMatrix := camera, g_m := gm, last_trigger := 0\<rparr>)"
    using assms(1) by (simp add: sound_def)
  ultimately show ?thesis
    using safe_trigger [OF _ assms(2)] by (simp add: handle_def getFrustum_def)
next
  case (SetProjection m)
  with assms show ?thesis
    by (simp add: handle_def setProjectionMatrix_def safe_for_def sound_def)
next
  case (Loaded x response)
  then obtain b bs where "response = Some (b # bs)"
    using assms(3) by (cases response; cases "the response") (auto simp: good_reply_def)
  with assms safe_loaded Loaded show ?thesis
    by (simp add: handle_def safe_for_def split: option.split)
next
  case (LoadFailed x)
  with assms show ?thesis
    by (simp add: handle_def safe_for_def sound_def)
next
  case (TimerFired i)
  let ?s = "s\<lparr>timers := take i (timers s) @ drop (i + 1) (timers s)\<rparr>"
  have "sound ?s"
    using assms(1) by (simp add: sound_def)
  with TimerFired assms(2) show ?thesis
    using safe.processQueue_holds [of cfg ?s] safe_trigger [of ?s cfg]
    by (simp add: handle_def safe_for_def Let_def split: timer.split)
qed

text \<open>An event with enough fuel returns, and the query goes on being sound.\<close>

lemma counted_handle:
  assumes "counted s" "handle cfg n ev s = Inr s'"
  shows "counted s'"
proof (cases "\<exists>x. ev = LoadFailed x")
  case True
  with assms flight_failed show ?thesis
    by (auto simp: handle_def counted_def)
next
  case False
  with assms counting.handle_keeps show ?thesis
    by blast
qed

lemma handle_returns:
  assumes "sound s" "counted s" "roots_ok cfg" "good_reply ev" "desired_cell_count cfg = Fin d" "fuel_needed d 0 \<le> n"
  obtains s' where "handle cfg n ev s = Inr s'"
proof (cases "handle cfg n ev s")
  case (Inl e)
  with safe_handle [OF assms(1,3,4), of n] handle_terminates [OF assms(2,5,6), of ev] show thesis
    by simp
qed (rule that)

text \<open>A bad reply throws, so an event that returns leaves a sound query whatever its reply is.\<close>

lemma sound_handle:
  assumes "sound s" "roots_ok cfg" "handle cfg n ev s = Inr s'"
  shows "sound s'"
proof (cases "good_reply ev")
  case True
  with assms safe_handle [of s cfg ev n] show ?thesis
    by (simp add: safe_for_def)
next
  case False
  then obtain x r where "ev = Loaded x r" "r = None \<or> r = Some []"
    by (auto simp: good_reply_def)
  with assms(3) have "s' = s"
    by (auto simp: handle_def cell_loaded_def Cell_new_def Let_def split: option.splits)
  with assms(1) show ?thesis
    by simp
qed

lemma sound_new: "0 \<le> k \<Longrightarrow> sound (FrustumQuerier_new cfg m cs k)"
  using LRUCache_new_rel [of k] by (auto simp: sound_def FrustumQuerier_new_def LRUCache_new_def)

lemma counted_start: "desired_cell_count cfg = Fin d \<Longrightarrow> 0 \<le> d \<Longrightarrow> counted (FrustumQuerier_new cfg m cs k)"
  using flight_new [of "(\<le>)" cfg m cs k] by (simp add: counted_def) (simp add: FrustumQuerier_new_def)

lemma told_keeps: "sound (setProjectionMatrix m s) = sound s" "counted (setProjectionMatrix m s) = counted s"
  by (simp_all add: sound_def counted_def flight_inv_def setProjectionMatrix_def)

end
