(* ===== verification/PageQueries.thy ===== *)
theory PageQueries
  imports WholePage QuerierErrors
begin

text \<open>
  The queries of the page never fail while no tree has been removed: in every reachable state the trees that the viewer has
  read are those that the querier sees, their ids are not names of the prototype of objects, and the cache is well formed.
  Theory QuerierErrors then gives that every event of the query returns.
\<close>

section \<open>The trees of the viewer\<close>

definition tree_removed :: "viewer \<Rightarrow> bool" where
  "tree_removed v \<longleftrightarrow> None \<in> set (v_trees v)"

definition trees_fine :: "viewer \<Rightarrow> bool" where
  "trees_fine v \<longleftrightarrow> (\<forall>t. Some t \<in> set (v_trees v) \<longrightarrow> ordinary_id (t_root t))"

text \<open>A tree that was removed stays so, and new trees have ids of their own.\<close>

definition trees_kept :: "viewer \<Rightarrow> viewer \<Rightarrow> bool" where
  "trees_kept v w \<longleftrightarrow> (tree_removed v \<longrightarrow> tree_removed w) \<and> (trees_fine v \<longrightarrow> trees_fine w)"

lemma TreeInfo_ordinary [simp]: "ordinary_id (t_root (TreeInfo st name m color))"
  by (rule digit_end_ordinary [of _ "name @ ''/f''" "CHR ''1''"]) (simp_all add: TreeInfo_def)

lemma trees_kept_cong: "v_trees w = v_trees v \<Longrightarrow> trees_kept v w"
  by (simp add: trees_kept_def tree_removed_def trees_fine_def)

lemma trees_kept_trans [trans]: "trees_kept u v \<Longrightarrow> trees_kept v w \<Longrightarrow> trees_kept u w"
  by (simp add: trees_kept_def)

lemma trees_kept_update:
  assumes "map_option t_root t = map_option t_root (v_trees v ! i) \<or> t = None" and "i < length (v_trees v)"
  shows "trees_kept v (v\<lparr>v_trees := (v_trees v)[i := t]\<rparr>)"
proof -
  have removed: "None \<in> set ((v_trees v)[i := t])" if none: "None \<in> set (v_trees v)"
  proof (cases "t = None")
    case True
    with assms(2) show ?thesis
      using set_update_memI by fastforce
  next
    case False
    from none obtain j where "j < length (v_trees v)" "v_trees v ! j = None"
      by (auto simp: in_set_conv_nth)
    with False assms(1) have "(v_trees v)[i := t] ! j = None"
      by (cases "j = i") auto
    with \<open>j < length (v_trees v)\<close> show ?thesis
      by (auto simp: in_set_conv_nth)
  qed
  have "ordinary_id (t_root x)" if fine: "trees_fine v" and x: "Some x \<in> set ((v_trees v)[i := t])" for x
  proof (cases "Some x = t")
    case True
    with assms(1) obtain y where "v_trees v ! i = Some y" "t_root y = t_root x"
      by (cases "v_trees v ! i") auto
    with fine assms(2) show ?thesis
      unfolding trees_fine_def by (metis nth_mem)
  next
    case False
    with x set_update_subset_insert [of "v_trees v" i t] fine show ?thesis
      by (auto simp: trees_fine_def)
  qed
  with removed show ?thesis
    by (simp add: trees_kept_def tree_removed_def trees_fine_def)
qed

interpretation grown: kept trees_kept
proof unfold_locales
  fix v :: viewer and i t b o'
  assume "i < length (v_trees v)" "v_trees v ! i = Some t"
  then show "trees_kept v (v\<lparr>v_trees := (v_trees v)[i := Some (t\<lparr>t_enabled := b, t_override := o'\<rparr>)]\<rparr>)"
    by (intro trees_kept_update) simp_all
next
  show "trees_kept v (v\<lparr>v_trees := v_trees v @ [Some (TreeInfo st name md color)]\<rparr>)" for v :: viewer and st name md color
    by (auto simp: trees_kept_def tree_removed_def trees_fine_def)
qed (auto intro: trees_kept_cong trees_kept_trans)

lemma grown_projection: "trees_kept v (page_setProjectionMatrix st w) = trees_kept v w"
  by (simp add: page_setProjectionMatrix_def Let_def triggerFrustumUpdate_def trees_kept_def tree_removed_def trees_fine_def)

lemma grown_clipping [simp]: "trees_kept v (w\<lparr>custom_clipping := b\<rparr>) = trees_kept v w"
  by (simp add: trees_kept_def tree_removed_def trees_fine_def)

lemma grown_event: "grown.keeps v (handle_event st href e v)"
proof (cases "quiet e")
  case False
  have scroll: "grown.keeps v (mouseScroll st d v)" for d
    unfolding mouseScroll_def Let_def
    by (rule grown.keeps_bind, rule grown.keeps_from [OF grown.keeps_move]) (simp add: grown_projection trees_kept_cong)
  have keys: "grown.keeps v (onKeyDown st href shift k v)" if "k = 73 \<or> k = 79 \<or> k = 80" for shift k
    using that by (elim disjE) (simp_all add: onKeyDown_def Let_def grown_projection trees_kept_cong)
  from False scroll keys show ?thesis
    by (cases e) (simp_all add: onFFMouseWheel_def onMouseWheel_def onPointCountSliderMove_def onWindowResize_def
      onCanvasResize_def grown_projection grown.trigger trees_kept_cong)
qed (rule grown.keeps_quiet)

lemma grown_remove: "trees_kept v (remove_tree name v)"
proof -
  define f where "f = (\<lambda>v i. case v_trees v ! i of None \<Rightarrow> v
    | Some t \<Rightarrow> if t_name t = name then triggerFrustumUpdate (v\<lparr>v_trees := (v_trees v)[i := None]\<rparr>) else v)"
  have len: "length (v_trees (f u i)) = length (v_trees u)" for u i
    by (simp add: f_def triggerFrustumUpdate_def split: option.split)
  have f: "i < length (v_trees u) \<Longrightarrow> trees_kept u (f u i)" for u i
    by (auto simp: f_def grown.same intro!: grown.trigger trees_kept_update split: option.split)
  have "set is \<subseteq> {..<length (v_trees u)} \<Longrightarrow> trees_kept u (foldl f u is)" for u "is"
    by (induction "is" arbitrary: u) (auto simp: grown.same len intro: trees_kept_trans [OF f])
  then show ?thesis
    by (simp add: remove_tree_def f_def [symmetric] atLeast0LessThan)
qed

text \<open>The reply with the metadata of a job sets a flag of the tree that it has just added.\<close>

lemma grown_metadata: "trees_kept (view p) (view (metadata_reply st j t response p))"
proof -
  define v where "v = addTree st t (MetaData st response) (view p)"
  have ne: "v_trees v \<noteq> []"
    by (simp add: v_def addTree_def start_camera_def triggerFrustumUpdate_def Let_def)
  have "butlast (v_trees v) @ [x] = (v_trees v)[length (v_trees v) - 1 := x]" for x
    using ne by (metis append_butlast_last_id length_append_singleton diff_Suc_1 list_update_length length_butlast)
  then have "trees_kept v (v\<lparr>v_trees := butlast (v_trees v) @ [map_option (\<lambda>tr. tr\<lparr>t_override := True\<rparr>) (last (v_trees v))]\<rparr>)"
    using ne by (simp add: trees_kept_update last_conv_nth option.map_comp comp_def)
  moreover have "trees_kept (view p) v"
    unfolding v_def by (rule grown.add_tree)
  ultimately have "trees_kept (view p)
      (v\<lparr>v_trees := butlast (v_trees v) @ [map_option (\<lambda>tr. tr\<lparr>t_override := True\<rparr>) (last (v_trees v))]\<rparr>)"
    by (rule trees_kept_trans [rotated])
  with \<open>trees_kept (view p) v\<close> show ?thesis
    by (simp add: metadata_reply_def Let_def v_def [symmetric] grown.cleared)
qed

lemma grown_reply: "trees_kept (view p) (view (reply st k status response p))"
  using grown_metadata
  by (cases k) (simp_all add: job_failed_def progress_reply_def completion_reply_def detection_done_def serveNewTree_def
    pollRoadDetectionProgress_def pollRoadDetectionCompletion_def Let_def grown.same)

lemma grown_job:
  assumes "job_step st href e p = Some p'"
  shows "trees_kept (view p) (view p')"
proof (cases e)
  case (Viewer_event x)
  then show ?thesis
    using assms grown.keepsD [OF grown_event] by auto
next
  case (Click_job j)
  then show ?thesis
    using assms grown.keepsD [OF grown.keeps_fly] by (auto simp: click_job_def grown.same split: if_splits)
next
  case (Reply i status response)
  then show ?thesis
    using assms grown_reply [of "take_task i p"] by (auto simp: grown.same split: if_splits)
next
  case (Remove_job j)
  then show ?thesis
    using assms grown_remove
    by (auto simp: JobInfo_remove_def Let_def grown.same split: if_splits option.split list.split)
qed (use assms in \<open>auto simp: timer_view grown.same split: sum.splits if_splits dest: start_job_view\<close>)

section \<open>The invariant\<close>

text \<open>The querier reads the trees of the viewer, by their number.\<close>

definition objects_ok :: "viewer \<Rightarrow> (nat \<Rightarrow> tree_info) \<Rightarrow> bool" where
  "objects_ok v f \<longleftrightarrow> (\<forall>i < length (v_trees v). \<forall>t. v_trees v ! i = Some t \<longrightarrow> t_root (f i) = t_root t)"

definition query_ok :: "world \<Rightarrow> bool" where
  "query_ok w \<longleftrightarrow>
     trees_fine (view (w_page w)) \<and> objects_ok (view (w_page w)) (w_objects w) \<and> counted (w_querier w) \<and>
     (tree_removed (view (w_page w)) \<or> sound (w_querier w))"

lemma roots_ok_page:
  assumes "query_ok w" and "\<not> tree_removed (view (w_page w))"
  shows "roots_ok (world_config st w)"
proof -
  have "v_trees v ! i \<noteq> None" if "i < length (v_trees v)" "v = view (w_page w)" for i v
    using assms(2) that unfolding tree_removed_def by (metis nth_mem)
  then have "\<exists>j. t = Some j \<and> ordinary_id (t_root (w_objects w j))" if "t \<in> set (trees_info (world_config st w))" for t
    using assms(1) that
    by (fastforce simp: world_config_def page_config_def query_ok_def trees_fine_def objects_ok_def in_set_conv_nth)
  then show ?thesis
    by (auto simp: roots_ok_def world_config_def page_config_def)
qed

lemma tell_ok:
  assumes "trees_fine (view p)" "counted (w_querier w)" "tree_removed (view p) \<or> sound (w_querier w)"
  shows "query_ok (tell_querier p w)"
proof -
  have "objects_ok (view p) (tree_objects (view p) (w_objects w))"
    by (simp add: objects_ok_def tree_objects_def tree_info.defs)
  with assms show ?thesis
    by (simp add: query_ok_def tell_querier_def told_keeps)
qed

lemma query_ok_view:
  assumes "query_ok w" "v_trees v = v_trees (view (w_page w))" "counted q" "tree_removed v \<or> sound q"
  shows "query_ok (set_view v (w\<lparr>w_querier := q\<rparr>))"
  using assms by (simp add: query_ok_def set_view_def trees_fine_def tree_removed_def objects_ok_def)

lemma show_results_trees [simp]: "v_trees (show_results q q' v) = v_trees v"
  by (simp add: show_results_def)

lemma renderLoop_trees: "renderLoop st v s = Some (v', s') \<Longrightarrow> v_trees v' = v_trees v"
  by (auto simp: renderLoop_def draw_shown_cells_def draw_measurements_def Let_def bind_eq_Some_conv split: option.splits)

lemma handled_ok:
  assumes "query_ok w" "handle (world_config st w) n ev (w_querier w) = Inr q" "v_trees v = v_trees (view (w_page w))"
  shows "query_ok (set_view v (w\<lparr>w_querier := q\<rparr>))"
proof (rule query_ok_view [OF assms(1,3)])
  show "counted q"
    using assms(1,2) counted_handle by (auto simp: query_ok_def)
  show "tree_removed v \<or> sound q"
    using assms(1,3) sound_handle [OF _ roots_ok_page [OF assms(1)] assms(2)]
    by (auto simp: query_ok_def tree_removed_def)
qed

lemma loaded_trees [simp]: "v_trees (onProgramLoaded st w h v) = v_trees v" "desired_count (onProgramLoaded st w h v) = desired_count v"
  by (simp_all add: onProgramLoaded_def onWindowResize_def onCanvasResize_def page_setProjectionMatrix_def triggerFrustumUpdate_def
    Let_def)

lemma query_step_ok:
  assumes "world_step st href e w = Inr w'" and "query_ok w"
  shows "query_ok w'"
proof (cases e)
  case (User_event j)
  show ?thesis
  proof (cases "user_event j")
    case True
    with assms(1) User_event obtain p where p: "job_step st href j (w_page w) = Some p" "w' = tell_querier p w"
      by (auto simp: page_step_Some split: option.splits)
    from grown_job [OF p(1)] assms(2) show ?thesis
      unfolding p(2) by (intro tell_ok) (auto simp: trees_kept_def query_ok_def)
  qed (use assms User_event in simp)
next
  case (Query_timeout n)
  with assms(1) obtain v q where q: "frustum_timeout st (world_config st w) n (view (w_page w)) (w_querier w) = Inr (v, q)"
    "w' = set_view (show_results (w_querier w) q v) (w\<lparr>w_querier := q\<rparr>)"
    by (auto split: sum.splits)
  consider "v = view (w_page w)" "q = w_querier w"
    | camera gm where "v_trees v = v_trees (view (w_page w))" "handle (world_config st w) n (GetFrustum camera gm) (w_querier w) = Inr q"
    using timeout_handled [OF q(1)] by fastforce
  then show ?thesis
  proof cases
    case 1
    with assms(2) show ?thesis
      unfolding q(2) by (intro query_ok_view [OF assms(2)]) (simp_all add: query_ok_def tree_removed_def)
  next
    case 2
    then show ?thesis
      unfolding q(2) by (intro handled_ok [OF assms(2)]) simp_all
  qed
next
  case (Query_event n ev)
  with assms show ?thesis
    using handled_ok [OF assms(2)] by (auto split: if_splits sum.splits)
next
  case Frame
  show ?thesis
  proof (cases "w_loaded w")
    case True
    with Frame assms(1) obtain v s where f: "renderLoop st (view (w_page w)) (w_screen w) = Some (v, s)" "w' = set_view v (w\<lparr>w_screen := s\<rparr>)"
      by (auto split: option.splits)
    from assms(2) renderLoop_trees [OF f(1)] show ?thesis
      by (simp add: f(2) query_ok_def set_view_def trees_fine_def tree_removed_def objects_ok_def)
  qed (use assms Frame in simp)
next
  case (Shaders_loaded width height)
  with assms(1) consider "w' = w"
    | "w' = tell_querier ((w_page w)\<lparr>view := onProgramLoaded st width height (view (w_page w))\<rparr>) (w\<lparr>w_loaded := True\<rparr>)"
    by (auto split: if_splits)
  then show ?thesis
  proof cases
    case 2
    with assms(2) show ?thesis
      by (simp only:, intro tell_ok) (simp_all add: query_ok_def tree_removed_def trees_fine_def)
  qed (use assms(2) in simp)
qed

lemma query_run_ok: "world_run st href es w = Inr w' \<Longrightarrow> query_ok w \<Longrightarrow> query_ok w'"
  by (induction es arbitrary: w) (auto split: sum.splits dest: query_step_ok)

lemma opened_query_ok: "query_ok (opened_page st query canvas cs f)"
  by (simp add: query_ok_def opened_page_def Let_def new_page_def trees_fine_def objects_ok_def start_page_fields sound_new)
    (rule counted_start [of _ 400], simp_all add: page_config_def start_page_fields)

section \<open>Property\<close>

text \<open>C6. The queries of the page never fail: in every state that the page reaches from its opening while no tree has been
  removed and the number of cells of the slider is finite, the timer of the query and every event of the querier whose
  reply has a body that is not empty return without an exception, with a number of nested callbacks that only the slider bounds.\<close>

theorem query_always_answers:
  assumes "world_run st href es (opened_page st query canvas cs f) = Inr u"
    and "None \<notin> set (v_trees (view (w_page u)))"
    and "desired_count (view (w_page u)) = Fin d" and "fuel_needed d 0 \<le> n" and "v_cam (view (w_page u)) \<noteq> None"
  shows "(\<exists>u'. world_step st href (Query_timeout n) u = Inr u') \<and>
    (\<forall>ev. good_reply ev \<longrightarrow> (\<exists>u'. world_step st href (Query_event n ev) u = Inr u'))"
proof -
  have ok: "query_ok u" and nr: "\<not> tree_removed (view (w_page u))"
    using query_run_ok [OF assms(1) opened_query_ok] assms(2) by (simp_all add: tree_removed_def)
  then have "sound (w_querier u)" "counted (w_querier u)" "desired_cell_count (world_config st u) = Fin d"
    using assms(3) by (simp_all add: query_ok_def world_config_def page_config_def)
  note returns = handle_returns [OF this(1,2) roots_ok_page [OF ok nr] _ this(3) assms(4)]
  have handled: "\<exists>q. handle (world_config st u) n ev (w_querier u) = Inr q" if "good_reply ev" for ev
    using returns [OF that] by blast
  have asked: "\<exists>q. getFrustum (world_config st u) n camera gm (w_querier u) = Inr q" for camera gm
    using handled [of "GetFrustum camera gm"] by (simp add: good_reply_def handle_def)
  have "\<exists>r. frustum_timeout st (world_config st u) n (view (w_page u)) (w_querier u) = Inr r"
  proof (cases "v_cam (view (w_page u))"; cases "existing_frustum_trigger (view (w_page u))")
    fix cam gm
    assume "v_cam (view (w_page u)) = Some cam" "existing_frustum_trigger (view (w_page u)) = Some gm"
    with asked [of "getMatrix st cam" gm] show ?thesis
      by (auto simp: frustum_timeout_def)
  qed (use assms(5) in \<open>simp_all add: frustum_timeout_def\<close>)
  then have "\<exists>u'. world_step st href (Query_timeout n) u = Inr u'"
    by auto
  with handled show ?thesis
    by fastforce
qed

lemma query_always_answers_witness:
  "\<exists>u'. world_step f64 '''' (Query_timeout 602) demo_world = Inr u'"
proof -
  obtain cam where v: "v_cam (view (w_page demo_world)) = Some cam"
    "v_trees (view (w_page demo_world)) = [Some (TreeInfo f64 ''a'' (metadata_defaults f64) [1, 0, 0])]"
    by (rule demo_world_view)
  have "desired_count (view (w_page demo_world)) = Fin 400"
    by (simp add: demo_world_def new_page_def addTree_def start_camera_def triggerFrustumUpdate_def start_page_fields Let_def)
  then show ?thesis
    using query_always_answers [OF demo_world_run, of 400 602] v by (simp add: fuel_needed_def)
qed

end
